(* ===== verification/Prelude.thy ===== *)
theory Prelude
  imports Main "HOL-Library.List_Lexorder" "HOL-Library.Char_ord"
begin

text \<open>
  The vocabulary all components share: Python exceptions as values, the string methods
  the sources call, stable sorting under a comparison, first-match search, and the generic
  lemmas about them.

  A Python \<open>str\<close> is a \<open>char list\<close>: a character stands for the code point of its
  number, so the model covers the code points 0 to 255. \<open>py_strip\<close> and \<open>py_lower\<close> are
  exact on that range.
\<close>

named_theorems guard_simps \<open>validation functions: when they return and what they return\<close>

section \<open>Exceptions as values\<close>

type_synonym refusal_data = "(string \<times> string option) list"

text \<open>
  One constructor per exception class the modelled code raises or lets through. The
  argument is the message; \<open>MCPAuthorityBlocked\<close> carries its \<open>code\<close>, its message and its data.
\<close>

datatype exn =
    ValueError string
  | RuntimeError string
  | TypeError string
  | KeyError string
  | IntegrityError string
  | AuthorityDenied string
  | MCPAuthorityBlocked string string refusal_data
  | MCPProxyUnavailable string
  | GitHubAppUnavailable string
  | JudgeUnavailable string
  | CatalogUnavailable string
  | FinalResponseError string
  | ConfigError string
  | HermesRunNotFound string
  | IndexError string
  | AttributeError string
  | OverflowError string
  | OperationalError string
  | TimeoutError string
  | StatusSnapshotError string
  | TimeoutExpired string
  | CalledProcessError string
  | FileNotFoundError string
  | OSError string
  | HTTPException string

text \<open>\<open>str(exc)\<close>; a \<open>KeyError\<close> shows its key in quotes.\<close>

fun exn_text :: "exn \<Rightarrow> string" where
  "exn_text (ValueError m) = m"
| "exn_text (RuntimeError m) = m"
| "exn_text (TypeError m) = m"
| "exn_text (KeyError m) = CHR 0x27 # m @ [CHR 0x27]"
| "exn_text (IntegrityError m) = m"
| "exn_text (AuthorityDenied m) = m"
| "exn_text (MCPAuthorityBlocked code m details) = m"
| "exn_text (MCPProxyUnavailable m) = m"
| "exn_text (GitHubAppUnavailable m) = m"
| "exn_text (JudgeUnavailable m) = m"
| "exn_text (CatalogUnavailable m) = m"
| "exn_text (FinalResponseError m) = m"
| "exn_text (ConfigError m) = m"
| "exn_text (HermesRunNotFound m) = m"
| "exn_text (IndexError m) = m"
| "exn_text (AttributeError m) = m"
| "exn_text (OverflowError m) = m"
| "exn_text (OperationalError m) = m"
| "exn_text (TimeoutError m) = m"
| "exn_text (StatusSnapshotError m) = m"
| "exn_text (TimeoutExpired m) = m"
| "exn_text (CalledProcessError m) = m"
| "exn_text (FileNotFoundError m) = m"
| "exn_text (OSError m) = m"
| "exn_text (HTTPException m) = m"

type_synonym 'a result = "exn + 'a"

definition result_bind :: "'a result \<Rightarrow> ('a \<Rightarrow> 'b result) \<Rightarrow> 'b result" where
  "result_bind m f = (case m of Inl e \<Rightarrow> Inl e | Inr x \<Rightarrow> f x)"

lemma result_bind_simps [simp]:
  "result_bind (Inl e) f = Inl e"
  "result_bind (Inr x) f = f x"
  by (simp_all add: result_bind_def)

lemma result_bind_Inr_iff [simp]:
  "result_bind m f = Inr y \<longleftrightarrow> (\<exists>x. m = Inr x \<and> f x = Inr y)"
  by (cases m) auto

lemma result_bind_Inl_iff:
  "result_bind m f = Inl e \<longleftrightarrow> m = Inl e \<or> (\<exists>x. m = Inr x \<and> f x = Inl e)"
  by (cases m) auto

lemma result_bind_cong [fundef_cong]:
  "m = m' \<Longrightarrow> (\<And>x. m' = Inr x \<Longrightarrow> f x = g x) \<Longrightarrow> result_bind m f = result_bind m' g"
  by (cases m') auto

text \<open>Which exceptions a computation may raise.\<close>

definition raises_only :: "(exn \<Rightarrow> bool) \<Rightarrow> 'a result \<Rightarrow> bool" where
  "raises_only P m = (case m of Inl e \<Rightarrow> P e | Inr _ \<Rightarrow> True)"

lemma raises_only_simps [simp]:
  "raises_only P (Inl e) = P e"
  "raises_only P (Inr x)"
  by (simp_all add: raises_only_def)

lemma raises_only_bind [intro]:
  "raises_only P m \<Longrightarrow> (\<And>x. m = Inr x \<Longrightarrow> raises_only P (f x)) \<Longrightarrow> raises_only P (result_bind m f)"
  by (cases m) auto

lemma raises_only_if [intro]:
  "(c \<Longrightarrow> raises_only P a) \<Longrightarrow> (\<not> c \<Longrightarrow> raises_only P b) \<Longrightarrow> raises_only P (if c then a else b)"
  by simp

lemma raises_onlyD: "raises_only P m \<Longrightarrow> m = Inl e \<Longrightarrow> P e"
  by simp

lemma if_Inl_Inr: "(if c then Inl e else m) = Inr x \<longleftrightarrow> \<not> c \<and> m = Inr x"
  by simp

text \<open>A loop that builds a list and stops at the first exception.\<close>

fun map_result :: "('a \<Rightarrow> 'b result) \<Rightarrow> 'a list \<Rightarrow> 'b list result" where
  "map_result f [] = Inr []"
| "map_result f (x # xs) =
     result_bind (f x) (\<lambda>y. result_bind (map_result f xs) (\<lambda>ys. Inr (y # ys)))"

lemma map_result_Inr_iff:
  "map_result f xs = Inr ys \<longleftrightarrow> list_all2 (\<lambda>x y. f x = Inr y) xs ys"
  by (induction xs arbitrary: ys) (auto simp: list_all2_Cons1)

lemma map_result_cong [fundef_cong]:
  "xs = ys \<Longrightarrow> (\<And>x. x \<in> set ys \<Longrightarrow> f x = g x) \<Longrightarrow> map_result f xs = map_result g ys"
  by (induction ys arbitrary: xs) auto

section \<open>Strings\<close>

abbreviation ord_of :: "char \<Rightarrow> nat" where
  "ord_of c \<equiv> of_char c"

definition is_space :: "char \<Rightarrow> bool" where
  "is_space c \<longleftrightarrow> (let n = ord_of c in
     (9 \<le> n \<and> n \<le> 13) \<or> (28 \<le> n \<and> n \<le> 32) \<or> n = 133 \<or> n = 160)"

definition is_control :: "char \<Rightarrow> bool" where
  "is_control c \<longleftrightarrow> ord_of c < 32"

definition py_lstrip :: "string \<Rightarrow> string" where
  "py_lstrip s = dropWhile is_space s"

definition py_rstrip :: "string \<Rightarrow> string" where
  "py_rstrip s = rev (dropWhile is_space (rev s))"

definition py_strip :: "string \<Rightarrow> string" where
  "py_strip s = py_rstrip (py_lstrip s)"

definition lstrip_char :: "char \<Rightarrow> string \<Rightarrow> string" where
  "lstrip_char c s = dropWhile (\<lambda>x. x = c) s"

definition rstrip_char :: "char \<Rightarrow> string \<Rightarrow> string" where
  "rstrip_char c s = rev (dropWhile (\<lambda>x. x = c) (rev s))"

definition lower_char :: "char \<Rightarrow> char" where
  "lower_char c = (let n = ord_of c in
     if (65 \<le> n \<and> n \<le> 90) \<or> (192 \<le> n \<and> n \<le> 222 \<and> n \<noteq> 215) then char_of (n + 32) else c)"

definition py_lower :: "string \<Rightarrow> string" where
  "py_lower s = map lower_char s"

text \<open>
  \<open>str.upper\<close>: the characters 181 and 255 become code points above 255, which the
  model keeps as they are, and the sharp s becomes two letters. The sources only compare
  the result with ASCII words, and none of these characters can contribute to one but the
  sharp s, which is exact.
\<close>

definition upper_char :: "char \<Rightarrow> string" where
  "upper_char c = (let n = ord_of c in
     if n = 223 then ''SS''
     else if (97 \<le> n \<and> n \<le> 122) \<or> (224 \<le> n \<and> n \<le> 254 \<and> n \<noteq> 247) then [char_of (n - 32)]
     else [c])"

definition py_upper :: "string \<Rightarrow> string" where
  "py_upper s = concat (map upper_char s)"

definition starts_with :: "string \<Rightarrow> string \<Rightarrow> bool" where
  "starts_with p s \<longleftrightarrow> take (length p) s = p"

definition ends_with :: "string \<Rightarrow> string \<Rightarrow> bool" where
  "ends_with p s \<longleftrightarrow> starts_with (rev p) (rev s)"

text \<open>The Python test \<open>p in s\<close> on strings.\<close>

fun contains_str :: "string \<Rightarrow> string \<Rightarrow> bool" where
  "contains_str p [] = (p = [])"
| "contains_str p (c # s) = (starts_with p (c # s) \<or> contains_str p s)"

fun join_str :: "string \<Rightarrow> string list \<Rightarrow> string" where
  "join_str sep [] = []"
| "join_str sep [x] = x"
| "join_str sep (x # y # xs) = x @ sep @ join_str sep (y # xs)"

definition newline :: char where
  "newline = CHR 0x0A"

definition join_lines :: "string list \<Rightarrow> string" where
  "join_lines ls = join_str [newline] ls"

text \<open>\<open>s.split(c)\<close> for a one-character separator: never the empty list.\<close>

fun split_char :: "char \<Rightarrow> string \<Rightarrow> string list" where
  "split_char c [] = [[]]"
| "split_char c (x # xs) =
     (if x = c then [] # split_char c xs
      else (case split_char c xs of [] \<Rightarrow> [[x]] | w # ws \<Rightarrow> (x # w) # ws))"

text \<open>\<open>s.split()\<close>: the maximal runs of characters that are not white space.\<close>

fun split_ws :: "string \<Rightarrow> string list" where
  "split_ws [] = []"
| "split_ws (x # xs) =
     (if is_space x then split_ws xs
      else (case xs of [] \<Rightarrow> [[x]]
            | y # _ \<Rightarrow> if is_space y then [x] # split_ws xs
                      else (case split_ws xs of [] \<Rightarrow> [[x]] | w # ws \<Rightarrow> (x # w) # ws)))"

text \<open>\<open>s.splitlines()\<close>: a carriage return followed by a line feed is one break.\<close>

definition is_linebreak :: "char \<Rightarrow> bool" where
  "is_linebreak c \<longleftrightarrow> ord_of c \<in> {10, 11, 12, 13, 28, 29, 30, 133}"

fun py_splitlines :: "string \<Rightarrow> string list" where
  "py_splitlines [] = []"
| "py_splitlines (x # xs) =
     (if is_linebreak x \<and> \<not> (ord_of x = 13 \<and> xs \<noteq> [] \<and> ord_of (hd xs) = 10) then [] # py_splitlines xs
      else if is_linebreak x then py_splitlines xs
      else (case xs of [] \<Rightarrow> [[x]]
            | y # _ \<Rightarrow> (case py_splitlines xs of [] \<Rightarrow> [[x]] | w # ws \<Rightarrow> (x # w) # ws)))"

text \<open>\<open>str(n)\<close> for integers.\<close>

fun digits_of :: "nat \<Rightarrow> string" where
  "digits_of n = (if n < 10 then [char_of (48 + n)] else digits_of (n div 10) @ [char_of (48 + n mod 10)])"

declare digits_of.simps [simp del]

definition str_of_int :: "int \<Rightarrow> string" where
  "str_of_int i = (if i < 0 then ''-'' @ digits_of (nat (- i)) else digits_of (nat i))"

lemma starts_with_self [simp]: "starts_with p (p @ r)"
  by (simp add: starts_with_def)

lemma starts_with_iff: "starts_with p s \<longleftrightarrow> (\<exists>r. s = p @ r)"
proof
  assume "starts_with p s"
  then have "s = p @ drop (length p) s"
    unfolding starts_with_def by (metis append_take_drop_id)
  then show "\<exists>r. s = p @ r" by blast
qed (auto simp: starts_with_def)

lemma ends_with_iff: "ends_with p s \<longleftrightarrow> (\<exists>r. s = r @ p)"
  unfolding ends_with_def starts_with_iff by (metis rev_append rev_rev_ident)

lemma contains_str_iff: "contains_str p s \<longleftrightarrow> (\<exists>a b. s = a @ p @ b)"
proof (induction s)
  case Nil
  then show ?case by auto
next
  case (Cons c s)
  have "(\<exists>a b. c # s = a @ p @ b) \<longleftrightarrow> (\<exists>b. c # s = p @ b) \<or> (\<exists>a b. s = a @ p @ b)"
    by (metis append_Cons append_Nil neq_Nil_conv list.inject)
  with Cons show ?case by (simp add: starts_with_iff)
qed

lemma split_char_not_Nil [simp]: "split_char c s \<noteq> []"
  by (cases s) (auto split: list.splits)

text \<open>Joining with the separator and splitting at it are inverse when no part holds it.\<close>

lemma split_char_no_sep: "c \<notin> set s \<Longrightarrow> split_char c s = [s]"
  by (induction s) auto

lemma split_char_append: "c \<notin> set x \<Longrightarrow> split_char c (x @ c # s) = x # split_char c s"
  by (induction x) auto

lemma split_join:
  "xs \<noteq> [] \<Longrightarrow> (\<forall>x\<in>set xs. c \<notin> set x) \<Longrightarrow> split_char c (join_str [c] xs) = xs"
  by (induction "[c]" xs rule: join_str.induct) (auto simp: split_char_no_sep split_char_append)

lemma join_split: "join_str [c] (split_char c s) = s"
proof (induction s)
  case (Cons x xs)
  then obtain w ws where w: "split_char c xs = w # ws"
    by (meson neq_Nil_conv split_char_not_Nil)
  with Cons show ?case by (cases ws) auto
qed simp

lemma split_char_parts: "w \<in> set (split_char c s) \<Longrightarrow> c \<notin> set w"
proof (induction s arbitrary: w)
  case (Cons x xs)
  then show ?case by (cases "split_char c xs") (auto split: if_splits)
qed simp

lemma join_str_inj:
  assumes "join_str [c] xs = join_str [c] ys" "xs \<noteq> []" "ys \<noteq> []"
    and "\<forall>x\<in>set xs. c \<notin> set x" "\<forall>y\<in>set ys. c \<notin> set y"
  shows "xs = ys"
  using assms by (metis split_join)

lemma dropWhile_idem: "dropWhile P (dropWhile P xs) = dropWhile P xs"
  by (induction xs) auto

lemma dropWhile_ends:
  "dropWhile P xs = [] \<or> \<not> P (hd (dropWhile P xs))"
  using hd_dropWhile by blast

lemma py_strip_rstrip_prefix: "\<exists>t. s = py_rstrip s @ t \<and> (\<forall>c\<in>set t. is_space c)"
proof -
  have "rev s = takeWhile is_space (rev s) @ dropWhile is_space (rev s)" by simp
  then have "s = py_rstrip s @ rev (takeWhile is_space (rev s))"
    unfolding py_rstrip_def by (metis rev_append rev_rev_ident)
  moreover have "\<forall>c\<in>set (rev (takeWhile is_space (rev s))). is_space c"
    by (auto dest: set_takeWhileD)
  ultimately show ?thesis by blast
qed

lemma set_py_strip: "set (py_strip s) \<subseteq> set s"
  unfolding py_strip_def py_rstrip_def py_lstrip_def
  by (metis (full_types) set_dropWhileD set_rev subsetI)

lemma py_strip_length: "length (py_strip s) \<le> length s"
  unfolding py_strip_def py_rstrip_def py_lstrip_def
  by (metis length_dropWhile_le length_rev order_trans)

lemma py_strip_Nil_iff: "py_strip s = [] \<longleftrightarrow> (\<forall>c\<in>set s. is_space c)"
proof -
  have "py_strip s = [] \<longleftrightarrow> (\<forall>c\<in>set (dropWhile is_space s). is_space c)"
    by (simp add: py_strip_def py_rstrip_def py_lstrip_def)
  also have "\<dots> \<longleftrightarrow> dropWhile is_space s = []"
    by (metis dropWhile_ends dropWhile_eq_Nil_conv dropWhile_idem)
  finally show ?thesis by simp
qed

lemma py_strip_id:
  assumes "s = [] \<or> \<not> is_space (hd s) \<and> \<not> is_space (last s)"
  shows "py_strip s = s"
proof (cases "s = []")
  case False
  with assms have a: "\<not> is_space (hd s)" and b: "\<not> is_space (hd (rev s))"
    by (auto simp: hd_rev)
  from a False have "dropWhile is_space s = s" by (cases s) auto
  moreover from b False have "dropWhile is_space (rev s) = rev s"
    by (cases "rev s") auto
  ultimately show ?thesis by (simp add: py_strip_def py_rstrip_def py_lstrip_def)
qed (simp add: py_strip_def py_rstrip_def py_lstrip_def)

section \<open>Lists\<close>

text \<open>
  \<open>sorted\<close> and \<open>list.sort\<close> with a comparison \<open>lt\<close>: a stable sort. Where \<open>lt\<close> is a
  strict weak order every stable sort gives this result.
\<close>

fun insert_by :: "('a \<Rightarrow> 'a \<Rightarrow> bool) \<Rightarrow> 'a \<Rightarrow> 'a list \<Rightarrow> 'a list" where
  "insert_by lt x [] = [x]"
| "insert_by lt x (y # ys) = (if lt y x then y # insert_by lt x ys else x # y # ys)"

fun sort_by :: "('a \<Rightarrow> 'a \<Rightarrow> bool) \<Rightarrow> 'a list \<Rightarrow> 'a list" where
  "sort_by lt [] = []"
| "sort_by lt (x # xs) = insert_by lt x (sort_by lt xs)"

lemma set_insert_by [simp]: "set (insert_by lt x xs) = insert x (set xs)"
  by (induction xs) auto

lemma set_sort_by [simp]: "set (sort_by lt xs) = set xs"
  by (induction xs) auto

lemma length_insert_by [simp]: "length (insert_by lt x xs) = Suc (length xs)"
  by (induction xs) auto

lemma length_sort_by [simp]: "length (sort_by lt xs) = length xs"
  by (induction xs) auto

lemma distinct_insert_by: "distinct (insert_by lt x xs) \<longleftrightarrow> x \<notin> set xs \<and> distinct xs"
  by (induction xs) auto

lemma distinct_sort_by [simp]: "distinct (sort_by lt xs) = distinct xs"
  by (induction xs) (auto simp: distinct_insert_by)

lemma sort_by_Nil_iff [simp]: "sort_by lt xs = [] \<longleftrightarrow> xs = []"
  by (metis length_0_conv length_sort_by)

text \<open>The head of a sorted list is not beaten by any element, for a strict weak order.\<close>

definition weak_order_on :: "'a set \<Rightarrow> ('a \<Rightarrow> 'a \<Rightarrow> bool) \<Rightarrow> bool" where
  "weak_order_on A lt \<longleftrightarrow>
     (\<forall>x\<in>A. \<not> lt x x) \<and>
     (\<forall>x\<in>A. \<forall>y\<in>A. \<forall>z\<in>A. \<not> lt y x \<longrightarrow> \<not> lt z y \<longrightarrow> \<not> lt z x) \<and>
     (\<forall>x\<in>A. \<forall>y\<in>A. lt x y \<longrightarrow> \<not> lt y x)"

lemma weak_order_onD:
  assumes "weak_order_on A lt" "x \<in> A" "y \<in> A" "z \<in> A"
  shows "\<not> lt y x \<Longrightarrow> \<not> lt z y \<Longrightarrow> \<not> lt z x" and "lt x y \<Longrightarrow> \<not> lt y x"
  using assms unfolding weak_order_on_def by blast+

lemma insert_by_sorted:
  assumes "weak_order_on A lt" "x \<in> A" "set xs \<subseteq> A" "sorted_wrt (\<lambda>a b. \<not> lt b a) xs"
  shows "sorted_wrt (\<lambda>a b. \<not> lt b a) (insert_by lt x xs)"
  using assms(3,4)
proof (induction xs)
  case (Cons y ys)
  then have y: "y \<in> A" and ys: "set ys \<subseteq> A" and le: "\<forall>z\<in>set ys. \<not> lt z y" by auto
  show ?case
  proof (cases "lt y x")
    case True
    then have "\<not> lt x y" using weak_order_onD(2) [OF assms(1) y assms(2) y] by simp
    with True Cons y ys le show ?thesis by simp
  next
    case False
    have "\<not> lt z x" if "z \<in> set ys" for z
      using weak_order_onD(1) [OF assms(1,2) y, of z] that ys le False by blast
    with False Cons le show ?thesis by simp
  qed
qed simp

lemma sort_by_sorted:
  "weak_order_on A lt \<Longrightarrow> set xs \<subseteq> A \<Longrightarrow> sorted_wrt (\<lambda>a b. \<not> lt b a) (sort_by lt xs)"
  by (induction xs) (simp_all add: insert_by_sorted [where A = A])

text \<open>\<open>dict.fromkeys\<close>: the first occurrence of each element, in order.\<close>

fun nub_first :: "'a list \<Rightarrow> 'a list" where
  "nub_first [] = []"
| "nub_first (x # xs) = x # nub_first (filter (\<lambda>y. y \<noteq> x) xs)"

lemma set_nub_first [simp]: "set (nub_first xs) = set xs"
  by (induction xs rule: nub_first.induct) auto

lemma distinct_nub_first [simp]: "distinct (nub_first xs)"
  by (induction xs rule: nub_first.induct) auto

lemma find_Some_in: "find P xs = Some x \<Longrightarrow> x \<in> set xs \<and> P x"
  by (induction xs) (auto split: if_splits)

lemma find_None_all: "find P xs = None \<longleftrightarrow> (\<forall>x\<in>set xs. \<not> P x)"
  by (induction xs) auto

text \<open>Rows of a table are updated in place by \<open>UPDATE ... WHERE\<close>.\<close>

definition update_where :: "('a \<Rightarrow> bool) \<Rightarrow> ('a \<Rightarrow> 'a) \<Rightarrow> 'a list \<Rightarrow> 'a list" where
  "update_where P f xs = map (\<lambda>x. if P x then f x else x) xs"

definition count_where :: "('a \<Rightarrow> bool) \<Rightarrow> 'a list \<Rightarrow> nat" where
  "count_where P xs = length (filter P xs)"

lemma length_update_where [simp]: "length (update_where P f xs) = length xs"
  by (simp add: update_where_def)

lemma update_where_simps [simp]:
  "update_where P f [] = []"
  "update_where P f (x # xs) = (if P x then f x else x) # update_where P f xs"
  by (simp_all add: update_where_def)

lemma map_update_where:
  "(\<And>x. P x \<Longrightarrow> g (f x) = g x) \<Longrightarrow> map g (update_where P f xs) = map g xs"
  by (induction xs) auto

lemma set_update_where:
  "set (update_where P f xs) = {f x | x. x \<in> set xs \<and> P x} \<union> {x \<in> set xs. \<not> P x}"
  by (induction xs) auto

lemma update_where_in_iff:
  "y \<in> set (update_where P f xs) \<longleftrightarrow> (\<exists>x\<in>set xs. y = (if P x then f x else x))"
  by (induction xs) auto

lemma update_where_ball:
  "(\<forall>y\<in>set (update_where P f xs). Q y) \<longleftrightarrow> (\<forall>x\<in>set xs. if P x then Q (f x) else Q x)"
  by (induction xs) auto

lemma update_where_bex:
  "(\<exists>y\<in>set (update_where P f xs). Q y) \<longleftrightarrow> (\<exists>x\<in>set xs. if P x then Q (f x) else Q x)"
  by (induction xs) auto

lemma count_where_0_iff: "count_where P xs = 0 \<longleftrightarrow> (\<forall>x\<in>set xs. \<not> P x)"
  by (simp add: count_where_def filter_empty_conv)

lemma filter_unique:
  "distinct xs \<Longrightarrow> r \<in> set xs \<Longrightarrow> (\<And>x. x \<in> set xs \<Longrightarrow> P x \<longleftrightarrow> x = r) \<Longrightarrow> filter P xs = [r]"
proof (induction xs)
  case (Cons y ys)
  show ?case
  proof (cases "y = r")
    case True
    with Cons.prems(1) have "r \<notin> set ys" by simp
    then have "\<not> P x" if "x \<in> set ys" for x using Cons.prems(3) [of x] that by auto
    with True Cons.prems(3) show ?thesis by (simp add: filter_empty_conv)
  next
    case False
    have "filter P ys = [r]" using Cons False by (intro Cons.IH) auto
    with False Cons.prems(3) show ?thesis by simp
  qed
qed simp

lemma distinct_map_eq:
  "distinct (map f xs) \<Longrightarrow> x \<in> set xs \<Longrightarrow> y \<in> set xs \<Longrightarrow> f x = f y \<Longrightarrow> x = y"
  by (auto simp: distinct_map inj_on_def)

lemma count_where_unique:
  assumes "distinct (map key xs)" "r \<in> set xs" "P r" "\<And>x. x \<in> set xs \<Longrightarrow> P x \<Longrightarrow> key x = key r"
  shows "count_where P xs = 1"
proof -
  have inj: "x = r" if "x \<in> set xs" "P x" for x
    by (rule distinct_map_eq [OF assms(1) that(1) assms(2) assms(4) [OF that]])
  have "distinct xs" using assms(1) by (simp add: distinct_map)
  then have "filter P xs = [r]" using assms(2,3) inj by (intro filter_unique) blast+
  then show ?thesis by (simp add: count_where_def)
qed

lemma count_where_update_le:
  "(\<And>x. x \<in> set xs \<Longrightarrow> P (if Q x then f x else x) \<Longrightarrow> P x) \<Longrightarrow>
   count_where P (update_where Q f xs) \<le> count_where P xs"
  proof (induction xs)
  case (Cons x xs)
  then have "count_where P (update_where Q f xs) \<le> count_where P xs"
    and "P (if Q x then f x else x) \<Longrightarrow> P x" by simp_all
  then show ?case by (auto simp: count_where_def)
qed (simp add: count_where_def)

text \<open>\<open>INSERT ... ON CONFLICT(key) DO UPDATE\<close>: an existing row keeps its place.\<close>

definition upsert :: "('a \<Rightarrow> 'k) \<Rightarrow> 'a \<Rightarrow> ('a \<Rightarrow> 'a) \<Rightarrow> 'a list \<Rightarrow> 'a list" where
  "upsert key row upd rows =
     (if key row \<in> set (map key rows) then update_where (\<lambda>r. key r = key row) upd rows else rows @ [row])"

lemma distinct_upsert:
  assumes "distinct (map key rows)" "\<And>r. key (upd r) = key r"
  shows "distinct (map key (upsert key row upd rows))"
proof (cases "key row \<in> set (map key rows)")
  case True
  with assms show ?thesis by (simp add: upsert_def map_update_where)
qed (use assms in \<open>auto simp: upsert_def\<close>)

lemma upsert_cases:
  "r \<in> set (upsert key row upd rows) \<Longrightarrow>
     r = row \<or> (\<exists>r0\<in>set rows. r = r0 \<or> key r0 = key row \<and> r = upd r0)"
  by (auto simp: upsert_def update_where_in_iff split: if_splits)


end
