(* ===== verification/PyJson.thy ===== *)
theory PyJson
  imports Complex_Main Prelude
begin

text \<open>
  The values \<open>json.loads\<close> returns, the dictionary operations the sources use on them,
  and \<open>json.dumps\<close> in the canonical form the request hashes are taken over:
  \<open>sort_keys=True\<close>, \<open>ensure_ascii=False\<close> and the separators comma and colon.

  A Python float is a rational number or one of the three special values (the sign of zero
  is not represented). A \<open>dict\<close> with string keys is an association list in insertion
  order, each key once. \<open>json.loads\<close> and \<open>repr\<close> of a float are parameters of the
  definitions that use them.

  The main result is \<open>dumps_inj\<close>: the canonical text determines the value up to the
  order of object members.
\<close>

section \<open>Floats\<close>

datatype pyfloat = NaN | PosInf | NegInf | Fin rat

text \<open>The comparison \<open>x < y\<close>: false as soon as one side is not a number.\<close>

fun f_lt :: "pyfloat \<Rightarrow> pyfloat \<Rightarrow> bool" where
  "f_lt NaN _ = False"
| "f_lt _ NaN = False"
| "f_lt (Fin a) (Fin b) = (a < b)"
| "f_lt (Fin _) PosInf = True"
| "f_lt (Fin _) NegInf = False"
| "f_lt NegInf NegInf = False"
| "f_lt NegInf _ = True"
| "f_lt PosInf _ = False"

fun f_neg :: "pyfloat \<Rightarrow> pyfloat" where
  "f_neg NaN = NaN"
| "f_neg PosInf = NegInf"
| "f_neg NegInf = PosInf"
| "f_neg (Fin a) = Fin (- a)"

text \<open>\<open>x == y\<close> on floats: a NaN differs from everything.\<close>

definition f_eq :: "pyfloat \<Rightarrow> pyfloat \<Rightarrow> bool" where
  "f_eq x y \<longleftrightarrow> x \<noteq> NaN \<and> x = y"

text \<open>
  Rounding a sum to the nearest double, ties to even. \<open>double_ulp\<close> is the spacing of
  the doubles around a number of the interval from 1/16 to 2, the only sums the sources form.
\<close>

definition round_half_even :: "rat \<Rightarrow> int" where
  "round_half_even q = (let f = \<lfloor>q\<rfloor>; d = q - of_int f in
     if d < 1/2 then f else if 1/2 < d then f + 1 else if even f then f else f + 1)"

definition double_ulp :: "rat \<Rightarrow> rat" where
  "double_ulp q =
     (if q < 1/8 then 1 / 2^56 else if q < 1/4 then 1 / 2^55
      else if q < 1/2 then 1 / 2^54 else if q < 1 then 1 / 2^53 else 1 / 2^52)"

definition round_double :: "rat \<Rightarrow> rat" where
  "round_double q = of_int (round_half_even (q / double_ulp q)) * double_ulp q"

lemma round_half_even_mono: "q \<le> r \<Longrightarrow> round_half_even q \<le> round_half_even r"
proof -
  assume le: "q \<le> r"
  then have f: "\<lfloor>q\<rfloor> \<le> \<lfloor>r\<rfloor>" by (rule floor_mono)
  show ?thesis
  proof (cases "\<lfloor>q\<rfloor> = \<lfloor>r\<rfloor>")
    case True
    with le show ?thesis by (auto simp: round_half_even_def Let_def)
  next
    case False
    with f have "\<lfloor>q\<rfloor> + 1 \<le> \<lfloor>r\<rfloor>" by simp
    then show ?thesis by (auto simp: round_half_even_def Let_def)
  qed
qed

section \<open>JSON values\<close>

datatype json =
    JNull
  | JBool bool
  | JInt int
  | JFloat pyfloat
  | JStr string
  | JArr "json list"
  | JObj "(string \<times> json) list"

type_synonym pydict = "(string \<times> json) list"

text \<open>\<open>d.get(k)\<close>, with \<open>None\<close> for a missing key as the sources use it.\<close>

definition dict_get :: "pydict \<Rightarrow> string \<Rightarrow> json" where
  "dict_get d k = (case map_of d k of None \<Rightarrow> JNull | Some v \<Rightarrow> v)"

text \<open>\<open>d[k] = v\<close> keeps the position of an existing key and appends a new one.\<close>

fun dict_set :: "pydict \<Rightarrow> string \<Rightarrow> json \<Rightarrow> pydict" where
  "dict_set [] k v = [(k, v)]"
| "dict_set ((k', v') # d) k v = (if k' = k then (k, v) # d else (k', v') # dict_set d k v)"

definition dict_has :: "pydict \<Rightarrow> string \<Rightarrow> bool" where
  "dict_has d k \<longleftrightarrow> k \<in> set (map fst d)"

text \<open>\<open>bool(v)\<close>.\<close>

fun truthy :: "json \<Rightarrow> bool" where
  "truthy JNull = False"
| "truthy (JBool b) = b"
| "truthy (JInt i) = (i \<noteq> 0)"
| "truthy (JFloat f) = (f \<noteq> Fin 0)"
| "truthy (JStr s) = (s \<noteq> [])"
| "truthy (JArr xs) = (xs \<noteq> [])"
| "truthy (JObj d) = (d \<noteq> [])"

text \<open>A value as \<open>json.loads\<close> builds it: every object has each key once.\<close>

fun json_wf :: "json \<Rightarrow> bool" where
  "json_wf (JArr xs) = (\<forall>x\<in>set xs. json_wf x)"
| "json_wf (JObj d) = (distinct (map fst d) \<and> (\<forall>x\<in>set d. json_wf (snd x)))"
| "json_wf _ = True"

lemma map_of_dict_set: "map_of (dict_set d k v) = (map_of d)(k \<mapsto> v)"
  by (induction d k v rule: dict_set.induct) (auto simp: fun_eq_iff)

lemma dict_get_set: "dict_get (dict_set d k v) k' = (if k' = k then v else dict_get d k')"
  by (simp add: dict_get_def map_of_dict_set)

lemma dict_get_Cons [simp]:
  "dict_get ((k, v) # d) k' = (if k' = k then v else dict_get d k')"
  "dict_get [] k' = JNull"
  by (simp_all add: dict_get_def)

lemma fst_dict_set: "fst ` set (dict_set d k v) = insert k (fst ` set d)"
  by (induction d k v rule: dict_set.induct) auto

lemma distinct_dict_set: "distinct (map fst d) \<Longrightarrow> distinct (map fst (dict_set d k v))"
  by (induction d k v rule: dict_set.induct) (auto simp: fst_dict_set)

lemma snd_dict_set: "x \<in> set (dict_set d k v) \<Longrightarrow> x = (k, v) \<or> x \<in> set d"
  by (induction d k v rule: dict_set.induct) (auto split: if_splits)

lemma dict_get_in: "dict_get d k \<noteq> JNull \<Longrightarrow> (k, dict_get d k) \<in> set d"
  by (auto simp: dict_get_def dest: map_of_SomeD split: option.splits)

lemma dict_get_distinct: "distinct (map fst d) \<Longrightarrow> (k, v) \<in> set d \<Longrightarrow> dict_get d k = v"
  by (simp add: dict_get_def)

section \<open>Canonical text\<close>

definition hex_digit :: "nat \<Rightarrow> char" where
  "hex_digit n = char_of (if n < 10 then 48 + n else 87 + n)"

text \<open>One character of a string, as the encoder writes it without \<open>ensure_ascii\<close>.\<close>

definition esc_char :: "char \<Rightarrow> string" where
  "esc_char c = (let n = ord_of c in
     if n = 92 then [CHR 0x5C, CHR 0x5C]
     else if n = 34 then [CHR 0x5C, CHR 0x22]
     else if n = 8 then [CHR 0x5C, CHR ''b'']
     else if n = 9 then [CHR 0x5C, CHR ''t'']
     else if n = 10 then [CHR 0x5C, CHR ''n'']
     else if n = 12 then [CHR 0x5C, CHR ''f'']
     else if n = 13 then [CHR 0x5C, CHR ''r'']
     else if n < 32 then [CHR 0x5C, CHR ''u'', CHR ''0'', CHR ''0'', hex_digit (n div 16), hex_digit (n mod 16)]
     else [c])"

definition quote_str :: "string \<Rightarrow> string" where
  "quote_str s = CHR 0x22 # concat (map esc_char s) @ [CHR 0x22]"

text \<open>\<open>fr\<close> is \<open>float.__repr__\<close> with the JSON names of the special values.\<close>

fun dumps :: "(pyfloat \<Rightarrow> string) \<Rightarrow> json \<Rightarrow> string" where
  "dumps fr JNull = ''null''"
| "dumps fr (JBool b) = (if b then ''true'' else ''false'')"
| "dumps fr (JInt i) = str_of_int i"
| "dumps fr (JFloat f) = fr f"
| "dumps fr (JStr s) = quote_str s"
| "dumps fr (JArr xs) = ''['' @ join_str '','' (map (dumps fr) xs) @ '']''"
| "dumps fr (JObj d) =
     (let items = sort_key fst (map (\<lambda>kv. (fst kv, dumps fr (snd kv))) d)
      in ''{'' @ join_str '','' (map (\<lambda>(k, t). quote_str k @ '':'' @ t) items) @ ''}'')"

text \<open>The default \<open>ensure_ascii=True\<close> escapes what lies outside the printable ASCII range.\<close>

definition dumps_ascii :: "(pyfloat \<Rightarrow> string) \<Rightarrow> json \<Rightarrow> string" where
  "dumps_ascii fr j = concat (map (\<lambda>c. let n = ord_of c in
     if n < 127 then [c]
     else [CHR 0x5C, CHR ''u'', CHR ''0'', CHR ''0'', hex_digit (n div 16), hex_digit (n mod 16)]) (dumps fr j))"

text \<open>\<open>json.dumps(v, ensure_ascii=False, sort_keys=True)\<close> with the default separators.\<close>

fun dumps_spaced :: "(pyfloat \<Rightarrow> string) \<Rightarrow> json \<Rightarrow> string" where
  "dumps_spaced fr JNull = ''null''"
| "dumps_spaced fr (JBool b) = (if b then ''true'' else ''false'')"
| "dumps_spaced fr (JInt i) = str_of_int i"
| "dumps_spaced fr (JFloat f) = fr f"
| "dumps_spaced fr (JStr s) = quote_str s"
| "dumps_spaced fr (JArr xs) = ''['' @ join_str '', '' (map (dumps_spaced fr) xs) @ '']''"
| "dumps_spaced fr (JObj d) =
     (let items = sort_key fst (map (\<lambda>kv. (fst kv, dumps_spaced fr (snd kv))) d)
      in ''{'' @ join_str '', '' (map (\<lambda>(k, t). quote_str k @ '': '' @ t) items) @ ''}'')"

section \<open>The canonical text determines the value\<close>

text \<open>Objects with their members in the order of the keys, at every level.\<close>

fun json_canon :: "json \<Rightarrow> bool" where
  "json_canon (JArr xs) = (\<forall>x\<in>set xs. json_canon x)"
| "json_canon (JObj d) = (sorted_wrt (<) (map fst d) \<and> (\<forall>x\<in>set d. json_canon (snd x)))"
| "json_canon _ = True"

fun json_floats :: "json \<Rightarrow> pyfloat set" where
  "json_floats (JFloat f) = {f}"
| "json_floats (JArr xs) = (\<Union>x\<in>set xs. json_floats x)"
| "json_floats (JObj d) = (\<Union>x\<in>set d. json_floats (snd x))"
| "json_floats _ = {}"

text \<open>Characters of the atoms: everything but the punctuation of JSON.\<close>

definition atom_char :: "char \<Rightarrow> bool" where
  "atom_char c \<longleftrightarrow> c \<notin> {CHR '','', CHR '':'', CHR 0x22, CHR ''['', CHR '']'', CHR ''{'', CHR ''}''}"

text \<open>
  What the encoder needs of \<open>float.__repr__\<close> on the floats \<open>D\<close>: distinct floats have
  distinct texts, and no text is that of another kind of value.
\<close>

definition float_repr_ok :: "pyfloat set \<Rightarrow> (pyfloat \<Rightarrow> string) \<Rightarrow> bool" where
  "float_repr_ok D fr \<longleftrightarrow> inj_on fr D \<and>
     (\<forall>f\<in>D. fr f \<noteq> [] \<and> (\<forall>c\<in>set (fr f). atom_char c) \<and>
            fr f \<notin> {''null'', ''true'', ''false''} \<and> (\<forall>i. fr f \<noteq> str_of_int i))"

definition delim :: "string \<Rightarrow> bool" where
  "delim r \<longleftrightarrow> r = [] \<or> \<not> atom_char (hd r)"

lemma delim_simps [simp]:
  "delim []" "delim (CHR '','' # r)" "delim (CHR '']'' # r)" "delim (CHR ''}'' # r)"
  by (simp_all add: delim_def atom_char_def)

lemma munch:
  assumes "\<forall>c\<in>set a. P c" "\<forall>c\<in>set b. P c" "r = [] \<or> \<not> P (hd r)" "s = [] \<or> \<not> P (hd s)"
    and "a @ r = b @ s"
  shows "a = b \<and> r = s"
proof -
  have tw: "takeWhile P (x @ t) = x" if "\<forall>c\<in>set x. P c" "t = [] \<or> \<not> P (hd t)" for x t
    using that by (induction x) (auto simp: takeWhile_eq_Nil_iff)
  have "a = b" using tw [OF assms(1,3)] tw [OF assms(2,4)] assms(5) by simp
  with assms(5) show ?thesis by simp
qed

subsection \<open>Integers\<close>

definition is_digit :: "char \<Rightarrow> bool" where
  "is_digit c \<longleftrightarrow> 48 \<le> ord_of c \<and> ord_of c \<le> 57"

lemma ord_of_char_of_digit: "d < 10 \<Longrightarrow> ord_of (char_of (48 + d) :: char) = 48 + d"
  by (simp add: of_char_of)

lemma digits_of_digits: "c \<in> set (digits_of n) \<Longrightarrow> is_digit c"
proof (induction n rule: digits_of.induct)
  case (1 n)
  have "n mod 10 < 10" by simp
  with 1 show ?case
    by (cases "n < 10")
      (auto simp: digits_of.simps [of n] is_digit_def ord_of_char_of_digit)
qed

lemma digits_of_not_Nil [simp]: "digits_of n \<noteq> []"
  by (subst digits_of.simps) simp

fun val_of :: "string \<Rightarrow> nat" where
  "val_of s = foldl (\<lambda>a c. 10 * a + (ord_of c - 48)) 0 s"

lemma val_digits: "val_of (digits_of n) = n"
proof (induction n rule: digits_of.induct)
  case (1 n)
  have d: "n mod 10 < 10" by simp
  show ?case
  proof (cases "n < 10")
    case True
    then show ?thesis by (simp add: digits_of.simps [of n] ord_of_char_of_digit)
  next
    case False
    with 1 show ?thesis
      by (simp add: digits_of.simps [of n] ord_of_char_of_digit [OF d])
  qed
qed

lemma digits_of_inj: "digits_of m = digits_of n \<Longrightarrow> m = n"
  by (metis val_digits)

lemma hd_digits_not_minus: "digits_of n \<noteq> CHR ''-'' # s"
proof
  assume "digits_of n = CHR ''-'' # s"
  then have "is_digit (CHR ''-'')" using digits_of_digits [of "CHR ''-''" n] by simp
  then show False by (simp add: is_digit_def)
qed

lemma str_of_int_inj: "str_of_int i = str_of_int j \<Longrightarrow> i = j"
  using hd_digits_not_minus hd_digits_not_minus [symmetric]
  by (auto simp: str_of_int_def split: if_splits dest!: digits_of_inj)

lemma digit_char_cases: "is_digit c \<Longrightarrow> c \<in> set ''0123456789''"
proof -
  assume "is_digit c"
  then have "ord_of c \<in> {48, 49, 50, 51, 52, 53, 54, 55, 56, 57}"
    unfolding is_digit_def by (simp, presburger)
  then have "char_of (ord_of c) \<in> (char_of :: nat \<Rightarrow> char) ` {48, 49, 50, 51, 52, 53, 54, 55, 56, 57}"
    by (rule imageI)
  moreover have "(char_of :: nat \<Rightarrow> char) ` {48, 49, 50, 51, 52, 53, 54, 55, 56, 57} = set ''0123456789''"
    by code_simp
  ultimately show ?thesis by (simp only: char_of_char)
qed

lemma str_of_int_chars: "c \<in> set (str_of_int i) \<Longrightarrow> c \<in> set ''-0123456789''"
  by (auto simp: str_of_int_def split: if_splits dest!: digits_of_digits digit_char_cases)

lemma str_of_int_not_Nil [simp]: "str_of_int i \<noteq> []"
  by (simp add: str_of_int_def)

lemma str_of_int_not_word:
  "c \<notin> set ''-0123456789'' \<Longrightarrow> str_of_int i \<noteq> c # s"
  using str_of_int_chars [of c i] by auto

subsection \<open>Strings\<close>

text \<open>Reading one encoded character back.\<close>

definition unhex :: "char \<Rightarrow> nat" where
  "unhex c = (if ord_of c < 58 then ord_of c - 48 else ord_of c - 87)"

fun unesc :: "string \<Rightarrow> char \<times> string" where
  "unesc [] = (CHR 0x00, [])"
| "unesc (c # r) =
     (if ord_of c \<noteq> 92 then (c, r)
      else case r of [] \<Rightarrow> (c, r)
        | d # t \<Rightarrow>
           if d = CHR ''b'' then (char_of (8 :: nat), t) else if d = CHR ''t'' then (char_of (9 :: nat), t)
           else if d = CHR ''n'' then (char_of (10 :: nat), t) else if d = CHR ''f'' then (char_of (12 :: nat), t)
           else if d = CHR ''r'' then (char_of (13 :: nat), t)
           else if d = CHR ''u'' then
             (case t of _ # _ # h # l # w \<Rightarrow> (char_of (16 * unhex h + unhex l), w) | _ \<Rightarrow> (d, t))
           else (d, t))"

lemma unhex_hex: "n < 16 \<Longrightarrow> unhex (hex_digit n) = n"
  by (simp add: unhex_def hex_digit_def of_char_of)

lemma char_of_ord: "ord_of c = n \<Longrightarrow> c = char_of n"
  by (metis char_of_char)

lemma char_of_escapes:
  "char_of (92 :: nat) = CHR 0x5C" "char_of (34 :: nat) = CHR 0x22"
  by code_simp+

lemma unesc_esc: "unesc (esc_char c @ r) = (c, r)"
proof -
  have hex: "16 * unhex (hex_digit (n div 16)) + unhex (hex_digit (n mod 16)) = n" if "n < 32" for n
    using that by (simp add: unhex_hex)
  show ?thesis
  proof (cases "ord_of c \<in> {92, 34, 8, 9, 10, 12, 13}")
    case True
    then show ?thesis
      by (auto simp: esc_char_def Let_def char_of_escapes dest!: char_of_ord)
  next
    case False
    then show ?thesis
      using hex [of "ord_of c"] by (auto simp: esc_char_def Let_def)
  qed
qed

lemma esc_char_inj: "esc_char c @ r = esc_char d @ s \<Longrightarrow> c = d \<and> r = s"
  by (metis prod.inject unesc_esc)

lemma esc_char_not_quote: "esc_char c @ s \<noteq> CHR 0x22 # r"
proof
  assume "esc_char c @ s = CHR 0x22 # r"
  moreover from this have "ord_of c \<noteq> 34" by (auto simp: esc_char_def)
  ultimately show False by (auto simp: esc_char_def Let_def split: if_splits)
qed

lemma esc_str_inj:
  "concat (map esc_char s) @ CHR 0x22 # r = concat (map esc_char t) @ CHR 0x22 # u
   \<Longrightarrow> s = t \<and> r = u"
proof (induction s arbitrary: t)
  case Nil
  then show ?case using esc_char_not_quote [symmetric] by (cases t) auto
next
  case (Cons c s)
  then obtain d t' where t: "t = d # t'"
    using esc_char_not_quote by (cases t) auto
  with Cons.prems have "esc_char c @ (concat (map esc_char s) @ CHR 0x22 # r)
    = esc_char d @ (concat (map esc_char t') @ CHR 0x22 # u)" by simp
  from esc_char_inj [OF this] Cons.IH t show ?case by simp
qed

lemma quote_str_inj: "quote_str s @ r = quote_str t @ u \<Longrightarrow> s = t \<and> r = u"
  using esc_str_inj [of s r t u] by (simp add: quote_str_def)

lemma quote_str_Cons: "\<exists>w. quote_str s = CHR 0x22 # w"
  by (simp add: quote_str_def)

subsection \<open>Sequences\<close>

lemma join_str_Cons: "join_str sep (x # xs) = x @ concat (map (\<lambda>y. sep @ y) xs)"
  by (induction xs arbitrary: x) auto

lemma seq_tail_inj:
  assumes "\<And>x y r s. x \<in> set xs \<Longrightarrow> y \<in> set ys \<Longrightarrow> delim r \<Longrightarrow> delim s \<Longrightarrow> f x @ r = f y @ s \<Longrightarrow> x = y \<and> r = s"
    and c: "c \<in> {CHR '']'', CHR ''}''}"
    and "concat (map (\<lambda>x. '','' @ f x) xs) @ c # r = concat (map (\<lambda>x. '','' @ f x) ys) @ c # s"
  shows "xs = ys \<and> r = s"
  using assms(1,3)
proof (induction xs arbitrary: ys)
  case Nil
  then show ?case using c by (cases ys) auto
next
  case (Cons x xs)
  then obtain y ys' where ys: "ys = y # ys'" using c by (cases ys) auto
  let ?t = "\<lambda>zs w. concat (map (\<lambda>x. '','' @ f x) zs) @ c # w"
  have d: "delim (?t zs w)" for zs w using c by (cases zs) auto
  have "f x @ ?t xs r = f y @ ?t ys' s" using Cons.prems(2) ys by simp
  from Cons.prems(1) [OF _ _ d d this] have "x = y \<and> ?t xs r = ?t ys' s" using ys by simp
  moreover from this have "xs = ys' \<and> r = s"
    by (intro Cons.IH) (use Cons.prems(1) ys in auto)
  ultimately show ?case using ys by simp
qed

lemma seq_inj:
  assumes "\<And>x y r s. x \<in> set xs \<Longrightarrow> y \<in> set ys \<Longrightarrow> delim r \<Longrightarrow> delim s \<Longrightarrow> f x @ r = f y @ s \<Longrightarrow> x = y \<and> r = s"
    and c: "c \<in> {CHR '']'', CHR ''}''}" and hd: "\<And>x w v. x \<in> set xs \<union> set ys \<Longrightarrow> f x @ w \<noteq> c # v"
    and eq: "join_str '','' (map f xs) @ c # r = join_str '','' (map f ys) @ c # s"
  shows "xs = ys \<and> r = s"
proof (cases xs)
  case Nil
  with eq show ?thesis
    by (cases ys) (use hd [symmetric] in \<open>auto simp: join_str_Cons\<close>)
next
  case (Cons x xs')
  note xs = this
  with eq hd [of x] obtain y ys' where ys: "ys = y # ys'"
    by (cases ys) (auto simp: join_str_Cons)
  let ?t = "\<lambda>zs w. concat (map (\<lambda>x. '','' @ f x) zs) @ c # w"
  have d: "delim (?t zs w)" for zs w using c by (cases zs) auto
  have "f x @ ?t xs' r = f y @ ?t ys' s" using eq xs ys by (simp add: join_str_Cons comp_def)
  from assms(1) [OF _ _ d d this] have "x = y" and t: "?t xs' r = ?t ys' s" using xs ys by simp_all
  moreover have "xs' = ys' \<and> r = s"
    by (rule seq_tail_inj [OF _ c t]) (use assms(1) xs ys in auto)
  ultimately show ?thesis using xs ys by simp
qed

subsection \<open>Values\<close>

fun atomic :: "json \<Rightarrow> bool" where
  "atomic (JStr _) = False"
| "atomic (JArr _) = False"
| "atomic (JObj _) = False"
| "atomic _ = True"

lemma dumps_atomic:
  assumes "float_repr_ok D fr" "json_floats v \<subseteq> D" "atomic v"
  shows "dumps fr v \<noteq> []" and "\<forall>c\<in>set (dumps fr v). atom_char c"
proof -
  have "\<forall>c\<in>set ''-0123456789truefalsn''. atom_char c" by (simp add: atom_char_def)
  then have i: "atom_char c" if "c \<in> set (str_of_int i)" for c i
    using str_of_int_chars [OF that] by auto
  have w: "\<forall>c\<in>set ''null''. atom_char c" "\<forall>c\<in>set ''true''. atom_char c" "\<forall>c\<in>set ''false''. atom_char c"
    by (simp_all add: atom_char_def)
  show "dumps fr v \<noteq> []" using assms by (cases v) (simp_all add: float_repr_ok_def)
  show "\<forall>c\<in>set (dumps fr v). atom_char c"
  proof (cases v)
    case (JFloat f)
    with assms show ?thesis by (simp add: float_repr_ok_def)
  qed (use assms(3) i w in \<open>simp_all split: if_split\<close>)
qed

lemma dumps_compound:
  assumes "\<not> atomic v"
  obtains c w where "dumps fr v = c # w" "\<not> atom_char c"
  using assms by (cases v) (auto simp: quote_str_def Let_def atom_char_def)

lemma dumps_atomic_inj:
  assumes "float_repr_ok D fr" "json_floats u \<subseteq> D" "json_floats v \<subseteq> D" "atomic u" "atomic v"
    and "dumps fr u = dumps fr v"
  shows "u = v"
proof -
  have w: "str_of_int i \<noteq> ''null''" "str_of_int i \<noteq> ''true''" "str_of_int i \<noteq> ''false''" for i
    by (rule str_of_int_not_word, simp)+
  have f: "fr f \<noteq> ''null''" "fr f \<noteq> ''true''" "fr f \<noteq> ''false''" "fr f \<noteq> str_of_int i" if "f \<in> D" for f i
    using assms(1) that by (auto simp: float_repr_ok_def)
  have inj: "fr f = fr g \<Longrightarrow> f = g" if "f \<in> D" "g \<in> D" for f g
    using assms(1) that by (auto simp: float_repr_ok_def inj_on_def)
  note words = w w [symmetric] f f [symmetric]
  show ?thesis
    using assms(2-6)
    by (cases u; cases v) (simp_all add: words inj str_of_int_inj split: if_splits)
qed

lemma dumps_hd_not_close:
  assumes "float_repr_ok D fr" "json_floats v \<subseteq> D" "c \<in> {CHR '']'', CHR ''}''}"
  shows "dumps fr v @ w \<noteq> c # s"
proof (cases "atomic v")
  case True
  from dumps_atomic [OF assms(1,2) True] assms(3) show ?thesis
    by (cases "dumps fr v") (auto simp: atom_char_def)
next
  case False
  with assms(3) show ?thesis by (cases v) (auto simp: quote_str_def Let_def)
qed

lemma sort_key_sorted: "sorted_wrt (<) (map f xs) \<Longrightarrow> sort_key f xs = xs"
  by (induction xs) (auto intro!: insort_is_Cons less_imp_le)

lemma dumps_canon_obj:
  "sorted_wrt (<) (map fst d) \<Longrightarrow> dumps fr (JObj d) =
     ''{'' @ join_str '','' (map (\<lambda>kv. quote_str (fst kv) @ '':'' @ dumps fr (snd kv)) d) @ ''}''"
  by (simp add: sort_key_sorted comp_def case_prod_unfold)

text \<open>The statement proved by induction, for texts followed by a delimiter.\<close>

definition prefix_inj :: "pyfloat set \<Rightarrow> (pyfloat \<Rightarrow> string) \<Rightarrow> json \<Rightarrow> bool" where
  "prefix_inj D fr u \<longleftrightarrow> (\<forall>v r s. json_canon u \<longrightarrow> json_canon v \<longrightarrow> json_floats u \<subseteq> D \<longrightarrow>
     json_floats v \<subseteq> D \<longrightarrow> delim r \<longrightarrow> delim s \<longrightarrow> dumps fr u @ r = dumps fr v @ s \<longrightarrow> u = v \<and> r = s)"

lemma prefix_injD:
  "prefix_inj D fr u \<Longrightarrow> json_canon u \<Longrightarrow> json_canon v \<Longrightarrow> json_floats u \<subseteq> D \<Longrightarrow>
   json_floats v \<subseteq> D \<Longrightarrow> delim r \<Longrightarrow> delim s \<Longrightarrow> dumps fr u @ r = dumps fr v @ s \<Longrightarrow> u = v \<and> r = s"
  unfolding prefix_inj_def by blast

lemma dumps_not_atomic:
  assumes "float_repr_ok D fr" "\<not> atomic u" "json_floats v \<subseteq> D" "dumps fr u @ r = dumps fr v @ s"
  shows "\<not> atomic v"
proof
  assume "atomic v"
  from assms(2) obtain c w where "dumps fr u = c # w" "\<not> atom_char c" by (rule dumps_compound)
  with dumps_atomic [OF assms(1,3) \<open>atomic v\<close>] assms(4) show False
    by (cases "dumps fr v") auto
qed

lemma prefix_inj_atomic:
  assumes fr: "float_repr_ok D fr" and "atomic u"
  shows "prefix_inj D fr u"
  unfolding prefix_inj_def
proof (intro allI impI)
  fix v r s
  assume D: "json_floats u \<subseteq> D" "json_floats v \<subseteq> D" and rs: "delim r" "delim s"
    and eq: "dumps fr u @ r = dumps fr v @ s"
  have v: "atomic v"
    using dumps_not_atomic [OF fr _ D(1) eq [symmetric]] assms(2) by blast
  have "dumps fr u = dumps fr v \<and> r = s"
    using munch [where P = atom_char, OF dumps_atomic(2) dumps_atomic(2) _ _ eq] fr assms(2) D rs v
    by (auto simp: delim_def)
  then show "u = v \<and> r = s" using dumps_atomic_inj [OF fr D assms(2) v] by simp
qed

lemma prefix_inj_arr:
  assumes fr: "float_repr_ok D fr" and IH: "\<And>x. x \<in> set xs \<Longrightarrow> prefix_inj D fr x"
  shows "prefix_inj D fr (JArr xs)"
  unfolding prefix_inj_def
proof (intro allI impI)
  fix v r s
  assume c: "json_canon (JArr xs)" "json_canon v" "json_floats (JArr xs) \<subseteq> D" "json_floats v \<subseteq> D"
    and eq: "dumps fr (JArr xs) @ r = dumps fr v @ s"
  have "\<not> atomic v" using dumps_not_atomic [OF fr _ c(4) eq] by simp
  with eq obtain ys where v: "v = JArr ys" by (cases v) (auto simp: quote_str_def Let_def)
  have "xs = ys \<and> r = s"
  proof (rule seq_inj [where f = "dumps fr" and c = "CHR '']''"])
    show "join_str '','' (map (dumps fr) xs) @ CHR '']'' # r = join_str '','' (map (dumps fr) ys) @ CHR '']'' # s"
      using eq v by simp
    show "dumps fr x @ w \<noteq> CHR '']'' # t" if "x \<in> set xs \<union> set ys" for x w t
      using that c v by (intro dumps_hd_not_close [OF fr]) auto
    show "x = y \<and> r = s" if "x \<in> set xs" "y \<in> set ys" "delim r" "delim s" "dumps fr x @ r = dumps fr y @ s"
      for x y r s
      using that c v by (intro prefix_injD [OF IH]) auto
  qed simp
  with v show "JArr xs = v \<and> r = s" by simp
qed

lemma prefix_inj_obj:
  assumes fr: "float_repr_ok D fr" and IH: "\<And>x. x \<in> set d \<Longrightarrow> prefix_inj D fr (snd x)"
  shows "prefix_inj D fr (JObj d)"
  unfolding prefix_inj_def
proof (intro allI impI)
  fix v r s
  let ?f = "\<lambda>kv. quote_str (fst kv) @ '':'' @ dumps fr (snd kv)"
  assume c: "json_canon (JObj d)" "json_canon v" "json_floats (JObj d) \<subseteq> D" "json_floats v \<subseteq> D"
    and eq: "dumps fr (JObj d) @ r = dumps fr v @ s"
  have "\<not> atomic v" using dumps_not_atomic [OF fr _ c(4) eq] by simp
  with eq obtain e where v: "v = JObj e" by (cases v) (auto simp: quote_str_def Let_def)
  have "d = e \<and> r = s"
  proof (rule seq_inj [where f = ?f and c = "CHR ''}''"])
    show "join_str '','' (map ?f d) @ CHR ''}'' # r = join_str '','' (map ?f e) @ CHR ''}'' # s"
      using eq c v by (simp add: dumps_canon_obj del: dumps.simps(7))
    show "?f x @ w \<noteq> CHR ''}'' # t" for x w t by (simp add: quote_str_def)
    show "x = y \<and> r = s" if xy: "x \<in> set d" "y \<in> set e" and rs: "delim r" "delim s" and q: "?f x @ r = ?f y @ s"
      for x y r s
    proof -
      from q have "fst x = fst y" and tl: "dumps fr (snd x) @ r = dumps fr (snd y) @ s"
        using quote_str_inj [of "fst x" _ "fst y"] by fastforce+
      moreover have "snd x = snd y \<and> r = s"
        using xy rs tl c v by (intro prefix_injD [OF IH]) auto
      ultimately show ?thesis by (simp add: prod_eq_iff)
    qed
  qed simp
  with v show "JObj d = v \<and> r = s" by simp
qed

lemma prefix_inj_str:
  assumes fr: "float_repr_ok D fr"
  shows "prefix_inj D fr (JStr t)"
  unfolding prefix_inj_def
proof (intro allI impI)
  fix v r s
  assume "json_floats v \<subseteq> D" and eq: "dumps fr (JStr t) @ r = dumps fr v @ s"
  then have "\<not> atomic v" using dumps_not_atomic [OF fr _ _ eq] by simp
  with eq show "JStr t = v \<and> r = s"
    by (cases v) (auto simp: quote_str_def Let_def dest!: esc_str_inj)
qed

lemma prefix_inj_all: "float_repr_ok D fr \<Longrightarrow> prefix_inj D fr u"
proof (induction u)
  case (JObj d)
  then show ?case by (intro prefix_inj_obj) (auto intro: snds.intros)
qed (auto intro: prefix_inj_atomic prefix_inj_arr prefix_inj_str)

theorem dumps_inj:
  assumes "float_repr_ok D fr" "json_canon u" "json_canon v" "json_floats u \<subseteq> D" "json_floats v \<subseteq> D"
    and "dumps fr u = dumps fr v"
  shows "u = v"
  using prefix_injD [OF prefix_inj_all [OF assms(1)] assms(2-5), of "[]" "[]"] assms(6) by simp

end
