(* ===== verification/Models.thy ===== *)
theory Models
  imports PyJson
begin

text \<open>
  The data classes of \<open>capability_gateway/models.py\<close>: the risk categories with their
  order, tool descriptors, the judged semantics of a tool, risk assessments, ranked tools,
  approval requests and resolutions. Field names carry a two-letter prefix, because several
  of the classes share names.
\<close>

section \<open>Risk categories\<close>

datatype risk_category = SAFE | LOW | MEDIUM | HIGH | CRITICAL

fun category_value :: "risk_category \<Rightarrow> int" where
  "category_value SAFE = 0"
| "category_value LOW = 1"
| "category_value MEDIUM = 2"
| "category_value HIGH = 3"
| "category_value CRITICAL = 4"

fun category_name :: "risk_category \<Rightarrow> string" where
  "category_name SAFE = ''SAFE''"
| "category_name LOW = ''LOW''"
| "category_name MEDIUM = ''MEDIUM''"
| "category_name HIGH = ''HIGH''"
| "category_name CRITICAL = ''CRITICAL''"

lemma category_value_inj [simp]: "category_value a = category_value b \<longleftrightarrow> a = b"
  by (cases a; cases b) simp_all

instantiation risk_category :: linorder
begin

definition less_eq_risk_category :: "risk_category \<Rightarrow> risk_category \<Rightarrow> bool" where
  "less_eq_risk_category a b \<longleftrightarrow> category_value a \<le> category_value b"

definition less_risk_category :: "risk_category \<Rightarrow> risk_category \<Rightarrow> bool" where
  "less_risk_category a b \<longleftrightarrow> category_value a < category_value b"

instance
  by standard (auto simp: less_eq_risk_category_def less_risk_category_def)

end

lemmas category_order [simp] = less_eq_risk_category_def less_risk_category_def

definition all_categories :: "risk_category list" where
  "all_categories = [SAFE, LOW, MEDIUM, HIGH, CRITICAL]"

text \<open>\<open>RiskCategory(n)\<close> on a stored integer.\<close>

definition category_of_value :: "int \<Rightarrow> risk_category result" where
  "category_of_value n = (case find (\<lambda>c. category_value c = n) all_categories of
     Some c \<Rightarrow> Inr c
   | None \<Rightarrow> Inl (ValueError (str_of_int n @ '' is not a valid RiskCategory'')))"

text \<open>\<open>RiskCategory.parse\<close>.\<close>

definition parse_category :: "string \<Rightarrow> risk_category result" where
  "parse_category value =
     (case find (\<lambda>c. category_name c = py_upper (py_strip value)) all_categories of
        Some c \<Rightarrow> Inr c
      | None \<Rightarrow> Inl (ValueError (''unsupported risk category: '' @ value)))"

lemma category_of_value [simp]: "category_of_value (category_value c) = Inr c"
  by (cases c) (simp_all add: category_of_value_def all_categories_def)

lemma parse_category_words:
  "parse_category ''SAFE'' = Inr SAFE" "parse_category ''LOW'' = Inr LOW"
  "parse_category ''MEDIUM'' = Inr MEDIUM" "parse_category ''HIGH'' = Inr HIGH"
  "parse_category ''CRITICAL'' = Inr CRITICAL"
  by code_simp+

lemma parse_category_name: "parse_category (category_name c) = Inr c"
  by (cases c) (simp_all only: category_name.simps parse_category_words)

lemma category_bounds: "0 \<le> category_value c" "category_value c \<le> 4"
  by (cases c; simp)+

section \<open>Tools\<close>

record tool_descriptor =
  td_server_id :: string
  td_tool_name :: string
  td_description :: string
  td_input_schema :: pydict
  td_annotations :: pydict
  td_source :: string
  td_version :: "string option"

definition tool_id :: "tool_descriptor \<Rightarrow> string" where
  "tool_id t = td_server_id t @ '':'' @ td_tool_name t"

record tool_semantics =
  ts_canonical_capability :: string
  ts_read :: bool
  ts_write :: bool
  ts_destructive :: bool
  ts_egress :: bool
  ts_credential_access :: bool
  ts_arbitrary_execution :: bool
  ts_open_world :: bool
  ts_rationale :: string
  ts_confidence :: pyfloat

record risk_assessment =
  ra_tool_id :: string
  ra_canonical_capability :: string
  ra_score :: int
  ra_category :: risk_category
  ra_properties :: tool_semantics
  ra_reasons :: "string list"
  ra_judge_confidence :: pyfloat

record ranked_tool =
  rt_tool :: tool_descriptor
  rt_assessment :: risk_assessment
  rt_intent_fit :: pyfloat
  rt_dominated :: bool
  rt_dominance_reason :: "string option"

record approval_request =
  ar_request_id :: string
  ar_intent :: string
  ar_requested_tool_id :: string
  ar_requested_category :: risk_category
  ar_allowed_category :: risk_category
  ar_recommended_tool_id :: "string option"
  ar_reason :: string

record resolution =
  rs_intent :: string
  rs_selected :: "ranked_tool option"
  rs_visible_tools :: "ranked_tool list"
  rs_filtered_tools :: "ranked_tool list"
  rs_approval_required :: "approval_request option"
  rs_emergency_stop :: bool

abbreviation rt_id :: "ranked_tool \<Rightarrow> string" where
  "rt_id r \<equiv> tool_id (rt_tool r)"

end
