(* ===== verification/Core.thy ===== *)
theory Core
  imports Models "HOL-Library.Multiset"
begin

text \<open>
  \<open>capability_gateway/core.py\<close>: the deterministic risk score of a tool, the dominance
  relation between candidates, and the resolution of an intent to the tools that may be shown
  and the one that is selected. The hash in a request id is the parameter \<open>sha\<close>.
\<close>

section \<open>Risk scores\<close>

definition risk_weights :: "(string \<times> (tool_semantics \<Rightarrow> bool) \<times> int) list" where
  "risk_weights =
     [(''read'', ts_read, 5), (''write'', ts_write, 22), (''destructive'', ts_destructive, 35),
      (''egress'', ts_egress, 24), (''credential_access'', ts_credential_access, 32),
      (''arbitrary_execution'', ts_arbitrary_execution, 45), (''open_world'', ts_open_world, 18)]"

definition category_floors :: "(risk_category \<times> int) list" where
  "category_floors = [(CRITICAL, 80), (HIGH, 60), (MEDIUM, 35), (LOW, 15), (SAFE, 0)]"

definition category_for_score :: "int \<Rightarrow> risk_category" where
  "category_for_score score0 = (let score = max 0 (min 100 score0) in
     case find (\<lambda>(category, floor). floor \<le> score) category_floors of
       Some (category, _) \<Rightarrow> category
     | None \<Rightarrow> SAFE)"

text \<open>The loop over \<open>RISK_WEIGHTS\<close>, with the score and the reasons so far.\<close>

fun add_weights :: "(string \<times> (tool_semantics \<Rightarrow> bool) \<times> int) list \<Rightarrow> tool_semantics
    \<Rightarrow> int \<Rightarrow> string list \<Rightarrow> int \<times> string list" where
  "add_weights [] s score reasons = (score, reasons)"
| "add_weights ((name, flag, weight) # ws) s score reasons =
     (if flag s then add_weights ws s (score + weight) (reasons @ [name @ '':+'' @ str_of_int weight])
      else add_weights ws s score reasons)"

definition assess_risk :: "tool_descriptor \<Rightarrow> tool_semantics \<Rightarrow> risk_assessment" where
  "assess_risk t s =
    (let (score1, reasons1) = add_weights risk_weights s 0 [];
         hint = dict_get (td_annotations t) ''destructiveHint'' = JBool True \<and> \<not> ts_destructive s;
         score2 = (if hint then score1 + 20 else score1);
         reasons2 = (if hint then reasons1 @ [''mcp_destructive_hint:+20''] else reasons1);
         notro = dict_get (td_annotations t) ''readOnlyHint'' = JBool False \<and> \<not> ts_write s;
         score3 = (if notro then score2 + 8 else score2);
         reasons3 = (if notro then reasons2 @ [''mcp_not_readonly_hint:+8''] else reasons2);
         score = min score3 100
     in \<lparr>ra_tool_id = tool_id t, ra_canonical_capability = ts_canonical_capability s,
         ra_score = score, ra_category = category_for_score score, ra_properties = s,
         ra_reasons = reasons3, ra_judge_confidence = ts_confidence s\<rparr>)"

section \<open>Dominance\<close>

definition privilege_vector :: "tool_semantics \<Rightarrow> int list" where
  "privilege_vector s = map of_bool
     [ts_arbitrary_execution s, ts_destructive s, ts_credential_access s, ts_egress s,
      ts_write s, ts_open_world s, ts_read s]"

text \<open>The default tolerance 0.08 as the double it denotes, and the sum it enters.\<close>

definition fit_tolerance :: rat where
  "fit_tolerance = 5764607523034235 / 2 ^ 56"

fun add_tolerance :: "pyfloat \<Rightarrow> pyfloat" where
  "add_tolerance (Fin a) = Fin (round_double (a + fit_tolerance))"
| "add_tolerance f = f"

definition dominates :: "ranked_tool \<Rightarrow> ranked_tool \<Rightarrow> bool" where
  "dominates safer other =
    (if f_lt (add_tolerance (rt_intent_fit safer)) (rt_intent_fit other) then False
     else if ra_score (rt_assessment other) \<le> ra_score (rt_assessment safer) then False
     else list_all (\<lambda>(x, y). x \<le> y)
            (zip (privilege_vector (ra_properties (rt_assessment safer)))
                 (privilege_vector (ra_properties (rt_assessment other)))))"

definition mark_one :: "ranked_tool list \<Rightarrow> ranked_tool \<Rightarrow> ranked_tool" where
  "mark_one candidates candidate =
    (let dominator = find (\<lambda>other. rt_id other \<noteq> rt_id candidate \<and> dominates other candidate) candidates
     in candidate\<lparr>rt_dominated := (dominator \<noteq> None),
                  rt_dominance_reason :=
                    (case dominator of
                       Some d \<Rightarrow> Some (rt_id d @ '' satisfies the intent with lower privilege/risk'')
                     | None \<Rightarrow> None)\<rparr>)"

definition mark_dominated :: "ranked_tool list \<Rightarrow> ranked_tool list" where
  "mark_dominated candidates = map (mark_one candidates) candidates"

section \<open>Resolution\<close>

definition request_id :: "(string \<Rightarrow> string) \<Rightarrow> string \<Rightarrow> string \<Rightarrow> string" where
  "request_id sha intent tid = take 24 (sha (intent @ [CHR 0x00] @ tid))"

definition effective_category :: "(string \<rightharpoonup> risk_category) \<Rightarrow> ranked_tool \<Rightarrow> risk_category" where
  "effective_category overrides r =
    (case overrides (ra_canonical_capability (rt_assessment r)) of
       Some c \<Rightarrow> c | None \<Rightarrow> ra_category (rt_assessment r))"

text \<open>The condition under which the loop keeps a candidate.\<close>

definition is_eligible :: "risk_category \<Rightarrow> string option \<Rightarrow> string set \<Rightarrow> string set
    \<Rightarrow> (string \<rightharpoonup> risk_category) \<Rightarrow> ranked_tool \<Rightarrow> bool" where
  "is_eligible max_auto requested allowed_once exceptions overrides r =
    (let exempt = rt_id r \<in> exceptions;
         one_shot = rt_id r \<in> allowed_once;
         explicit = Some (rt_id r) = requested \<and> (exempt \<or> one_shot);
         permitted = effective_category overrides r \<le> max_auto
     in (\<not> rt_dominated r \<and> (permitted \<or> exempt)) \<or> explicit)"

text \<open>The order of the sort key \<open>(-intent_fit, score, tool_id)\<close>, as Python compares tuples.\<close>

definition rank_lt :: "ranked_tool \<Rightarrow> ranked_tool \<Rightarrow> bool" where
  "rank_lt a b =
    (if \<not> f_eq (f_neg (rt_intent_fit a)) (f_neg (rt_intent_fit b))
     then f_lt (f_neg (rt_intent_fit a)) (f_neg (rt_intent_fit b))
     else if ra_score (rt_assessment a) \<noteq> ra_score (rt_assessment b)
     then ra_score (rt_assessment a) < ra_score (rt_assessment b)
     else rt_id a < rt_id b)"

definition resolve :: "(string \<Rightarrow> string) \<Rightarrow> string \<Rightarrow> ranked_tool list \<Rightarrow> risk_category
    \<Rightarrow> string option \<Rightarrow> string set \<Rightarrow> string set \<Rightarrow> (string \<rightharpoonup> risk_category) \<Rightarrow> bool \<Rightarrow> resolution" where
  "resolve sha intent candidates max_auto requested_tool_id allowed_once exceptions overrides stop =
    (if stop then
       \<lparr>rs_intent = intent, rs_selected = None, rs_visible_tools = [], rs_filtered_tools = candidates,
        rs_approval_required = None, rs_emergency_stop = True\<rparr>
     else
       (let marked = mark_dominated candidates;
            keep = is_eligible max_auto requested_tool_id allowed_once exceptions overrides;
            eligible = sort_by rank_lt (filter keep marked);
            filtered = filter (\<lambda>r. \<not> keep r) marked;
            best = (case eligible of [] \<Rightarrow> None | r # _ \<Rightarrow> Some r);
            requested = find (\<lambda>r. Some (rt_id r) = requested_tool_id) marked;
            (selected, approval) =
              (case requested of
                 None \<Rightarrow> (best, None)
               | Some q \<Rightarrow>
                   (let effective = effective_category overrides q;
                        over_limit = max_auto < effective;
                        already_allowed = rt_id q \<in> allowed_once \<or> rt_id q \<in> exceptions
                    in if over_limit \<and> \<not> already_allowed then
                         (None,
                          Some \<lparr>ar_request_id = request_id sha intent (rt_id q), ar_intent = intent,
                                ar_requested_tool_id = rt_id q, ar_requested_category = effective,
                                ar_allowed_category = max_auto,
                                ar_recommended_tool_id = map_option rt_id best,
                                ar_reason = ''requested tool exceeds configured risk ceiling; explicit human authority is required''\<rparr>)
                       else if already_allowed then (Some q, None)
                       else (best, None)))
        in \<lparr>rs_intent = intent, rs_selected = selected, rs_visible_tools = eligible,
            rs_filtered_tools = filtered, rs_approval_required = approval, rs_emergency_stop = False\<rparr>))"

section \<open>The risk score\<close>

lemma category_for_score_eq:
  "category_for_score n =
     (if 80 \<le> n then CRITICAL else if 60 \<le> n then HIGH else if 35 \<le> n then MEDIUM
      else if 15 \<le> n then LOW else SAFE)"
  by (auto simp: category_for_score_def category_floors_def Let_def max_def min_def)

lemma category_for_score_mono: "m \<le> n \<Longrightarrow> category_for_score m \<le> category_for_score n"
  by (simp add: category_for_score_eq)

lemma add_weights_fst:
  "fst (add_weights ws s sc rs) = sc + (\<Sum>(_, flag, w)\<leftarrow>ws. w * of_bool (flag s))"
  by (induction ws arbitrary: sc rs) auto

definition hint_bonus :: "pydict \<Rightarrow> tool_semantics \<Rightarrow> int" where
  "hint_bonus a s =
     20 * of_bool (dict_get a ''destructiveHint'' = JBool True \<and> \<not> ts_destructive s)
     + 8 * of_bool (dict_get a ''readOnlyHint'' = JBool False \<and> \<not> ts_write s)"

definition flag_sum :: "tool_semantics \<Rightarrow> int" where
  "flag_sum s = 5 * of_bool (ts_read s) + 22 * of_bool (ts_write s) + 35 * of_bool (ts_destructive s)
     + 24 * of_bool (ts_egress s) + 32 * of_bool (ts_credential_access s)
     + 45 * of_bool (ts_arbitrary_execution s) + 18 * of_bool (ts_open_world s)"

lemma add_risk_weights: "fst (add_weights risk_weights s 0 []) = flag_sum s"
  unfolding add_weights_fst by (simp add: risk_weights_def flag_sum_def)

lemma assess_risk_score:
  "ra_score (assess_risk t s) = min 100 (flag_sum s + hint_bonus (td_annotations t) s)"
  unfolding assess_risk_def case_prod_unfold Let_def
  by (auto simp: add_risk_weights hint_bonus_def add.commute)

lemma assess_risk_fields [simp]:
  "ra_category (assess_risk t s) = category_for_score (ra_score (assess_risk t s))"
  "ra_properties (assess_risk t s) = s"
  "ra_tool_id (assess_risk t s) = tool_id t"
  "ra_canonical_capability (assess_risk t s) = ts_canonical_capability s"
  by (simp_all add: assess_risk_def case_prod_unfold Let_def)

lemma flag_sum_nonneg: "0 \<le> flag_sum s"
  by (simp add: flag_sum_def)

lemma hint_bonus_nonneg: "0 \<le> hint_bonus a s"
  by (simp add: hint_bonus_def)

text \<open>One classification reports at least the flags of another.\<close>

definition semantics_le :: "tool_semantics \<Rightarrow> tool_semantics \<Rightarrow> bool" where
  "semantics_le s s' \<longleftrightarrow>
     (ts_read s \<longrightarrow> ts_read s') \<and> (ts_write s \<longrightarrow> ts_write s') \<and> (ts_destructive s \<longrightarrow> ts_destructive s') \<and>
     (ts_egress s \<longrightarrow> ts_egress s') \<and> (ts_credential_access s \<longrightarrow> ts_credential_access s') \<and>
     (ts_arbitrary_execution s \<longrightarrow> ts_arbitrary_execution s') \<and> (ts_open_world s \<longrightarrow> ts_open_world s')"

lemma raw_score_mono:
  assumes "semantics_le s s'"
  shows "flag_sum s + hint_bonus a s \<le> flag_sum s' + hint_bonus a s'"
proof -
  have ob: "(of_bool P :: int) \<le> of_bool Q" if "P \<longrightarrow> Q" for P Q using that by auto
  have d: "35 * of_bool P + 20 * of_bool (h \<and> \<not> P) \<le> 35 * of_bool Q + 20 * (of_bool (h \<and> \<not> Q) :: int)"
    if "P \<longrightarrow> Q" for P Q h using that by auto
  have w: "22 * of_bool P + 8 * of_bool (h \<and> \<not> P) \<le> 22 * of_bool Q + 8 * (of_bool (h \<and> \<not> Q) :: int)"
    if "P \<longrightarrow> Q" for P Q h using that by auto
  note le = assms [unfolded semantics_le_def]
  show ?thesis
    using ob [of "ts_read s" "ts_read s'"] ob [of "ts_egress s" "ts_egress s'"]
      ob [of "ts_credential_access s" "ts_credential_access s'"]
      ob [of "ts_arbitrary_execution s" "ts_arbitrary_execution s'"] ob [of "ts_open_world s" "ts_open_world s'"]
      d [of "ts_destructive s" "ts_destructive s'" "dict_get a ''destructiveHint'' = JBool True"]
      w [of "ts_write s" "ts_write s'" "dict_get a ''readOnlyHint'' = JBool False"] le
    unfolding flag_sum_def hint_bonus_def by linarith
qed

section \<open>Dominance\<close>

lemma dominates_score: "dominates a b \<Longrightarrow> ra_score (rt_assessment a) < ra_score (rt_assessment b)"
  by (auto simp: dominates_def split: if_splits)

lemma dominates_privileges:
  "dominates a b \<Longrightarrow> list_all2 (\<le>) (privilege_vector (ra_properties (rt_assessment a)))
                                     (privilege_vector (ra_properties (rt_assessment b)))"
  by (auto simp: dominates_def list_all2_iff list_all_iff privilege_vector_def split: if_splits)

lemma mark_one_category [simp]: "effective_category ov (mark_one cs r) = effective_category ov r"
  by (simp add: effective_category_def mark_one_def Let_def split: option.split)

text \<open>
  A relation that strictly lowers an integer rank: in a non-empty list some element has no
  predecessor. The candidates under \<open>dominates\<close> are one instance.
\<close>

locale ranked_relation =
  fixes rel :: "'a \<Rightarrow> 'a \<Rightarrow> bool" and rank :: "'a \<Rightarrow> int"
  assumes rel_rank: "rel x y \<Longrightarrow> rank x < rank y"
begin

lemma minimal_exists:
  assumes "xs \<noteq> []"
  shows "\<exists>x\<in>set xs. \<forall>y\<in>set xs. \<not> rel y x"
proof -
  have "finite (set xs)" "set xs \<noteq> {}" using assms by auto
  then obtain x where "x \<in> set xs" "\<forall>y\<in>set xs. rank x \<le> rank y"
    by (meson arg_min_if_finite(1) arg_min_least)
  then show ?thesis using rel_rank by (meson not_less)
qed

lemma rel_irrefl: "\<not> rel x x"
  using rel_rank by blast

lemma rel_no_cycle: "rel\<^sup>+\<^sup>+ x y \<Longrightarrow> rank x < rank y"
  by (induction rule: tranclp.induct) (auto dest: rel_rank)

end

interpretation dominance: ranked_relation dominates "\<lambda>r. ra_score (rt_assessment r)"
  by unfold_locales (rule dominates_score)

lemma mark_one_fields [simp]:
  "rt_tool (mark_one cs r) = rt_tool r" "rt_assessment (mark_one cs r) = rt_assessment r"
  "rt_intent_fit (mark_one cs r) = rt_intent_fit r"
  by (simp_all add: mark_one_def Let_def)

lemma mark_one_dominated:
  "rt_dominated (mark_one cs r) \<longleftrightarrow> (\<exists>o'\<in>set cs. rt_id o' \<noteq> rt_id r \<and> dominates o' r)"
  by (simp add: mark_one_def Let_def find_None_all del: not_None_eq)

lemma mark_dominated_undominated:
  assumes "cs \<noteq> []"
  shows "\<exists>r\<in>set (mark_dominated cs). \<not> rt_dominated r"
  using dominance.minimal_exists [OF assms] by (auto simp: mark_dominated_def mark_one_dominated)

section \<open>Resolution\<close>

abbreviation resolve_ctx where
  "resolve_ctx sha i cs m q once ex ov \<equiv> resolve sha i cs m q once ex ov False"

definition requested_in :: "string option \<Rightarrow> ranked_tool list \<Rightarrow> ranked_tool option" where
  "requested_in q cs = find (\<lambda>r. Some (rt_id r) = q) (mark_dominated cs)"

lemma requested_in_Some:
  "requested_in q cs = Some t \<Longrightarrow> t \<in> set (mark_dominated cs) \<and> q = Some (rt_id t)"
  by (auto simp: requested_in_def dest: find_Some_in)

lemma visible_eq:
  "rs_visible_tools (resolve_ctx sha i cs m q once ex ov)
     = sort_by rank_lt (filter (is_eligible m q once ex ov) (mark_dominated cs))"
  "rs_filtered_tools (resolve_ctx sha i cs m q once ex ov)
     = filter (\<lambda>r. \<not> is_eligible m q once ex ov r) (mark_dominated cs)"
  by (simp_all add: resolve_def Let_def case_prod_unfold)

lemma best_eq:
  "(case xs of [] \<Rightarrow> None | r # _ \<Rightarrow> Some r) = (if xs = [] then None else Some (hd xs))"
  by (cases xs) auto

lemma selected_eq:
  "rs_selected (resolve_ctx sha i cs m q once ex ov) =
     (let vis = rs_visible_tools (resolve_ctx sha i cs m q once ex ov);
          best = (if vis = [] then None else Some (hd vis))
      in case requested_in q cs of None \<Rightarrow> best
         | Some t \<Rightarrow> if m < effective_category ov t \<and> rt_id t \<notin> once \<union> ex then None
                     else if rt_id t \<in> once \<union> ex then Some t else best)"
  unfolding visible_eq requested_in_def
  by (simp add: resolve_def Let_def case_prod_unfold best_eq split: option.splits)

lemma approval_eq:
  "rs_approval_required (resolve_ctx sha i cs m q once ex ov) \<noteq> None \<longleftrightarrow>
     (\<exists>t. requested_in q cs = Some t \<and> m < effective_category ov t \<and> rt_id t \<notin> once \<union> ex)"
  unfolding requested_in_def
  by (simp add: resolve_def Let_def case_prod_unfold split: option.splits)

lemma visible_eligible:
  "r \<in> set (rs_visible_tools (resolve_ctx sha i cs m q once ex ov)) \<longleftrightarrow>
     r \<in> set (mark_dominated cs) \<and> is_eligible m q once ex ov r"
  by (simp add: visible_eq)

lemma requested_allowed_eligible:
  "requested_in q cs = Some t \<Longrightarrow> rt_id t \<in> once \<union> ex \<Longrightarrow> is_eligible m q once ex ov t"
  by (auto simp: is_eligible_def dest: requested_in_Some)

lemma selected_visible:
  assumes "rs_selected (resolve_ctx sha i cs m q once ex ov) = Some r"
  shows "r \<in> set (rs_visible_tools (resolve_ctx sha i cs m q once ex ov))"
proof -
  let ?vis = "rs_visible_tools (resolve_ctx sha i cs m q once ex ov)"
  from assms consider "r = hd ?vis" "?vis \<noteq> []"
    | t where "requested_in q cs = Some t" "rt_id t \<in> once \<union> ex" "r = t"
    by (auto simp: selected_eq [of sha i cs] Let_def split: option.splits if_splits)
  then show ?thesis
  proof cases
    case 1
    then show ?thesis by (metis hd_in_set)
  next
    case 2
    then show ?thesis
      using requested_allowed_eligible [OF 2(1,2)] requested_in_Some [OF 2(1)]
      by (simp add: visible_eligible)
  qed
qed

lemma f_lt_total:
  "x \<noteq> NaN \<Longrightarrow> y \<noteq> NaN \<Longrightarrow> \<not> f_lt x y \<Longrightarrow> x = y \<or> f_lt y x"
  by (cases x; cases y) auto

lemma f_lt_trans: "f_lt x y \<Longrightarrow> f_lt y z \<Longrightarrow> f_lt x z"
  by (cases x; cases y; cases z) auto

lemma f_lt_irrefl [simp]: "\<not> f_lt x x"
  by (cases x) auto

lemma f_neg_NaN [simp]: "f_neg x = NaN \<longleftrightarrow> x = NaN"
  by (cases x) auto

lemma rank_lt_weak_order: "weak_order_on {r. rt_intent_fit r \<noteq> NaN} rank_lt"
proof -
  have refl: "\<not> rank_lt a a" if "rt_intent_fit a \<noteq> NaN" for a
    using that by (simp add: rank_lt_def f_eq_def)
  have asym: "\<not> rank_lt b a" if "rank_lt a b" "rt_intent_fit a \<noteq> NaN" "rt_intent_fit b \<noteq> NaN" for a b
    using that by (auto simp: rank_lt_def f_eq_def split: if_splits dest: f_lt_trans)
  have conn: "rank_lt a b \<or> rank_lt b a \<or> (f_neg (rt_intent_fit a) = f_neg (rt_intent_fit b)
      \<and> ra_score (rt_assessment a) = ra_score (rt_assessment b) \<and> rt_id a = rt_id b)"
    if "rt_intent_fit a \<noteq> NaN" "rt_intent_fit b \<noteq> NaN" for a b
    using that f_lt_total [of "f_neg (rt_intent_fit a)" "f_neg (rt_intent_fit b)"]
    by (auto simp: rank_lt_def f_eq_def)
  have trans: "rank_lt a c" if "rank_lt a b" "rank_lt b c"
    "rt_intent_fit a \<noteq> NaN" "rt_intent_fit b \<noteq> NaN" "rt_intent_fit c \<noteq> NaN" for a b c
    using that by (auto simp: rank_lt_def f_eq_def split: if_splits dest: f_lt_trans)
  have same: "rank_lt c a \<longleftrightarrow> rank_lt c b" "rank_lt a c \<longleftrightarrow> rank_lt b c"
    if "f_neg (rt_intent_fit a) = f_neg (rt_intent_fit b)"
      "ra_score (rt_assessment a) = ra_score (rt_assessment b)" "rt_id a = rt_id b" for a b c
    using that by (simp_all add: rank_lt_def)
  have neg_trans: "\<not> rank_lt c a" if "\<not> rank_lt b a" "\<not> rank_lt c b"
    "rt_intent_fit a \<noteq> NaN" "rt_intent_fit b \<noteq> NaN" "rt_intent_fit c \<noteq> NaN" for a b c
    using that conn [of a b] conn [of b c] asym trans [of a b c] same by blast
  show ?thesis
    unfolding weak_order_on_def using refl asym neg_trans by blast
qed

section \<open>Properties\<close>

text \<open>Two small candidates for the witnesses below.\<close>

definition demo_semantics :: "bool \<Rightarrow> tool_semantics" where
  "demo_semantics w =
     \<lparr>ts_canonical_capability = ''repo.file'', ts_read = True, ts_write = w, ts_destructive = False,
      ts_egress = w, ts_credential_access = False, ts_arbitrary_execution = False, ts_open_world = False,
      ts_rationale = ''r'', ts_confidence = Fin 1\<rparr>"

definition demo_tool :: "string \<Rightarrow> tool_descriptor" where
  "demo_tool name =
     \<lparr>td_server_id = ''s'', td_tool_name = name, td_description = [], td_input_schema = [],
      td_annotations = [], td_source = ''request'', td_version = None\<rparr>"

definition demo_ranked :: "string \<Rightarrow> bool \<Rightarrow> ranked_tool" where
  "demo_ranked name w =
     \<lparr>rt_tool = demo_tool name, rt_assessment = assess_risk (demo_tool name) (demo_semantics w),
      rt_intent_fit = Fin (1/2), rt_dominated = False, rt_dominance_reason = None\<rparr>"

text \<open>
  (C3) A selected tool is authorised: the emergency stop is off, and the tool either is not
  dominated and within the automatic risk ceiling after overrides, or is not dominated and has a
  standing exception, or is the tool that was requested by name and holds an exception or an
  unconsumed one-shot approval.
\<close>

theorem resolve_selected_authorised:
  assumes "rs_selected (resolve sha intent cs m q once ex ov stop) = Some r"
  shows "\<not> stop \<and> r \<in> set (mark_dominated cs) \<and>
    (\<not> rt_dominated r \<and> (effective_category ov r \<le> m \<or> rt_id r \<in> ex)
     \<or> q = Some (rt_id r) \<and> rt_id r \<in> ex \<union> once)"
proof -
  have stop: "\<not> stop" using assms by (auto simp: resolve_def)
  with assms have "r \<in> set (rs_visible_tools (resolve_ctx sha intent cs m q once ex ov))"
    by (intro selected_visible) simp
  then show ?thesis using stop by (auto simp: visible_eligible is_eligible_def Let_def)
qed

theorem resolve_selected_authorised_witness:
  "\<exists>r. rs_selected (resolve (\<lambda>s. s) ''i'' [demo_ranked ''a'' False] LOW None {} {} Map.empty False) = Some r
     \<and> effective_category Map.empty r \<le> LOW"
proof -
  let ?R = "resolve (\<lambda>s. s) ''i'' [demo_ranked ''a'' False] LOW None {} {} Map.empty False"
  have "rs_selected ?R \<noteq> None" by code_simp
  then obtain r where r: "rs_selected ?R = Some r" by blast
  then show ?thesis using resolve_selected_authorised [OF r] by auto
qed

text \<open>
  An approval is requested exactly when the tool asked for by name is among the
  candidates, its effective category is above the ceiling and no exception or one-shot approval
  covers it. The request then names that tool, its effective category and the ceiling, and nothing
  is selected in its place; in every other case with a requested tool, an approved or excepted tool
  is selected itself, even when a safer candidate exists.
\<close>

theorem resolve_requested:
  assumes "find (\<lambda>r. Some (rt_id r) = q) (mark_dominated cs) = Some t"
  shows "let R = resolve sha intent cs m q once ex ov False;
             blocked = (m < effective_category ov t \<and> rt_id t \<notin> once \<union> ex)
         in (rs_approval_required R \<noteq> None \<longleftrightarrow> blocked) \<and>
            (blocked \<longrightarrow> rs_selected R = None \<and> map_option ar_requested_tool_id (rs_approval_required R) = q
               \<and> map_option ar_requested_category (rs_approval_required R) = Some (effective_category ov t)
               \<and> map_option ar_allowed_category (rs_approval_required R) = Some m) \<and>
            (rt_id t \<in> once \<union> ex \<longrightarrow> rs_selected R = Some t)"
  using assms requested_in_Some [of q cs t, unfolded requested_in_def]
  by (auto simp: resolve_def Let_def)

theorem resolve_requested_witness:
  "rs_selected (resolve (\<lambda>s. s) ''i'' [demo_ranked ''a'' True] LOW (Some ''s:a'') {} {} Map.empty False) = None"
proof -
  let ?t = "hd (mark_dominated [demo_ranked ''a'' True])"
  have f: "find (\<lambda>r. Some (rt_id r) = Some ''s:a'') (mark_dominated [demo_ranked ''a'' True]) = Some ?t"
    and o': "LOW < effective_category Map.empty ?t"
    by code_simp+
  show ?thesis
    using resolve_requested [OF f, of "\<lambda>s. s" "''i''" LOW "{}" "{}" Map.empty] o' by (simp add: Let_def)
qed

text \<open>
  Adding a risk flag to a judge's classification never lowers the score or the category
  of the tool, whatever its annotations: the 20 and 8 points that a hint contributes while the flag
  is missing are always less than the weight of the flag.
\<close>

theorem assess_risk_mono:
  assumes "semantics_le s s'"
  shows "ra_score (assess_risk t s) \<le> ra_score (assess_risk t s') \<and>
         ra_category (assess_risk t s) \<le> ra_category (assess_risk t s')"
proof -
  have "ra_score (assess_risk t s) \<le> ra_score (assess_risk t s')"
    using raw_score_mono [OF assms, of "td_annotations t"] by (auto simp: assess_risk_score)
  then show ?thesis using category_for_score_mono by (simp del: category_order)
qed

theorem assess_risk_mono_witness:
  "ra_score (assess_risk (demo_tool ''a'') (demo_semantics False))
     \<le> ra_score (assess_risk (demo_tool ''a'') (demo_semantics True))"
  using assess_risk_mono [of "demo_semantics False" "demo_semantics True" "demo_tool ''a''"]
  by (simp add: semantics_le_def demo_semantics_def)

text \<open>
  The score lies between 0 and 100, decides the category through the floors 80, 60, 35
  and 15, and is never lower than the score of the same classification without annotations: an
  externally supplied annotation can raise a score, not lower it.
\<close>

theorem assess_risk_bounds:
  "0 \<le> ra_score (assess_risk t s) \<and> ra_score (assess_risk t s) \<le> 100 \<and>
   ra_category (assess_risk t s) =
     (let n = ra_score (assess_risk t s) in
      if 80 \<le> n then CRITICAL else if 60 \<le> n then HIGH else if 35 \<le> n then MEDIUM
      else if 15 \<le> n then LOW else SAFE) \<and>
   ra_score (assess_risk (t\<lparr>td_annotations := []\<rparr>) s) \<le> ra_score (assess_risk t s)"
  using flag_sum_nonneg [of s] hint_bonus_nonneg [of "td_annotations t" s]
  by (auto simp: assess_risk_score category_for_score_eq Let_def hint_bonus_def [of "[]"])

text \<open>
  Every candidate ends up exactly once among the visible or the filtered tools, and
  what is visible is exactly what the policy admits.
\<close>

theorem resolve_partition:
  "mset (rs_visible_tools (resolve sha intent cs m q once ex ov False))
     + mset (rs_filtered_tools (resolve sha intent cs m q once ex ov False)) = mset (mark_dominated cs) \<and>
   set (rs_visible_tools (resolve sha intent cs m q once ex ov False))
     = {r \<in> set (mark_dominated cs). is_eligible m q once ex ov r}"
proof -
  have ins: "mset (insert_by lt x xs) = add_mset x (mset xs)" for lt x and xs :: "ranked_tool list"
    by (induction xs) auto
  have "mset (sort_by lt xs) = mset xs" for lt and xs :: "ranked_tool list"
    by (induction xs) (auto simp: ins)
  then show ?thesis by (auto simp: visible_eq)
qed

text \<open>
  The resolver does not strand an intent: with at least one candidate, the stop off, no
  requested tool and every candidate within the ceiling, some tool is selected. Dominance filters
  the riskier of two candidates, never all of them. When no fit is a NaN, no visible tool precedes
  the selected one in the order by fit, score and id.
\<close>

theorem resolve_selects:
  assumes "cs \<noteq> []" "\<forall>r\<in>set cs. effective_category ov r \<le> m" "\<forall>r\<in>set cs. rt_intent_fit r \<noteq> NaN"
  shows "\<exists>r. rs_selected (resolve sha intent cs m None once ex ov False) = Some r \<and>
    (\<forall>v\<in>set (rs_visible_tools (resolve sha intent cs m None once ex ov False)). \<not> rank_lt v r)"
proof -
  let ?vis = "rs_visible_tools (resolve_ctx sha intent cs m None once ex ov)"
  obtain r where r: "r \<in> set (mark_dominated cs)" "\<not> rt_dominated r"
    using mark_dominated_undominated [OF assms(1)] by blast
  then have "effective_category ov r \<le> m"
    using assms(2) by (auto simp: mark_dominated_def simp del: category_order)
  with r have "r \<in> set ?vis"
    by (simp add: visible_eligible is_eligible_def Let_def del: category_order)
  then have ne: "?vis \<noteq> []" by auto
  have nan: "set ?vis \<subseteq> {r. rt_intent_fit r \<noteq> NaN}"
    using assms(3) by (auto simp: visible_eq mark_dominated_def)
  have "sorted_wrt (\<lambda>a b. \<not> rank_lt b a) ?vis"
    unfolding visible_eq by (rule sort_by_sorted [OF rank_lt_weak_order]) (use nan in \<open>simp add: visible_eq\<close>)
  moreover have "\<not> rank_lt (hd ?vis) (hd ?vis)"
    using nan ne rank_lt_weak_order unfolding weak_order_on_def by (metis hd_in_set subsetD)
  ultimately have "\<forall>v\<in>set ?vis. \<not> rank_lt v (hd ?vis)" using ne by (cases ?vis) auto
  moreover have "requested_in None cs = None" by (simp add: requested_in_def find_None_all)
  ultimately show ?thesis using ne by (simp add: selected_eq [of sha intent cs] Let_def)
qed

theorem resolve_selects_witness:
  "rs_selected (resolve (\<lambda>s. s) ''i'' [demo_ranked ''a'' True, demo_ranked ''b'' False]
     HIGH None {} {} Map.empty False) \<noteq> None"
proof -
  let ?cs = "[demo_ranked ''a'' True, demo_ranked ''b'' False]"
  have "?cs \<noteq> []" "\<forall>r\<in>set ?cs. effective_category Map.empty r \<le> HIGH" "\<forall>r\<in>set ?cs. rt_intent_fit r \<noteq> NaN"
    by code_simp+
  then show ?thesis using resolve_selects [of ?cs Map.empty HIGH] by fastforce
qed

end
