(* ===== verification/Fnmatch.thy ===== *)
theory Fnmatch
  imports Prelude
begin

text \<open>
  The shell patterns of Python's \<open>fnmatch.fnmatch\<close> on POSIX, which the protected-path check
  calls: a star for any run of characters (slashes included), a question mark for one
  character, and bracketed classes with ranges and a leading exclamation mark for negation.
  An unclosed bracket is literal, and a reversed range is empty.
\<close>

datatype glob = AnySeq | AnyChar | CharClass bool "(char \<times> char) list" | Lit char

text \<open>The ranges of a class, read from the left; a hyphen at either end stands for itself.\<close>

fun class_ranges :: "string \<Rightarrow> (char \<times> char) list" where
  "class_ranges (a # m # b # r) =
     (if m = CHR ''-'' then (a, b) # class_ranges r else (a, a) # class_ranges (m # b # r))"
| "class_ranges (a # r) = (a, a) # class_ranges r"
| "class_ranges [] = []"

definition in_class :: "(char \<times> char) list \<Rightarrow> char \<Rightarrow> bool" where
  "in_class rs c \<longleftrightarrow> (\<exists>(a, b)\<in>set rs. ord_of a \<le> ord_of c \<and> ord_of c \<le> ord_of b)"

text \<open>What follows an opening bracket: the negation, the body of the class and the rest.\<close>

definition take_class :: "string \<Rightarrow> (bool \<times> string \<times> string) option" where
  "take_class s =
    (let (neg, s1) = (case s of c # r \<Rightarrow> if c = CHR ''!'' then (True, r) else (False, s) | [] \<Rightarrow> (False, []));
         (pre, s2) = (case s1 of c # r \<Rightarrow> if c = CHR '']'' then ([c], r) else ([], s1) | [] \<Rightarrow> ([], []));
         body = takeWhile (\<lambda>c. c \<noteq> CHR '']'') s2;
         rest = dropWhile (\<lambda>c. c \<noteq> CHR '']'') s2
     in case rest of [] \<Rightarrow> None | _ # r \<Rightarrow> Some (neg, pre @ body, r))"

lemma take_class_rest: "take_class s = Some (neg, body, r) \<Longrightarrow> length r \<le> length s"
proof -
  have dw: "dropWhile P x = y # ys \<Longrightarrow> length ys \<le> length x" for P y and x ys :: string
    by (metis Suc_leD length_Cons length_dropWhile_le)
  show "take_class s = Some (neg, body, r) \<Longrightarrow> length r \<le> length s"
    by (auto simp: take_class_def Let_def split: list.splits if_splits dest!: dw)
qed

function glob_of :: "string \<Rightarrow> glob list" where
  "glob_of [] = []"
| "glob_of (c # r) =
     (if c = CHR ''*'' then AnySeq # glob_of r
      else if c = CHR ''?'' then AnyChar # glob_of r
      else if c = CHR ''['' then
        (case take_class r of
           None \<Rightarrow> Lit c # glob_of r
         | Some (neg, body, r') \<Rightarrow> CharClass neg (class_ranges body) # glob_of r')
      else Lit c # glob_of r)"
  by pat_completeness auto
termination
  by (relation "measure length") (auto dest!: take_class_rest)

fun glob_match :: "glob list \<Rightarrow> string \<Rightarrow> bool" where
  "glob_match [] s = (s = [])"
| "glob_match (AnySeq # gs) [] = glob_match gs []"
| "glob_match (AnySeq # gs) (c # s) = (glob_match gs (c # s) \<or> glob_match (AnySeq # gs) s)"
| "glob_match (AnyChar # gs) s = (case s of [] \<Rightarrow> False | _ # r \<Rightarrow> glob_match gs r)"
| "glob_match (CharClass neg rs # gs) s =
     (case s of [] \<Rightarrow> False | c # r \<Rightarrow> in_class rs c \<noteq> neg \<and> glob_match gs r)"
| "glob_match (Lit l # gs) s = (case s of [] \<Rightarrow> False | c # r \<Rightarrow> c = l \<and> glob_match gs r)"

definition fnmatch :: "string \<Rightarrow> string \<Rightarrow> bool" where
  "fnmatch name pat = glob_match (glob_of pat) name"

section \<open>Patterns without classes\<close>

definition plain_char :: "char \<Rightarrow> bool" where
  "plain_char c \<longleftrightarrow> c \<notin> {CHR ''*'', CHR ''?'', CHR ''[''}"

definition plain :: "string \<Rightarrow> bool" where
  "plain s \<longleftrightarrow> (\<forall>c\<in>set s. plain_char c)"

lemma plain_simps [simp]: "plain []" "plain (c # s) \<longleftrightarrow> plain_char c \<and> plain s"
  by (auto simp: plain_def)

lemma glob_of_plain: "plain p \<Longrightarrow> glob_of (p @ q) = map Lit p @ glob_of q"
  by (induction p) (auto simp: plain_char_def)

lemma glob_match_Lits:
  "glob_match (map Lit p @ gs) s \<longleftrightarrow> (\<exists>r. s = p @ r \<and> glob_match gs r)"
  by (induction p arbitrary: s) (auto split: list.splits)

lemma glob_match_AnySeq: "glob_match (AnySeq # gs) s \<longleftrightarrow> (\<exists>a b. s = a @ b \<and> glob_match gs b)"
proof (induction s)
  case Nil
  then show ?case by simp
next
  case (Cons c s)
  show ?case
  proof
    assume "glob_match (AnySeq # gs) (c # s)"
    then consider "glob_match gs (c # s)" | a b where "s = a @ b" "glob_match gs b" using Cons by auto
    then show "\<exists>a b. c # s = a @ b \<and> glob_match gs b" by cases (metis append_Nil, metis append_Cons)
  next
    assume "\<exists>a b. c # s = a @ b \<and> glob_match gs b"
    then obtain a b where "c # s = a @ b" "glob_match gs b" by blast
    then show "glob_match (AnySeq # gs) (c # s)" using Cons by (cases a) auto
  qed
qed

lemma fnmatch_plain: "plain p \<Longrightarrow> fnmatch s p \<longleftrightarrow> s = p"
  using glob_of_plain [of p "[]"] glob_match_Lits [of p "[]" s] by (auto simp: fnmatch_def)

lemma fnmatch_prefix: "plain p \<Longrightarrow> fnmatch s (p @ ''**'') \<longleftrightarrow> starts_with p s"
  by (simp add: fnmatch_def glob_of_plain glob_match_Lits starts_with_iff glob_match_AnySeq)
    (metis append_Nil2)

lemma fnmatch_suffix: "plain p \<Longrightarrow> fnmatch s (CHR ''*'' # p) \<longleftrightarrow> (\<exists>r. s = r @ p)"
  using glob_of_plain [of p "[]"] glob_match_Lits [of p "[]"]
  by (simp add: fnmatch_def glob_match_AnySeq)

end
