(* ===== verification/Authority.thy ===== *)
theory Authority
  imports Models Fnmatch
begin

text \<open>
  \<open>capability_gateway/authority.py\<close>: the builder's authority map, the canonical hash of the
  arguments of a tool call, and the construction of the invocation context that grants are bound
  to. The hash is the parameter \<open>sha\<close> and the text of a float the parameter \<open>fr\<close>.
\<close>

section \<open>Data\<close>

record action_spec =
  as_capability :: string
  as_category :: risk_category
  as_permissions :: "(string \<times> string) list"
  as_mutation :: bool

record invocation =
  ic_agent_id :: string
  ic_role :: string
  ic_run_id :: string
  ic_tool_id :: string
  ic_capability :: string
  ic_category :: risk_category
  ic_repository :: string
  ic_branch :: "string option"
  ic_paths :: "string list"
  ic_args_hash :: string
  ic_permissions :: "(string \<times> string) list"

text \<open>\<open>x or ''''\<close> for an optional string.\<close>

definition or_empty :: "string option \<Rightarrow> string" where
  "or_empty x = (case x of Some s \<Rightarrow> s | None \<Rightarrow> [])"

definition request_material :: "invocation \<Rightarrow> string" where
  "request_material c = join_str [CHR 0x00]
     [ic_agent_id c, ic_run_id c, ic_tool_id c, ic_capability c, ic_repository c, or_empty (ic_branch c),
      ic_args_hash c]"

definition invocation_request_id :: "(string \<Rightarrow> string) \<Rightarrow> invocation \<Rightarrow> string" where
  "invocation_request_id sha c = take 24 (sha (request_material c))"

definition mk_spec :: "string \<Rightarrow> risk_category \<Rightarrow> (string \<times> string) list \<Rightarrow> bool \<Rightarrow> action_spec" where
  "mk_spec c r p m = \<lparr>as_capability = c, as_category = r, as_permissions = p, as_mutation = m\<rparr>"

definition builder_actions :: "(string \<times> action_spec) list" where
  "builder_actions =
     [(''get_file_contents'', mk_spec ''repository.file.read'' LOW [(''contents'', ''read'')] False),
      (''get_repository_tree'', mk_spec ''repository.tree.read'' LOW [(''contents'', ''read'')] False),
      (''search_code'', mk_spec ''repository.code.search'' LOW [(''contents'', ''read'')] False),
      (''create_branch'', mk_spec ''repository.branch.create'' MEDIUM [(''contents'', ''write'')] True),
      (''push_files'', mk_spec ''repository.files.modify'' MEDIUM [(''contents'', ''write'')] True),
      (''create_pull_request'', mk_spec ''repository.pull_request.create'' MEDIUM [(''pull_requests'', ''write'')] True),
      (''actions_run_trigger'', mk_spec ''ci.workflow.trigger'' HIGH [(''actions'', ''write'')] True),
      (''actions_get'', mk_spec ''ci.workflow.read'' LOW [(''actions'', ''read'')] False),
      (''actions_list'', mk_spec ''ci.workflow.read'' LOW [(''actions'', ''read'')] False),
      (''get_job_logs'', mk_spec ''ci.logs.read'' LOW [(''actions'', ''read'')] False)]"

definition builder_discovery_permissions :: "(string \<times> string) list" where
  "builder_discovery_permissions =
     [(''contents'', ''write''), (''pull_requests'', ''write''), (''actions'', ''write'')]"

section \<open>Arguments\<close>

fun optional_string :: "json \<Rightarrow> string option" where
  "optional_string (JStr s) = (if py_strip s = [] then None else Some (py_strip s))"
| "optional_string _ = None"

text \<open>\<open>_normalize\<close>: the members of every object in the order of the keys.\<close>

fun normalize :: "json \<Rightarrow> json" where
  "normalize (JArr xs) = JArr (map normalize xs)"
| "normalize (JObj d) = JObj (sort_key fst (map (\<lambda>kv. (fst kv, normalize (snd kv))) d))"
| "normalize v = v"

definition args_value :: "string \<Rightarrow> pydict \<Rightarrow> json" where
  "args_value tool args = JObj [(''tool'', JStr tool), (''arguments'', normalize (JObj args))]"

definition canonical_args_hash :: "(pyfloat \<Rightarrow> string) \<Rightarrow> (string \<Rightarrow> string) \<Rightarrow> string \<Rightarrow> pydict \<Rightarrow> string" where
  "canonical_args_hash fr sha tool args = sha (dumps fr (args_value tool args))"

definition arg_repository :: "pydict \<Rightarrow> string result" where
  "arg_repository args =
    (case (optional_string (dict_get args ''owner''), optional_string (dict_get args ''repo'')) of
       (Some owner, Some repo) \<Rightarrow> Inr (owner @ ''/'' @ repo)
     | _ \<Rightarrow> Inl (AuthorityDenied ''owner_and_repo_are_required''))"

definition arg_branch :: "string \<Rightarrow> pydict \<Rightarrow> string option" where
  "arg_branch tool args =
    (case find (\<lambda>v. v \<noteq> None) (map (\<lambda>k. optional_string (dict_get args k)) [''branch'', ''ref'', ''head'']) of
       Some v \<Rightarrow> v
     | None \<Rightarrow> if tool = ''create_branch'' then optional_string (dict_get args ''branch'') else None)"

text \<open>The path a value contributes: trimmed, without leading slashes; nothing for blank text.\<close>

fun path_text :: "json \<Rightarrow> string list" where
  "path_text (JStr s) = (if py_strip s = [] then [] else [lstrip_char (CHR ''/'') (py_strip s)])"
| "path_text _ = []"

fun file_path :: "json \<Rightarrow> string list" where
  "file_path (JObj item) = path_text (dict_get item ''path'')"
| "file_path _ = []"

definition arg_paths :: "pydict \<Rightarrow> string list" where
  "arg_paths args = nub_first
     (path_text (dict_get args ''path'') @
      (case dict_get args ''files'' of JArr items \<Rightarrow> concat (map file_path items) | _ \<Rightarrow> []))"

section \<open>Protected paths\<close>

definition pattern_hits :: "string \<Rightarrow> string \<Rightarrow> bool" where
  "pattern_hits normalized pattern =
    (let candidate = lstrip_char (CHR ''/'') pattern in
       fnmatch normalized candidate
       \<or> ends_with ''/**'' candidate
         \<and> starts_with (rstrip_char (CHR ''/'') (take (length candidate - 3) candidate) @ ''/'') normalized
       \<or> normalized = candidate)"

definition is_protected :: "string \<Rightarrow> string list \<Rightarrow> bool" where
  "is_protected path patterns = list_ex (pattern_hits (lstrip_char (CHR ''/'') path)) patterns"

text \<open>\<open>load_protected_patterns\<close>; \<open>None\<close> is a file that does not exist.\<close>

definition load_protected_patterns :: "string option \<Rightarrow> string list result" where
  "load_protected_patterns file =
    (case file of
       None \<Rightarrow> Inl (RuntimeError ''protected paths file not found'')
     | Some txt \<Rightarrow> Inr (filter (\<lambda>line. line \<noteq> [] \<and> \<not> starts_with ''#'' line) (map py_strip (py_splitlines txt))))"

section \<open>The invocation context\<close>

definition agent_ref :: "string option \<Rightarrow> bool" where
  "agent_ref r \<longleftrightarrow> (case r of Some b \<Rightarrow> starts_with ''agent/'' b | None \<Rightarrow> False)"

text \<open>The branch the context is bound to, or the refusal of the tool's own guards.\<close>

definition context_branch :: "string \<Rightarrow> pydict \<Rightarrow> string \<Rightarrow> string option result" where
  "context_branch tool args default_branch =
    (let branch = arg_branch tool args in
     if tool \<in> {''create_branch'', ''push_files''} \<and> \<not> agent_ref branch then
       Inl (AuthorityDenied ''builder_branch_must_use_agent_prefix'')
     else if tool = ''create_pull_request'' then
       (let head = optional_string (dict_get args ''head''); base = optional_string (dict_get args ''base'') in
        if \<not> agent_ref head then Inl (AuthorityDenied ''pull_request_head_must_use_agent_prefix'')
        else if base \<noteq> Some default_branch then Inl (AuthorityDenied ''pull_request_base_must_match_default_branch'')
        else Inr head)
     else if tool = ''actions_run_trigger'' then
       (let ref = optional_string (dict_get args ''ref'') in
        if \<not> agent_ref ref then Inl (AuthorityDenied ''workflow_dispatch_ref_must_use_agent_prefix'')
        else Inr ref)
     else Inr branch)"

definition builder_invocation_context :: "(pyfloat \<Rightarrow> string) \<Rightarrow> (string \<Rightarrow> string) \<Rightarrow> string \<Rightarrow> string
    \<Rightarrow> string \<Rightarrow> pydict \<Rightarrow> string \<Rightarrow> string \<Rightarrow> string list \<Rightarrow> invocation result" where
  "builder_invocation_context fr sha agent_id run_id tool args configured_repository default_branch patterns =
    (case map_of builder_actions tool of
       None \<Rightarrow> Inl (AuthorityDenied ''tool_not_in_builder_authority_map'')
     | Some spec \<Rightarrow>
         result_bind (arg_repository args) (\<lambda>repository.
         if repository \<noteq> configured_repository then Inl (AuthorityDenied ''repository_out_of_scope'')
         else result_bind (context_branch tool args default_branch) (\<lambda>branch.
           if as_mutation spec \<and> list_ex (\<lambda>p. is_protected p patterns) (arg_paths args)
           then Inl (AuthorityDenied ''protected_path'')
           else Inr
             \<lparr>ic_agent_id = agent_id, ic_role = ''builder'', ic_run_id = run_id, ic_tool_id = ''github:'' @ tool,
              ic_capability = as_capability spec, ic_category = as_category spec, ic_repository = repository,
              ic_branch = branch, ic_paths = arg_paths args, ic_args_hash = canonical_args_hash fr sha tool args,
              ic_permissions = as_permissions spec\<rparr>)))"


section \<open>Canonical arguments\<close>

lemma distinct_fst_sort_key: "distinct (map fst d) \<Longrightarrow> distinct (map fst (sort_key fst d))"
  by (simp add: distinct_map)

lemma sorted_distinct_wrt: "sorted xs \<Longrightarrow> distinct xs \<Longrightarrow> sorted_wrt (<) (xs :: string list)"
  by (induction xs) (auto simp: order_less_le)

lemma normalize_canon: "json_wf v \<Longrightarrow> json_canon (normalize v)"
proof (induction v rule: normalize.induct)
  case (2 d)
  let ?e = "map (\<lambda>kv. (fst kv, normalize (snd kv))) d"
  have "distinct (map fst (sort_key fst ?e))"
    using 2(2) by (intro distinct_fst_sort_key) (simp add: comp_def)
  moreover have "sorted (map fst (sort_key fst ?e))" by simp
  ultimately have "sorted_wrt (<) (map fst (sort_key fst ?e))" by (intro sorted_distinct_wrt)
  with 2 show ?case by fastforce
qed auto

lemma normalize_floats: "json_floats (normalize v) = json_floats v"
  by (induction v rule: normalize.induct) auto

lemma dumps_args_value:
  "dumps fr (args_value tool args)
     = dumps fr (JObj [(''arguments'', normalize (JObj args)), (''tool'', JStr tool)])"
  unfolding args_value_def by (simp add: Let_def insort_key_def sort_key_def)

lemma args_text_inj:
  assumes "float_repr_ok D fr" "json_wf (JObj a)" "json_wf (JObj b)"
    and "json_floats (JObj a) \<subseteq> D" "json_floats (JObj b) \<subseteq> D"
    and "dumps fr (args_value t a) = dumps fr (args_value u b)"
  shows "t = u \<and> normalize (JObj a) = normalize (JObj b)"
proof -
  let ?v = "\<lambda>t a. JObj [(''arguments'', normalize (JObj a)), (''tool'', JStr t)]"
  have "json_canon (?v t a)" "json_canon (?v u b)" if "json_canon (normalize (JObj a))" "json_canon (normalize (JObj b))"
    using that by simp_all
  moreover have "json_floats (?v t a) \<subseteq> D" "json_floats (?v u b) \<subseteq> D"
    using assms(4,5) normalize_floats [of "JObj a"] normalize_floats [of "JObj b"]
    by (simp_all del: normalize.simps)
  ultimately have "?v t a = ?v u b"
    using assms dumps_inj [of D fr "?v t a" "?v u b"] normalize_canon unfolding dumps_args_value by blast
  then show ?thesis by simp
qed

section \<open>Guards\<close>

lemma optional_string_Some: "optional_string v = Some s \<Longrightarrow> s \<noteq> [] \<and> (\<exists>t. v = JStr t \<and> s = py_strip t)"
  by (cases v) (auto split: if_splits)

lemma arg_repository_Inr [guard_simps]:
  "arg_repository args = Inr r \<longleftrightarrow>
     (\<exists>ow re. optional_string (dict_get args ''owner'') = Some ow
        \<and> optional_string (dict_get args ''repo'') = Some re \<and> r = ow @ ''/'' @ re)"
  by (auto simp: arg_repository_def split: option.splits)

lemma context_branch_Inr:
  "context_branch tool args db = Inr b \<Longrightarrow>
     tool \<in> {''create_branch'', ''push_files'', ''create_pull_request'', ''actions_run_trigger''} \<Longrightarrow> agent_ref b"
  by (auto simp: context_branch_def Let_def split: if_splits)

lemma context_branch_pr:
  "context_branch ''create_pull_request'' args db = Inr b \<Longrightarrow>
     b = optional_string (dict_get args ''head'') \<and> optional_string (dict_get args ''base'') = Some db"
  by (auto simp: context_branch_def Let_def split: if_splits)

lemma mutating_tools:
  "map_of builder_actions tool = Some spec \<Longrightarrow> as_mutation spec \<longleftrightarrow>
     tool \<in> {''create_branch'', ''push_files'', ''create_pull_request'', ''actions_run_trigger''}"
  by (auto simp: builder_actions_def mk_spec_def split: if_splits)

lemma reading_tools:
  "map_of builder_actions tool = Some spec \<Longrightarrow> \<not> as_mutation spec \<Longrightarrow>
     \<forall>(_, level)\<in>set (as_permissions spec). level = ''read''"
  by (auto simp: builder_actions_def mk_spec_def split: if_splits)

lemma builder_context_Inr [guard_simps]:
  "builder_invocation_context fr sha agent run tool args repo db pats = Inr c \<longleftrightarrow>
    (\<exists>spec b. map_of builder_actions tool = Some spec \<and> arg_repository args = Inr repo
      \<and> context_branch tool args db = Inr b
      \<and> \<not> (as_mutation spec \<and> list_ex (\<lambda>p. is_protected p pats) (arg_paths args))
      \<and> c = \<lparr>ic_agent_id = agent, ic_role = ''builder'', ic_run_id = run, ic_tool_id = ''github:'' @ tool,
              ic_capability = as_capability spec, ic_category = as_category spec, ic_repository = repo,
              ic_branch = b, ic_paths = arg_paths args, ic_args_hash = canonical_args_hash fr sha tool args,
              ic_permissions = as_permissions spec\<rparr>)"
  by (auto simp: builder_invocation_context_def split: option.splits)

lemma builder_context_exn:
  "builder_invocation_context fr sha agent run tool args repo db pats = Inl e \<Longrightarrow> \<exists>m. e = AuthorityDenied m"
  by (auto simp: builder_invocation_context_def context_branch_def arg_repository_def Let_def result_bind_Inl_iff
      split: option.splits if_splits)

lemma lstrip_char_id: "s = [] \<or> hd s \<noteq> c \<Longrightarrow> lstrip_char c s = s"
  by (cases s) (auto simp: lstrip_char_def)

lemma rstrip_char_id: "s = [] \<or> last s \<noteq> c \<Longrightarrow> rstrip_char c s = s"
  unfolding rstrip_char_def by (metis dropWhile.simps(1) hd_rev lstrip_char_def lstrip_char_id rev_is_Nil_conv rev_rev_ident)

section \<open>Properties\<close>

definition demo_args :: pydict where
  "demo_args = [(''owner'', JStr ''o''), (''repo'', JStr ''r''), (''branch'', JStr '' agent/x''),
     (''files'', JArr [JObj [(''path'', JStr ''/src/a''), (''content'', JStr ''c'')]])]"

text \<open>
  (C4) An invocation that the authority map accepts is inside the builder's authority: the
  tool is one of the ten mapped tools and the context carries its capability and permissions; the
  repository is the configured one; a mutating tool works on a branch below \<open>agent/\<close>, targets
  no protected path, and a pull request goes from such a branch to the default branch; any other tool
  receives read permissions only.
\<close>

theorem builder_context_sound:
  assumes "builder_invocation_context fr sha agent run tool args repo db pats = Inr c"
  shows "\<exists>spec. map_of builder_actions tool = Some spec \<and>
    (ic_tool_id c, ic_capability c, ic_category c, ic_permissions c, ic_repository c)
      = (''github:'' @ tool, as_capability spec, as_category spec, as_permissions spec, repo) \<and>
    (if as_mutation spec
     then (\<exists>b. ic_branch c = Some b \<and> starts_with ''agent/'' b) \<and>
          (\<forall>p\<in>set (ic_paths c). \<not> is_protected p pats) \<and>
          (tool = ''create_pull_request'' \<longrightarrow>
             ic_branch c = optional_string (dict_get args ''head'') \<and>
             optional_string (dict_get args ''base'') = Some db)
     else (\<forall>(_, level)\<in>set (ic_permissions c). level = ''read''))"
proof -
  obtain spec b where spec: "map_of builder_actions tool = Some spec" and b: "context_branch tool args db = Inr b"
    and prot: "\<not> (as_mutation spec \<and> list_ex (\<lambda>p. is_protected p pats) (arg_paths args))"
    and c: "ic_tool_id c = ''github:'' @ tool" "ic_capability c = as_capability spec"
      "ic_category c = as_category spec" "ic_permissions c = as_permissions spec" "ic_repository c = repo"
      "ic_branch c = b" "ic_paths c = arg_paths args"
    using assms unfolding builder_context_Inr by fastforce
  show ?thesis
  proof (cases "as_mutation spec")
    case True
    then have "agent_ref b" using mutating_tools [OF spec] by (intro context_branch_Inr [OF b]) simp
    then have branch: "\<exists>x. ic_branch c = Some x \<and> starts_with ''agent/'' x"
      using c(6) by (auto simp: agent_ref_def split: option.splits)
    have pr: "tool = ''create_pull_request'' \<longrightarrow> b = optional_string (dict_get args ''head'')
        \<and> optional_string (dict_get args ''base'') = Some db"
      using b context_branch_pr by blast
    have "\<forall>p\<in>set (ic_paths c). \<not> is_protected p pats" using prot True c(7) by (simp add: list_ex_iff)
    then show ?thesis using spec True branch pr c by (intro exI [of _ spec]) simp
  next
    case False
    with spec c reading_tools [OF spec] show ?thesis by simp
  qed
qed

theorem builder_context_sound_witness:
  "\<exists>c. builder_invocation_context (\<lambda>_. []) (\<lambda>_. ''h'') ''a'' ''1'' ''push_files'' demo_args ''o/r'' ''main''
         [''.github/**''] = Inr c \<and> (\<exists>b. ic_branch c = Some b \<and> starts_with ''agent/'' b)"
proof -
  have "case builder_invocation_context (\<lambda>_. []) (\<lambda>_. ''h'') ''a'' ''1'' ''push_files'' demo_args ''o/r'' ''main''
      [''.github/**''] of Inr _ \<Rightarrow> True | Inl _ \<Rightarrow> False" by code_simp
  then obtain c where c: "builder_invocation_context (\<lambda>_. []) (\<lambda>_. ''h'') ''a'' ''1'' ''push_files'' demo_args
      ''o/r'' ''main'' [''.github/**''] = Inr c" by (auto split: sum.splits)
  have "map_of builder_actions ''push_files'' = Some spec \<Longrightarrow> as_mutation spec" for spec
    by (auto dest: mutating_tools)
  with builder_context_sound [OF c] c show ?thesis by auto
qed

text \<open>
  The arguments hash identifies the call: as long as the hash function does not collide
  on the two texts, two calls have the same hash exactly when they name the same tool and their
  arguments are equal up to the order of object members, at every depth.
\<close>

theorem canonical_args_hash_binds:
  assumes "float_repr_ok D fr" "json_wf (JObj a)" "json_wf (JObj b)"
    and "json_floats (JObj a) \<subseteq> D" "json_floats (JObj b) \<subseteq> D"
    and "inj_on sha {dumps fr (args_value t a), dumps fr (args_value u b)}"
  shows "canonical_args_hash fr sha t a = canonical_args_hash fr sha u b \<longleftrightarrow>
         t = u \<and> normalize (JObj a) = normalize (JObj b)"
proof
  assume "canonical_args_hash fr sha t a = canonical_args_hash fr sha u b"
  then have "dumps fr (args_value t a) = dumps fr (args_value u b)"
    unfolding canonical_args_hash_def by (rule inj_onD [OF assms(6)]) simp_all
  then show "t = u \<and> normalize (JObj a) = normalize (JObj b)" by (rule args_text_inj [OF assms(1-5)])
qed (auto simp: canonical_args_hash_def args_value_def)

theorem canonical_args_hash_binds_witness:
  "canonical_args_hash (\<lambda>_. []) (\<lambda>s. s) ''t'' [(''a'', JInt 1), (''b'', JInt 2)]
     \<noteq> canonical_args_hash (\<lambda>_. []) (\<lambda>s. s) ''t'' [(''b'', JInt 2), (''a'', JInt 3)]"
  using canonical_args_hash_binds [of "{}" "\<lambda>_. []" "[(''a'', JInt 1), (''b'', JInt 2)]"
      "[(''b'', JInt 2), (''a'', JInt 3)]" "\<lambda>s. s" "''t''" "''t''"]
  by (simp add: float_repr_ok_def sort_key_def)

text \<open>
  The request id identifies the invocation: with a hash that does not collide on the two
  materials in its first 24 characters, equal ids mean the same agent, run, tool, capability,
  repository, branch (a missing branch counting as the empty one) and arguments hash. The separator
  is safe although a branch may contain it: only the other six fields have to be free of it.
\<close>

theorem request_id_binds:
  assumes "\<forall>x\<in>{c, d}. \<forall>f\<in>{ic_agent_id x, ic_run_id x, ic_tool_id x, ic_capability x, ic_repository x, ic_args_hash x}.
             CHR 0x00 \<notin> set f"
    and "inj_on (\<lambda>m. take 24 (sha m)) {request_material c, request_material d}"
    and "invocation_request_id sha c = invocation_request_id sha d"
  shows "(ic_agent_id c, ic_run_id c, ic_tool_id c, ic_capability c, ic_repository c, or_empty (ic_branch c), ic_args_hash c)
       = (ic_agent_id d, ic_run_id d, ic_tool_id d, ic_capability d, ic_repository d, or_empty (ic_branch d), ic_args_hash d)"
proof -
  have eq: "request_material c = request_material d"
    by (rule inj_onD [OF assms(2)]) (use assms(3) in \<open>simp_all add: invocation_request_id_def\<close>)
  have cut: "a = b \<and> r = s" if "a @ CHR 0x00 # r = b @ CHR 0x00 # s" "CHR 0x00 \<notin> set a" "CHR 0x00 \<notin> set b"
    for a b r s :: string
    using munch [of a "\<lambda>x. x \<noteq> CHR 0x00" b "CHR 0x00 # r" "CHR 0x00 # s"] that by auto
  have cut_end: "r = s \<and> a = b" if "r @ CHR 0x00 # a = s @ CHR 0x00 # b" "CHR 0x00 \<notin> set a" "CHR 0x00 \<notin> set b"
    for a b r s :: string
  proof -
    have "rev (r @ CHR 0x00 # a) = rev (s @ CHR 0x00 # b)" using that(1) by (rule arg_cong)
    then show ?thesis using cut [of "rev a" "rev r" "rev b" "rev s"] that(2,3) by simp
  qed
  let ?z = "\<lambda>a b. a @ CHR 0x00 # b"
  have free: "CHR 0x00 \<notin> set (ic_agent_id x)" "CHR 0x00 \<notin> set (ic_run_id x)" "CHR 0x00 \<notin> set (ic_tool_id x)"
    "CHR 0x00 \<notin> set (ic_capability x)" "CHR 0x00 \<notin> set (ic_repository x)" "CHR 0x00 \<notin> set (ic_args_hash x)"
    if "x = c \<or> x = d" for x using assms(1) that by auto
  note fc = free [of c, simplified] and fd = free [of d, simplified]
  have eq1: "?z (ic_agent_id c) (?z (ic_run_id c) (?z (ic_tool_id c) (?z (ic_capability c) (?z (ic_repository c)
        (?z (or_empty (ic_branch c)) (ic_args_hash c))))))
    = ?z (ic_agent_id d) (?z (ic_run_id d) (?z (ic_tool_id d) (?z (ic_capability d) (?z (ic_repository d)
        (?z (or_empty (ic_branch d)) (ic_args_hash d))))))"
    using eq by (simp add: request_material_def)
  note s1 = cut [OF eq1 fc(1) fd(1)]
  note s2 = cut [OF conjunct2 [OF s1] fc(2) fd(2)]
  note s3 = cut [OF conjunct2 [OF s2] fc(3) fd(3)]
  note s4 = cut [OF conjunct2 [OF s3] fc(4) fd(4)]
  note s5 = cut [OF conjunct2 [OF s4] fc(5) fd(5)]
  note s6 = cut_end [OF conjunct2 [OF s5] fc(6) fd(6)]
  from s1 s2 s3 s4 s5 s6 show ?thesis by simp
qed

theorem request_id_binds_witness:
  "\<exists>c d. invocation_request_id (\<lambda>m. m) c \<noteq> invocation_request_id (\<lambda>m. m) d \<and> ic_branch c \<noteq> ic_branch d"
proof -
  let ?c = "\<lambda>b. \<lparr>ic_agent_id = ''a'', ic_role = [], ic_run_id = ''1'', ic_tool_id = ''t'', ic_capability = ''c'',
     ic_category = LOW, ic_repository = ''o/r'', ic_branch = Some b, ic_paths = [], ic_args_hash = ''h'',
     ic_permissions = []\<rparr>"
  have "invocation_request_id (\<lambda>m. m) (?c ''x'') \<noteq> invocation_request_id (\<lambda>m. m) (?c ''y'')"
  proof
    assume eq: "invocation_request_id (\<lambda>m. m) (?c ''x'') = invocation_request_id (\<lambda>m. m) (?c ''y'')"
    have "inj_on (\<lambda>m. take 24 m) {request_material (?c ''x''), request_material (?c ''y'')}"
      by (simp add: request_material_def or_empty_def)
    from request_id_binds [OF _ this eq] show False by (simp add: or_empty_def)
  qed
  then show ?thesis by (intro exI [of _ "?c ''x''"] exI [of _ "?c ''y''"] conjI) simp_all
qed

text \<open>
  What the pattern forms of the protected-paths file protect, for names without pattern
  characters: \<open>d/**\<close> covers exactly the paths below the directory \<open>d\<close>, a plain name
  exactly that path, and in both cases leading slashes of the path do not matter.
\<close>

theorem protected_directory:
  assumes "plain d" "d \<noteq> []" "hd d \<noteq> CHR ''/''" "last d \<noteq> CHR ''/''"
  shows "(is_protected path [d @ ''/**''] \<longleftrightarrow> starts_with (d @ ''/'') (lstrip_char (CHR ''/'') path)) \<and>
         (is_protected path [d] \<longleftrightarrow> lstrip_char (CHR ''/'') path = d)"
proof -
  let ?n = "lstrip_char (CHR ''/'') path"
  have strip: "lstrip_char (CHR ''/'') (d @ s) = d @ s" for s
    using assms(2,3) by (simp add: lstrip_char_id)
  have "plain (d @ ''/'')" using assms(1) by (simp add: plain_def plain_char_def)
  then have dir: "fnmatch ?n (d @ ''/**'') \<longleftrightarrow> starts_with (d @ ''/'') ?n"
    using fnmatch_prefix [of "d @ ''/''" ?n] by simp
  have "\<not> ends_with ''/**'' d"
  proof
    assume "ends_with ''/**'' d"
    then have "CHR ''*'' \<in> set d" by (auto simp: ends_with_iff)
    with assms(1) show False by (auto simp: plain_def plain_char_def)
  qed
  then have exact: "pattern_hits ?n d \<longleftrightarrow> ?n = d"
    using strip [of "[]"] fnmatch_plain [OF assms(1), of ?n] by (simp add: pattern_hits_def Let_def)
  have cut: "rstrip_char (CHR ''/'') (take (length (d @ ''/**'') - 3) (d @ ''/**'')) = d"
    using assms(2,4) by (simp add: rstrip_char_id)
  have "ends_with ''/**'' (d @ ''/**'')" unfolding ends_with_iff by blast
  moreover have "starts_with (d @ ''/'') ?n" if "?n = d @ ''/**''"
    unfolding that starts_with_iff by simp
  ultimately have "pattern_hits ?n (d @ ''/**'') \<longleftrightarrow> starts_with (d @ ''/'') ?n"
    unfolding pattern_hits_def Let_def strip cut dir by blast
  with exact show ?thesis by (simp add: is_protected_def)
qed

theorem protected_directory_witness:
  "is_protected ''//.github/workflows/ci.yml'' [''.github/**''] \<and> \<not> is_protected ''./.github/x'' [''.github/**'']"
  using protected_directory [of "''.github''" "''//.github/workflows/ci.yml''"]
    protected_directory [of "''.github''" "''./.github/x''"]
  by (simp add: plain_char_def lstrip_char_def starts_with_def)

end
