(* ===== verification/Governance.thy ===== *)
theory Governance
  imports Authority
begin

text \<open>
  \<open>capability_gateway/governance.py\<close>: the SQLite-backed governance state. A table is the list
  of its rows in insertion order; a point in time is a number of seconds, which the fixed-width UTC
  text of the code orders in the same way. Every operation reads the clock once (\<open>now\<close>) and is
  one transaction under the lock: it returns the new state, or an exception after which the
  transaction is rolled back and the state is the old one. \<open>secrets.token_urlsafe\<close> is the
  argument \<open>gid\<close>; a value that is already a primary key is refused by the database.
\<close>

section \<open>Tables\<close>

datatype approval_status = PENDING | APPROVED_ONCE | EXCEPTION | CAPABILITY_OVERRIDE | SUPERSEDED

record exception_row =
  xr_tool_id :: string
  xr_created_at :: int

record override_row =
  or_capability :: string
  or_category :: int
  or_created_at :: int

record once_row =
  on_request_id :: string
  on_tool_id :: string
  on_consumed :: bool
  on_created_at :: int
  on_consumed_at :: "int option"

record pending_row =
  pr_request_id :: string
  pr_intent :: string
  pr_tool_id :: string
  pr_capability :: string
  pr_requested_category :: int
  pr_allowed_category :: int
  pr_recommended :: "string option"
  pr_reason :: string
  pr_status :: approval_status
  pr_created_at :: int
  pr_decided_at :: "int option"

record exec_row =
  er_request_id :: string
  er_intent :: string
  er_agent_id :: string
  er_run_id :: string
  er_tool_id :: string
  er_capability :: string
  er_repository :: string
  er_branch :: "string option"
  er_args_hash :: string
  er_requested_category :: int
  er_allowed_category :: int
  er_reason :: string
  er_status :: approval_status
  er_created_at :: int
  er_decided_at :: "int option"

record grant_row =
  gr_grant_id :: string
  gr_request_id :: string
  gr_source :: string
  gr_agent_id :: string
  gr_run_id :: string
  gr_tool_id :: string
  gr_capability :: string
  gr_repository :: string
  gr_branch :: "string option"
  gr_args_hash :: string
  gr_expires_at :: int
  gr_consumed :: bool
  gr_created_at :: int
  gr_consumed_at :: "int option"

record governance =
  gv_global :: "(string \<times> string) list"
  gv_exceptions :: "exception_row list"
  gv_overrides :: "override_row list"
  gv_once :: "once_row list"
  gv_pending :: "pending_row list"
  gv_exec :: "exec_row list"
  gv_grants :: "grant_row list"

text \<open>\<open>_initialize\<close> on an existing database: the tables are kept, the switch is added once.\<close>

definition gov_initialize :: "governance \<Rightarrow> governance" where
  "gov_initialize g = (if ''emergency_stop'' \<in> set (map fst (gv_global g)) then g
     else g\<lparr>gv_global := gv_global g @ [(''emergency_stop'', ''0'')]\<rparr>)"

definition empty_governance :: governance where
  "empty_governance = \<lparr>gv_global = [], gv_exceptions = [], gv_overrides = [], gv_once = [],
     gv_pending = [], gv_exec = [], gv_grants = []\<rparr>"

section \<open>Snapshot\<close>

record pending_view =
  pv_request_id :: string
  pv_intent :: string
  pv_tool_id :: string
  pv_capability :: string
  pv_requested_category :: risk_category
  pv_allowed_category :: risk_category
  pv_recommended :: "string option"
  pv_reason :: string
  pv_created_at :: int
  pv_agent_id :: "string option"
  pv_run_id :: "string option"
  pv_repository :: "string option"
  pv_branch :: "string option"
  pv_args_hash :: "string option"

record snapshot =
  sn_emergency_stop :: bool
  sn_exceptions :: "string list"
  sn_overrides :: "(string \<times> risk_category) list"
  sn_pending :: "pending_view list"

definition newer :: "('a \<Rightarrow> int) \<Rightarrow> 'a \<Rightarrow> 'a \<Rightarrow> bool" where
  "newer created a b \<longleftrightarrow> created b < created a"

definition legacy_view :: "pending_row \<Rightarrow> pending_view result" where
  "legacy_view r =
     result_bind (category_of_value (pr_requested_category r)) (\<lambda>req.
     result_bind (category_of_value (pr_allowed_category r)) (\<lambda>allowed.
     Inr \<lparr>pv_request_id = pr_request_id r, pv_intent = pr_intent r, pv_tool_id = pr_tool_id r,
          pv_capability = pr_capability r, pv_requested_category = req, pv_allowed_category = allowed,
          pv_recommended = pr_recommended r, pv_reason = pr_reason r, pv_created_at = pr_created_at r,
          pv_agent_id = None, pv_run_id = None, pv_repository = None, pv_branch = None, pv_args_hash = None\<rparr>))"

definition exec_view :: "exec_row \<Rightarrow> pending_view result" where
  "exec_view r =
     result_bind (category_of_value (er_requested_category r)) (\<lambda>req.
     result_bind (category_of_value (er_allowed_category r)) (\<lambda>allowed.
     Inr \<lparr>pv_request_id = er_request_id r, pv_intent = er_intent r, pv_tool_id = er_tool_id r,
          pv_capability = er_capability r, pv_requested_category = req, pv_allowed_category = allowed,
          pv_recommended = None, pv_reason = er_reason r, pv_created_at = er_created_at r,
          pv_agent_id = Some (er_agent_id r), pv_run_id = Some (er_run_id r),
          pv_repository = Some (er_repository r), pv_branch = er_branch r, pv_args_hash = Some (er_args_hash r)\<rparr>))"

definition override_view :: "override_row \<Rightarrow> (string \<times> risk_category) result" where
  "override_view r = result_bind (category_of_value (or_category r)) (\<lambda>c. Inr (or_capability r, c))"

definition gov_snapshot :: "governance \<Rightarrow> snapshot result" where
  "gov_snapshot g =
     result_bind (map_result override_view (gv_overrides g)) (\<lambda>overrides.
     result_bind (map_result legacy_view
        (take 100 (sort_by (newer pr_created_at) (filter (\<lambda>r. pr_status r = PENDING) (gv_pending g))))) (\<lambda>legacy.
     result_bind (map_result exec_view
        (take 100 (sort_by (newer er_created_at) (filter (\<lambda>r. er_status r = PENDING) (gv_exec g))))) (\<lambda>execution.
     Inr \<lparr>sn_emergency_stop = (map_of (gv_global g) ''emergency_stop'' = Some ''1''),
          sn_exceptions = map xr_tool_id (gv_exceptions g),
          sn_overrides = overrides,
          sn_pending = take 100 (sort_by (newer pv_created_at) (legacy @ execution))\<rparr>)))"

section \<open>Operations\<close>

definition validate_identifier :: "string \<Rightarrow> nat \<Rightarrow> unit result" where
  "validate_identifier value limit =
     (if py_strip value = [] \<or> limit < length value then Inl (ValueError ''invalid identifier'')
      else if list_ex is_control value then Inl (ValueError ''control characters are not allowed'')
      else Inr ())"

definition record_pending_approval :: "int \<Rightarrow> string \<Rightarrow> string \<Rightarrow> string \<Rightarrow> string \<Rightarrow> risk_category
    \<Rightarrow> risk_category \<Rightarrow> string option \<Rightarrow> string \<Rightarrow> governance \<Rightarrow> governance result" where
  "record_pending_approval now request_id intent tool capability requested allowed recommended reason g =
     result_bind (validate_identifier request_id 100) (\<lambda>_.
     result_bind (validate_identifier tool 300) (\<lambda>_.
     result_bind (validate_identifier capability 160) (\<lambda>_.
     if intent = [] \<or> 2000 < length intent \<or> reason = [] \<or> 1000 < length reason
     then Inl (ValueError ''invalid approval text'')
     else Inr (g\<lparr>gv_pending := upsert pr_request_id
         \<lparr>pr_request_id = request_id, pr_intent = intent, pr_tool_id = tool, pr_capability = capability,
          pr_requested_category = category_value requested, pr_allowed_category = category_value allowed,
          pr_recommended = recommended, pr_reason = reason, pr_status = PENDING, pr_created_at = now,
          pr_decided_at = None\<rparr>
         (\<lambda>r. r\<lparr>pr_intent := intent, pr_tool_id := tool, pr_capability := capability,
                pr_requested_category := category_value requested, pr_allowed_category := category_value allowed,
                pr_recommended := recommended, pr_reason := reason, pr_status := PENDING, pr_decided_at := None\<rparr>)
         (gv_pending g)\<rparr>))))"

definition approval_intent :: "invocation \<Rightarrow> string option \<Rightarrow> string" where
  "approval_intent c intent = take 2000 (case intent of
     Some t \<Rightarrow> if t = [] then ''execute '' @ ic_tool_id c else t
   | None \<Rightarrow> ''execute '' @ ic_tool_id c)"

definition record_execution_approval :: "(string \<Rightarrow> string) \<Rightarrow> int \<Rightarrow> invocation \<Rightarrow> risk_category \<Rightarrow> string
    \<Rightarrow> string option \<Rightarrow> governance \<Rightarrow> governance result" where
  "record_execution_approval sha now c allowed reason intent g =
     (if 1000 < length reason then Inl (ValueError ''invalid approval reason'')
      else let text = approval_intent c intent in
        Inr (g\<lparr>gv_exec := upsert er_request_id
         \<lparr>er_request_id = invocation_request_id sha c, er_intent = text, er_agent_id = ic_agent_id c,
          er_run_id = ic_run_id c, er_tool_id = ic_tool_id c, er_capability = ic_capability c,
          er_repository = ic_repository c, er_branch = ic_branch c, er_args_hash = ic_args_hash c,
          er_requested_category = category_value (ic_category c), er_allowed_category = category_value allowed,
          er_reason = reason, er_status = PENDING, er_created_at = now, er_decided_at = None\<rparr>
         (\<lambda>r. r\<lparr>er_intent := text, er_agent_id := ic_agent_id c, er_run_id := ic_run_id c,
                er_tool_id := ic_tool_id c, er_capability := ic_capability c, er_repository := ic_repository c,
                er_branch := ic_branch c, er_args_hash := ic_args_hash c,
                er_requested_category := category_value (ic_category c),
                er_allowed_category := category_value allowed, er_reason := reason, er_status := PENDING,
                er_decided_at := None\<rparr>)
         (gv_exec g)\<rparr>))"

definition set_emergency_stop :: "bool \<Rightarrow> governance \<Rightarrow> governance" where
  "set_emergency_stop enabled g =
     g\<lparr>gv_global := update_where (\<lambda>r. fst r = ''emergency_stop'')
        (\<lambda>r. (fst r, if enabled then ''1'' else ''0'')) (gv_global g)\<rparr>"

definition decide_pending :: "(pending_row \<Rightarrow> bool) \<Rightarrow> approval_status \<Rightarrow> int \<Rightarrow> pending_row list \<Rightarrow> pending_row list" where
  "decide_pending P st now = update_where (\<lambda>r. P r \<and> pr_status r = PENDING)
     (\<lambda>r. r\<lparr>pr_status := st, pr_decided_at := Some now\<rparr>)"

definition decide_exec :: "(exec_row \<Rightarrow> bool) \<Rightarrow> approval_status \<Rightarrow> int \<Rightarrow> exec_row list \<Rightarrow> exec_row list" where
  "decide_exec P st now = update_where (\<lambda>r. P r \<and> er_status r = PENDING)
     (\<lambda>r. r\<lparr>er_status := st, er_decided_at := Some now\<rparr>)"

definition add_tool_exception :: "int \<Rightarrow> string \<Rightarrow> governance \<Rightarrow> governance result" where
  "add_tool_exception now tool g =
     result_bind (validate_identifier tool 300) (\<lambda>_. Inr (g\<lparr>
       gv_exceptions := upsert xr_tool_id \<lparr>xr_tool_id = tool, xr_created_at = now\<rparr> (\<lambda>r. r) (gv_exceptions g),
       gv_pending := decide_pending (\<lambda>r. pr_tool_id r = tool) EXCEPTION now (gv_pending g),
       gv_exec := decide_exec (\<lambda>r. er_tool_id r = tool) EXCEPTION now (gv_exec g)\<rparr>))"

definition remove_tool_exception :: "string \<Rightarrow> governance \<Rightarrow> governance" where
  "remove_tool_exception tool g = g\<lparr>gv_exceptions := filter (\<lambda>r. xr_tool_id r \<noteq> tool) (gv_exceptions g)\<rparr>"

definition set_capability_override :: "int \<Rightarrow> string \<Rightarrow> risk_category \<Rightarrow> governance \<Rightarrow> governance result" where
  "set_capability_override now capability category g =
     result_bind (validate_identifier capability 160) (\<lambda>_. Inr (g\<lparr>
       gv_overrides := upsert or_capability
         \<lparr>or_capability = capability, or_category = category_value category, or_created_at = now\<rparr>
         (\<lambda>r. r\<lparr>or_category := category_value category, or_created_at := now\<rparr>) (gv_overrides g),
       gv_pending := decide_pending (\<lambda>r. pr_capability r = capability) CAPABILITY_OVERRIDE now (gv_pending g),
       gv_exec := decide_exec (\<lambda>r. er_capability r = capability) CAPABILITY_OVERRIDE now (gv_exec g)\<rparr>))"

definition remove_capability_override :: "string \<Rightarrow> governance \<Rightarrow> governance" where
  "remove_capability_override capability g =
     g\<lparr>gv_overrides := filter (\<lambda>r. or_capability r \<noteq> capability) (gv_overrides g)\<rparr>"

text \<open>\<open>INSERT INTO execution_grants\<close>: the primary key must be new.\<close>

definition insert_grant :: "grant_row \<Rightarrow> governance \<Rightarrow> governance result" where
  "insert_grant row g =
     (if gr_grant_id row \<in> set (map gr_grant_id (gv_grants g))
      then Inl (IntegrityError ''UNIQUE constraint failed: execution_grants.grant_id'')
      else Inr (g\<lparr>gv_grants := gv_grants g @ [row]\<rparr>))"

definition clamp_ttl :: "int \<Rightarrow> int" where
  "clamp_ttl ttl = max 10 (min ttl 900)"

definition human_grant :: "int \<Rightarrow> string \<Rightarrow> int \<Rightarrow> exec_row \<Rightarrow> grant_row" where
  "human_grant now gid ttl r =
     \<lparr>gr_grant_id = gid, gr_request_id = er_request_id r, gr_source = ''HUMAN'', gr_agent_id = er_agent_id r,
      gr_run_id = er_run_id r, gr_tool_id = er_tool_id r, gr_capability = er_capability r,
      gr_repository = er_repository r, gr_branch = er_branch r, gr_args_hash = er_args_hash r,
      gr_expires_at = now + clamp_ttl ttl, gr_consumed = False, gr_created_at = now, gr_consumed_at = None\<rparr>"

definition grant_once :: "int \<Rightarrow> string \<Rightarrow> string \<Rightarrow> string \<Rightarrow> int \<Rightarrow> governance \<Rightarrow> (string option \<times> governance) result" where
  "grant_once now gid request_id tool ttl g =
     result_bind (validate_identifier request_id 100) (\<lambda>_.
     result_bind (validate_identifier tool 300) (\<lambda>_.
     case find (\<lambda>r. er_request_id r = request_id \<and> er_tool_id r = tool \<and> er_status r = PENDING) (gv_exec g) of
       Some r \<Rightarrow>
         result_bind (insert_grant (human_grant now gid ttl r) g) (\<lambda>g1.
         Inr (Some gid, g1\<lparr>gv_exec := update_where (\<lambda>r. er_request_id r = request_id)
            (\<lambda>r. r\<lparr>er_status := APPROVED_ONCE, er_decided_at := Some now\<rparr>) (gv_exec g1)\<rparr>))
     | None \<Rightarrow>
         if find (\<lambda>r. pr_request_id r = request_id \<and> pr_tool_id r = tool \<and> pr_status r = PENDING) (gv_pending g) = None
         then Inl (ValueError ''approval request is not pending'')
         else Inr (None, g\<lparr>
           gv_once := upsert on_request_id
             \<lparr>on_request_id = request_id, on_tool_id = tool, on_consumed = False, on_created_at = now,
              on_consumed_at = None\<rparr>
             (\<lambda>r. r\<lparr>on_tool_id := tool, on_consumed := False, on_consumed_at := None\<rparr>) (gv_once g),
           gv_pending := update_where (\<lambda>r. pr_request_id r = request_id)
             (\<lambda>r. r\<lparr>pr_status := APPROVED_ONCE, pr_decided_at := Some now\<rparr>) (gv_pending g)\<rparr>)))"

text \<open>The condition the two grant queries share.\<close>

definition grant_matches :: "int \<Rightarrow> invocation \<Rightarrow> grant_row \<Rightarrow> bool" where
  "grant_matches now c r \<longleftrightarrow>
     gr_agent_id r = ic_agent_id c \<and> gr_run_id r = ic_run_id c \<and> gr_tool_id r = ic_tool_id c \<and>
     gr_capability r = ic_capability c \<and> gr_repository r = ic_repository c \<and>
     or_empty (gr_branch r) = or_empty (ic_branch c) \<and> gr_args_hash r = ic_args_hash c \<and>
     \<not> gr_consumed r \<and> now < gr_expires_at r"

definition has_execution_grant :: "int \<Rightarrow> invocation \<Rightarrow> governance \<Rightarrow> bool" where
  "has_execution_grant now c g = list_ex (grant_matches now c) (gv_grants g)"

definition consume_execution_grant :: "int \<Rightarrow> invocation \<Rightarrow> governance \<Rightarrow> string option \<times> governance" where
  "consume_execution_grant now c g =
     (case sort_by (\<lambda>a b. gr_created_at a < gr_created_at b) (filter (grant_matches now c) (gv_grants g)) of
        [] \<Rightarrow> (None, g)
      | r # _ \<Rightarrow>
          let hit = (\<lambda>x. gr_grant_id x = gr_grant_id r \<and> \<not> gr_consumed x) in
          (if count_where hit (gv_grants g) = 1 then Some (gr_grant_id r) else None,
           g\<lparr>gv_grants := update_where hit (\<lambda>x. x\<lparr>gr_consumed := True, gr_consumed_at := Some now\<rparr>)
                           (gv_grants g)\<rparr>))"

definition auto_grant :: "(string \<Rightarrow> string) \<Rightarrow> int \<Rightarrow> string \<Rightarrow> string \<Rightarrow> invocation \<Rightarrow> grant_row" where
  "auto_grant sha now gid source c =
     \<lparr>gr_grant_id = gid, gr_request_id = invocation_request_id sha c, gr_source = source,
      gr_agent_id = ic_agent_id c, gr_run_id = ic_run_id c, gr_tool_id = ic_tool_id c,
      gr_capability = ic_capability c, gr_repository = ic_repository c, gr_branch = ic_branch c,
      gr_args_hash = ic_args_hash c, gr_expires_at = now + 60, gr_consumed = True, gr_created_at = now,
      gr_consumed_at = Some now\<rparr>"

definition record_auto_execution :: "(string \<Rightarrow> string) \<Rightarrow> int \<Rightarrow> string \<Rightarrow> invocation \<Rightarrow> string \<Rightarrow> governance
    \<Rightarrow> (string \<times> governance) result" where
  "record_auto_execution sha now gid c source g =
     (if source \<notin> {''AUTO'', ''EXCEPTION'', ''CAPABILITY_OVERRIDE''} then Inl (ValueError ''invalid authority source'')
      else result_bind (insert_grant (auto_grant sha now gid source c) g) (\<lambda>g1. Inr (gid, g1)))"

definition consume_once :: "int \<Rightarrow> string \<Rightarrow> string \<Rightarrow> governance \<Rightarrow> bool \<times> governance" where
  "consume_once now request_id tool g =
     (let hit = (\<lambda>r. on_request_id r = request_id \<and> on_tool_id r = tool \<and> \<not> on_consumed r) in
      (count_where hit (gv_once g) = 1,
       g\<lparr>gv_once := update_where hit (\<lambda>r. r\<lparr>on_consumed := True, on_consumed_at := Some now\<rparr>) (gv_once g)\<rparr>))"

definition has_unconsumed_once :: "string \<Rightarrow> string \<Rightarrow> governance \<Rightarrow> bool" where
  "has_unconsumed_once request_id tool g =
     list_ex (\<lambda>r. on_request_id r = request_id \<and> on_tool_id r = tool \<and> \<not> on_consumed r) (gv_once g)"


section \<open>One-shot authority as an interface\<close>

text \<open>
  What a client of a one-shot store relies on: asking whether authority is available agrees with
  taking it, taking it spends exactly one fresh identifier, and a failed attempt spends nothing.
  The exact execution grants and the legacy approvals of the resolver are its two instances.
\<close>

locale one_shot =
  fixes inv :: "'s \<Rightarrow> bool"
    and avail :: "'k \<Rightarrow> 's \<Rightarrow> bool"
    and consume :: "'k \<Rightarrow> 's \<Rightarrow> 'g option \<times> 's"
    and spent :: "'s \<Rightarrow> 'g set"
  assumes consume_inv: "inv s \<Longrightarrow> inv (snd (consume k s))"
    and avail_iff: "inv s \<Longrightarrow> avail k s \<longleftrightarrow> fst (consume k s) \<noteq> None"
    and consume_Some: "inv s \<Longrightarrow> fst (consume k s) = Some g \<Longrightarrow>
        g \<notin> spent s \<and> spent (snd (consume k s)) = insert g (spent s)"
    and consume_None: "inv s \<Longrightarrow> fst (consume k s) = None \<Longrightarrow> spent (snd (consume k s)) = spent s"
begin

fun consume_all :: "'k list \<Rightarrow> 's \<Rightarrow> 'g list \<times> 's" where
  "consume_all [] s = ([], s)"
| "consume_all (k # ks) s =
     (let (r, s1) = consume k s; (gs, s2) = consume_all ks s1
      in ((case r of Some g \<Rightarrow> g # gs | None \<Rightarrow> gs), s2))"

lemma consume_all_spends:
  assumes "inv s" "consume_all ks s = (gs, s')"
  shows "inv s' \<and> distinct gs \<and> set gs \<inter> spent s = {} \<and> spent s' = spent s \<union> set gs"
  using assms
proof (induction ks arbitrary: s gs)
  case (Cons k ks)
  obtain r s1 where c: "consume k s = (r, s1)" by fastforce
  obtain gs1 where rest: "consume_all ks s1 = (gs1, s')" and gs: "gs = (case r of Some g \<Rightarrow> g # gs1 | None \<Rightarrow> gs1)"
    using Cons.prems(2) c by (auto split: prod.splits)
  have s1: "inv s1" using consume_inv [OF Cons.prems(1), of k] c by simp
  note IH = Cons.IH [OF s1 rest]
  show ?case
  proof (cases r)
    case None
    then show ?thesis using IH gs consume_None [OF Cons.prems(1), of k] c by auto
  next
    case (Some g)
    then show ?thesis using IH gs consume_Some [OF Cons.prems(1), of k g] c by auto
  qed
qed simp

lemma consume_twice: "inv s \<Longrightarrow> fst (consume k s) = Some g \<Longrightarrow> fst (consume k' (snd (consume k s))) \<noteq> Some g"
  using consume_Some consume_inv by blast

end

section \<open>Well-formed states\<close>

definition category_ok :: "int \<Rightarrow> bool" where
  "category_ok n \<longleftrightarrow> 0 \<le> n \<and> n \<le> 4"

definition grant_ok :: "grant_row \<Rightarrow> bool" where
  "grant_ok r \<longleftrightarrow>
     gr_source r \<in> {''AUTO'', ''HUMAN'', ''EXCEPTION'', ''CAPABILITY_OVERRIDE''} \<and>
     (gr_source r \<noteq> ''HUMAN'' \<longrightarrow> gr_consumed r) \<and>
     (gr_consumed r \<longleftrightarrow> gr_consumed_at r \<noteq> None) \<and>
     gr_created_at r + 10 \<le> gr_expires_at r \<and> gr_expires_at r \<le> gr_created_at r + 900"

definition gov_wf :: "governance \<Rightarrow> bool" where
  "gov_wf g \<longleftrightarrow>
     distinct (map fst (gv_global g)) \<and>
     (\<exists>v\<in>{''0'', ''1''}. map_of (gv_global g) ''emergency_stop'' = Some v) \<and>
     distinct (map xr_tool_id (gv_exceptions g)) \<and>
     distinct (map or_capability (gv_overrides g)) \<and>
     distinct (map on_request_id (gv_once g)) \<and>
     distinct (map pr_request_id (gv_pending g)) \<and>
     distinct (map er_request_id (gv_exec g)) \<and>
     distinct (map gr_grant_id (gv_grants g)) \<and>
     (\<forall>r\<in>set (gv_overrides g). category_ok (or_category r)) \<and>
     (\<forall>r\<in>set (gv_pending g). category_ok (pr_requested_category r) \<and> category_ok (pr_allowed_category r)) \<and>
     (\<forall>r\<in>set (gv_exec g). category_ok (er_requested_category r) \<and> category_ok (er_allowed_category r)) \<and>
     (\<forall>r\<in>set (gv_grants g). grant_ok r)"

lemma category_ok_value [simp]: "category_ok (category_value c)"
  using category_bounds by (simp add: category_ok_def)

lemma category_ok_parse: "category_ok n \<Longrightarrow> \<exists>c. category_of_value n = Inr c"
proof -
  assume "category_ok n"
  then have "n \<in> {0, 1, 2, 3, 4}" by (auto simp: category_ok_def)
  then have "\<exists>c. n = category_value c"
    by (elim insertE emptyE) (metis category_value.simps)+
  then show ?thesis by auto
qed

lemma distinct_map_filter_key: "distinct (map f xs) \<Longrightarrow> distinct (map f (filter P xs))"
  by (induction xs) auto

lemma empty_gov_wf: "gov_wf (gov_initialize empty_governance)"
  by (simp add: gov_wf_def gov_initialize_def empty_governance_def)

named_theorems gov_ops \<open>definitions of the operations on the governance state\<close>

lemmas gov_op_defs = record_pending_approval_def record_execution_approval_def set_emergency_stop_def
  add_tool_exception_def remove_tool_exception_def set_capability_override_def remove_capability_override_def

lemma validate_identifier_Inr [guard_simps]:
  "validate_identifier v n = Inr u \<longleftrightarrow> py_strip v \<noteq> [] \<and> length v \<le> n \<and> \<not> list_ex is_control v"
  by (auto simp: validate_identifier_def)

lemma validate_identifier_exn: "validate_identifier v n = Inl e \<Longrightarrow> \<exists>m. e = ValueError m"
  by (auto simp: validate_identifier_def split: if_splits)

section \<open>Every operation keeps the state well formed\<close>

lemma wf_record_pending:
  assumes "gov_wf g" "record_pending_approval now rid i t cap c a rec rsn g = Inr g'"
  shows "gov_wf g'"
  using assms unfolding gov_wf_def
  by (auto simp: record_pending_approval_def split: if_splits intro!: distinct_upsert dest!: upsert_cases)

lemma wf_record_execution:
  assumes "gov_wf g" "record_execution_approval sha now c a rsn i g = Inr g'"
  shows "gov_wf g'"
  using assms unfolding gov_wf_def
  by (auto simp: record_execution_approval_def Let_def split: if_splits intro!: distinct_upsert dest!: upsert_cases)

lemma decide_pending_keys [simp]:
  "map pr_request_id (decide_pending P st now xs) = map pr_request_id xs"
  "map er_request_id (decide_exec Q st now ys) = map er_request_id ys"
  by (simp_all add: decide_pending_def decide_exec_def map_update_where)

lemma decide_pending_categories:
  "r \<in> set (decide_pending P st now xs) \<Longrightarrow> \<exists>r0\<in>set xs. pr_requested_category r = pr_requested_category r0
      \<and> pr_allowed_category r = pr_allowed_category r0"
  "e \<in> set (decide_exec Q st now ys) \<Longrightarrow> \<exists>e0\<in>set ys. er_requested_category e = er_requested_category e0
      \<and> er_allowed_category e = er_allowed_category e0"
  by (auto simp: decide_pending_def decide_exec_def update_where_in_iff)

lemma wf_add_exception:
  assumes "gov_wf g" "add_tool_exception now t g = Inr g'"
  shows "gov_wf g'"
  using assms unfolding gov_wf_def
  by (auto simp: add_tool_exception_def intro!: distinct_upsert dest!: decide_pending_categories)

lemma wf_set_override:
  assumes "gov_wf g" "set_capability_override now cap c g = Inr g'"
  shows "gov_wf g'"
  using assms unfolding gov_wf_def
  by (auto simp: set_capability_override_def intro!: distinct_upsert dest!: decide_pending_categories upsert_cases)

lemma wf_removals:
  assumes "gov_wf g"
  shows "gov_wf (remove_tool_exception t g)" "gov_wf (remove_capability_override cap g)"
  using assms unfolding gov_wf_def
  by (auto simp: remove_tool_exception_def remove_capability_override_def distinct_map_filter_key)

lemma map_of_update_where:
  "map_of (update_where (\<lambda>r. fst r = k) (\<lambda>r. (fst r, v)) xs) k' =
     (if k' = k \<and> k \<in> fst ` set xs then Some v else map_of xs k')"
  by (induction xs) force+

lemma wf_emergency_stop:
  assumes "gov_wf g"
  shows "gov_wf (set_emergency_stop b g)"
proof -
  have "''emergency_stop'' \<in> fst ` set (gv_global g)"
    using assms by (auto simp: gov_wf_def dest: map_of_SomeD intro: rev_image_eqI)
  with assms show ?thesis
    unfolding gov_wf_def by (auto simp: set_emergency_stop_def map_update_where map_of_update_where)
qed

lemma insert_grant_Inr [guard_simps]:
  "insert_grant r g = Inr g' \<longleftrightarrow>
     gr_grant_id r \<notin> set (map gr_grant_id (gv_grants g)) \<and> g' = g\<lparr>gv_grants := gv_grants g @ [r]\<rparr>"
  by (auto simp: insert_grant_def)

lemma wf_insert_grant:
  "gov_wf g \<Longrightarrow> grant_ok r \<Longrightarrow> insert_grant r g = Inr g' \<Longrightarrow> gov_wf g'"
  unfolding gov_wf_def by (auto simp: guard_simps)

lemma clamp_ttl_bounds: "10 \<le> clamp_ttl t" "clamp_ttl t \<le> 900"
  by (simp_all add: clamp_ttl_def)

lemma human_grant_ok: "grant_ok (human_grant now gid ttl r)"
  using clamp_ttl_bounds [of ttl] by (simp add: grant_ok_def human_grant_def)

lemma auto_grant_ok:
  "source \<in> {''AUTO'', ''EXCEPTION'', ''CAPABILITY_OVERRIDE''} \<Longrightarrow> grant_ok (auto_grant sha now gid source c)"
  by (auto simp: grant_ok_def auto_grant_def)

lemma wf_record_auto:
  assumes "gov_wf g" "record_auto_execution sha now gid c source g = Inr (i, g')"
  shows "gov_wf g'"
proof -
  from assms(2) have "source \<in> {''AUTO'', ''EXCEPTION'', ''CAPABILITY_OVERRIDE''}"
    and "insert_grant (auto_grant sha now gid source c) g = Inr g'"
    by (auto simp: record_auto_execution_def split: if_splits)
  then show ?thesis using wf_insert_grant [OF assms(1) auto_grant_ok] by blast
qed

lemma wf_exec_update:
  assumes "gov_wf g" "\<And>r. er_request_id (f r) = er_request_id r"
    "\<And>r. er_requested_category (f r) = er_requested_category r \<and> er_allowed_category (f r) = er_allowed_category r"
  shows "gov_wf (g\<lparr>gv_exec := update_where P f (gv_exec g)\<rparr>)"
  using assms unfolding gov_wf_def by (auto simp: map_update_where update_where_in_iff)

lemma grant_once_cases:
  assumes "grant_once now gid rid t ttl g = Inr (res, g')"
  obtains (execution) r g1 where
      "find (\<lambda>r. er_request_id r = rid \<and> er_tool_id r = t \<and> er_status r = PENDING) (gv_exec g) = Some r"
      "insert_grant (human_grant now gid ttl r) g = Inr g1" "res = Some gid"
      "g' = g1\<lparr>gv_exec := update_where (\<lambda>r. er_request_id r = rid)
            (\<lambda>r. r\<lparr>er_status := APPROVED_ONCE, er_decided_at := Some now\<rparr>) (gv_exec g1)\<rparr>"
  | (legacy) p where
      "find (\<lambda>r. er_request_id r = rid \<and> er_tool_id r = t \<and> er_status r = PENDING) (gv_exec g) = None"
      "p \<in> set (gv_pending g)" "pr_request_id p = rid" "pr_tool_id p = t" "pr_status p = PENDING" "res = None"
      "g' = g\<lparr>gv_once := upsert on_request_id
             \<lparr>on_request_id = rid, on_tool_id = t, on_consumed = False, on_created_at = now, on_consumed_at = None\<rparr>
             (\<lambda>r. r\<lparr>on_tool_id := t, on_consumed := False, on_consumed_at := None\<rparr>) (gv_once g),
           gv_pending := update_where (\<lambda>r. pr_request_id r = rid)
             (\<lambda>r. r\<lparr>pr_status := APPROVED_ONCE, pr_decided_at := Some now\<rparr>) (gv_pending g)\<rparr>"
  using assms unfolding grant_once_def
  by (auto split: option.splits if_splits dest!: find_Some_in)

lemma wf_grant_once:
  assumes "gov_wf g" "grant_once now gid rid t ttl g = Inr (res, g')"
  shows "gov_wf g'"
  using assms(2)
proof (cases rule: grant_once_cases)
  case (execution r g1)
  then have "gov_wf g1" using wf_insert_grant [OF assms(1) human_grant_ok] by blast
  then show ?thesis unfolding execution(4) by (rule wf_exec_update) simp_all
next
  case (legacy p)
  then show ?thesis
    using assms(1) unfolding gov_wf_def
    by (auto simp: map_update_where update_where_in_iff intro!: distinct_upsert)
qed

end
