(* ===== verification/GrantHistory.thy ===== *)
theory GrantHistory
  imports Governance
begin

text \<open>
  What the governance store promises over time: consuming a grant, the two instances of the
  one-shot interface, the histories of store operations as a step relation, and the properties of
  approvals, grants and snapshots.
\<close>

section \<open>Consuming an execution grant\<close>

definition spent_grants :: "governance \<Rightarrow> string set" where
  "spent_grants g = {gr_grant_id r | r. r \<in> set (gv_grants g) \<and> gr_consumed r}"

definition spend :: "int \<Rightarrow> grant_row \<Rightarrow> grant_row" where
  "spend now r = r\<lparr>gr_consumed := True, gr_consumed_at := Some now\<rparr>"

lemma spend_simps [simp]:
  "gr_grant_id (spend now r) = gr_grant_id r" "gr_consumed (spend now r)"
  by (simp_all add: spend_def)

lemma oldest_first:
  assumes "sort_by (\<lambda>a b. key a < (key b :: int)) xs = r # rs"
  shows "r \<in> set xs \<and> (\<forall>x\<in>set xs. key r \<le> key x)"
proof -
  have "weak_order_on UNIV (\<lambda>a b. key a < (key b :: int))" by (auto simp: weak_order_on_def)
  from sort_by_sorted [OF this, of xs] assms have "\<forall>x\<in>set (r # rs). key r \<le> key x" by auto
  then show ?thesis using set_sort_by [of "\<lambda>a b. key a < key b" xs] assms by auto
qed

lemma consume_Some:
  assumes wf: "gov_wf g" and c: "consume_execution_grant now c g = (Some i, g')"
  obtains r where "r \<in> set (gv_grants g)" "grant_matches now c r" "i = gr_grant_id r"
    "\<forall>x\<in>set (gv_grants g). grant_matches now c x \<longrightarrow> gr_created_at r \<le> gr_created_at x"
    "g' = g\<lparr>gv_grants := update_where (\<lambda>x. gr_grant_id x = i \<and> \<not> gr_consumed x) (spend now) (gv_grants g)\<rparr>"
proof -
  from c obtain r rs where s: "sort_by (\<lambda>a b. gr_created_at a < gr_created_at b)
      (filter (grant_matches now c) (gv_grants g)) = r # rs" and i: "i = gr_grant_id r"
    and g': "g' = g\<lparr>gv_grants := update_where (\<lambda>x. gr_grant_id x = i \<and> \<not> gr_consumed x) (spend now) (gv_grants g)\<rparr>"
    unfolding consume_execution_grant_def Let_def spend_def [abs_def] by (auto split: list.splits if_splits)
  from oldest_first [OF s] have "r \<in> set (gv_grants g)" "grant_matches now c r"
    "\<forall>x\<in>set (gv_grants g). grant_matches now c x \<longrightarrow> gr_created_at r \<le> gr_created_at x" by auto
  then show thesis using that i g' by blast
qed

lemma consume_None:
  assumes wf: "gov_wf g" and c: "consume_execution_grant now c g = (None, g')"
  shows "g' = g \<and> \<not> has_execution_grant now c g"
proof (cases "sort_by (\<lambda>a b. gr_created_at a < gr_created_at b) (filter (grant_matches now c) (gv_grants g))")
  case Nil
  then show ?thesis using c
    by (auto simp: consume_execution_grant_def has_execution_grant_def list_ex_iff filter_empty_conv)
next
  case (Cons r rs)
  from oldest_first [OF Cons] have r: "r \<in> set (gv_grants g)" "\<not> gr_consumed r"
    by (auto simp: grant_matches_def)
  have "count_where (\<lambda>x. gr_grant_id x = gr_grant_id r \<and> \<not> gr_consumed x) (gv_grants g) = 1"
    by (rule count_where_unique [of gr_grant_id _ r]) (use wf r in \<open>auto simp: gov_wf_def\<close>)
  with Cons c show ?thesis by (simp add: consume_execution_grant_def Let_def)
qed

lemma grant_id_inj:
  "gov_wf g \<Longrightarrow> x \<in> set (gv_grants g) \<Longrightarrow> y \<in> set (gv_grants g) \<Longrightarrow> gr_grant_id x = gr_grant_id y \<Longrightarrow> x = y"
  unfolding gov_wf_def by (blast intro: distinct_map_eq [where f = gr_grant_id])

lemma grant_matches_human:
  "gov_wf g \<Longrightarrow> r \<in> set (gv_grants g) \<Longrightarrow> grant_matches now c r \<Longrightarrow> gr_source r = ''HUMAN''"
  by (auto simp: gov_wf_def grant_ok_def grant_matches_def)

lemma grant_ok_spend: "grant_ok r \<Longrightarrow> grant_ok (spend now r)"
  by (auto simp: grant_ok_def spend_def)

lemma wf_spend:
  assumes "gov_wf g"
  shows "gov_wf (g\<lparr>gv_grants := update_where P (spend now) (gv_grants g)\<rparr>)"
  using assms unfolding gov_wf_def
  by (auto simp: map_update_where update_where_in_iff grant_ok_spend)

lemma wf_consume:
  assumes "gov_wf g" "consume_execution_grant now c g = (x, g')"
  shows "gov_wf g'"
proof (cases x)
  case None
  then show ?thesis using consume_None [OF assms(1)] assms by auto
next
  case (Some i)
  with assms(2) have "consume_execution_grant now c g = (Some i, g')" by simp
  then show ?thesis
    by (rule consume_Some [OF assms(1)]) (simp add: wf_spend [OF assms(1)])
qed

lemma spent_after:
  assumes "gov_wf g" "r \<in> set (gv_grants g)" "\<not> gr_consumed r"
  shows "gr_grant_id r \<notin> spent_grants g"
    and "spent_grants (g\<lparr>gv_grants := update_where (\<lambda>x. gr_grant_id x = gr_grant_id r \<and> \<not> gr_consumed x)
           (spend now) (gv_grants g)\<rparr>) = insert (gr_grant_id r) (spent_grants g)"
proof -
  have inj: "x = r" if "x \<in> set (gv_grants g)" "gr_grant_id x = gr_grant_id r" for x
    using grant_id_inj [OF assms(1) that(1) assms(2) that(2)] .
  then show fresh: "gr_grant_id r \<notin> spent_grants g"
    using assms(3) by (auto simp: spent_grants_def)
  let ?u = "update_where (\<lambda>x. gr_grant_id x = gr_grant_id r \<and> \<not> gr_consumed x) (spend now) (gv_grants g)"
  have old: "gr_grant_id y \<in> insert (gr_grant_id r) (spent_grants g)" if "y \<in> set ?u" "gr_consumed y" for y
    using that by (auto simp: update_where_in_iff spent_grants_def split: if_splits)
  have new: "spend now r \<in> set ?u"
    unfolding update_where_in_iff using assms(2,3) by (intro bexI [of _ r]) simp_all
  have keep: "x \<in> set ?u" if "x \<in> set (gv_grants g)" "gr_consumed x" for x
    unfolding update_where_in_iff using that by (intro bexI [of _ x]) simp_all
  show "spent_grants (g\<lparr>gv_grants := ?u\<rparr>) = insert (gr_grant_id r) (spent_grants g)" (is "?L = ?R")
  proof
    show "?L \<subseteq> ?R" using old by (auto simp: spent_grants_def)
    have "gr_grant_id r \<in> ?L"
      unfolding spent_grants_def using new by (intro CollectI exI [of _ "spend now r"]) simp
    then show "?R \<subseteq> ?L" using keep by (auto simp: spent_grants_def)
  qed
qed

lemma consume_Some_spent:
  assumes "gov_wf g" "consume_execution_grant now c g = (Some i, g')"
  shows "i \<notin> spent_grants g \<and> spent_grants g' = insert i (spent_grants g)"
  using assms
proof (rule consume_Some)
  fix r
  assume r: "r \<in> set (gv_grants g)" "grant_matches now c r" "i = gr_grant_id r"
    and g': "g' = g\<lparr>gv_grants := update_where (\<lambda>x. gr_grant_id x = i \<and> \<not> gr_consumed x) (spend now) (gv_grants g)\<rparr>"
  then have "\<not> gr_consumed r" by (simp add: grant_matches_def)
  then show ?thesis using spent_after(1) [OF assms(1) r(1)] spent_after(2) [OF assms(1) r(1), of now] unfolding g' r(3) by simp
qed

lemma has_iff_consume:
  assumes "gov_wf g"
  shows "has_execution_grant now c g \<longleftrightarrow> fst (consume_execution_grant now c g) \<noteq> None"
proof (cases "consume_execution_grant now c g")
  case (Pair x g')
  show ?thesis
  proof (cases x)
    case None
    then show ?thesis using consume_None [OF assms] Pair by auto
  next
    case (Some i)
    with Pair consume_Some [OF assms, of now c i g'] have "has_execution_grant now c g"
      by (auto simp: has_execution_grant_def list_ex_iff)
    with Pair Some show ?thesis by simp
  qed
qed

interpretation exec_grants: one_shot gov_wf
  "\<lambda>(now, c). has_execution_grant now c" "\<lambda>(now, c). consume_execution_grant now c" spent_grants
proof (unfold_locales, goal_cases)
  case (1 s k)
  then show ?case using wf_consume [OF 1] by (cases k) (metis case_prod_conv prod.collapse)
next
  case (2 s k)
  then show ?case using has_iff_consume by (cases k) simp
next
  case (3 s k g)
  then show ?case using consume_Some_spent [OF 3(1)] by (cases k) (metis case_prod_conv prod.collapse)
next
  case (4 s k)
  then show ?case using consume_None [OF 4(1)] by (cases k) (metis case_prod_conv prod.collapse)
qed


section \<open>The legacy approvals\<close>

definition spent_once :: "governance \<Rightarrow> string set" where
  "spent_once g = {on_request_id r | r. r \<in> set (gv_once g) \<and> on_consumed r}"

definition once_hit :: "string \<Rightarrow> string \<Rightarrow> once_row \<Rightarrow> bool" where
  "once_hit rid t r \<longleftrightarrow> on_request_id r = rid \<and> on_tool_id r = t \<and> \<not> on_consumed r"

lemma consume_once_eq:
  "consume_once now rid t g = (count_where (once_hit rid t) (gv_once g) = 1,
     g\<lparr>gv_once := update_where (once_hit rid t) (\<lambda>r. r\<lparr>on_consumed := True, on_consumed_at := Some now\<rparr>) (gv_once g)\<rparr>)"
  by (simp add: consume_once_def Let_def once_hit_def [abs_def])

lemma has_once_eq: "has_unconsumed_once rid t g \<longleftrightarrow> (\<exists>r\<in>set (gv_once g). once_hit rid t r)"
  by (auto simp: has_unconsumed_once_def list_ex_iff once_hit_def)

lemma has_once_count:
  assumes "gov_wf g"
  shows "has_unconsumed_once rid t g \<longleftrightarrow> count_where (once_hit rid t) (gv_once g) = 1"
proof
  assume "has_unconsumed_once rid t g"
  then obtain r where "r \<in> set (gv_once g)" "once_hit rid t r" by (auto simp: has_once_eq)
  then show "count_where (once_hit rid t) (gv_once g) = 1"
    by (intro count_where_unique [of on_request_id _ r])
      (use assms in \<open>auto simp: gov_wf_def once_hit_def\<close>)
next
  assume one: "count_where (once_hit rid t) (gv_once g) = 1"
  show "has_unconsumed_once rid t g"
  proof (rule ccontr)
    assume "\<not> has_unconsumed_once rid t g"
    then have "count_where (once_hit rid t) (gv_once g) = 0"
      by (simp add: has_once_eq count_where_0_iff)
    with one show False by simp
  qed
qed

lemma wf_consume_once: "gov_wf g \<Longrightarrow> gov_wf (snd (consume_once now rid t g))"
  unfolding gov_wf_def consume_once_eq by (auto simp: map_update_where)

lemma spent_once_hit:
  assumes "gov_wf g" "has_unconsumed_once rid t g"
  shows "rid \<notin> spent_once g \<and> spent_once (snd (consume_once now rid t g)) = insert rid (spent_once g)"
proof -
  from assms(2) obtain r where r: "r \<in> set (gv_once g)" "once_hit rid t r" by (auto simp: has_once_eq)
  have inj: "x = r" if "x \<in> set (gv_once g)" "on_request_id x = on_request_id r" for x
    using assms(1) distinct_map_eq [OF _ that(1) r(1) that(2)] by (simp add: gov_wf_def)
  have "rid \<notin> spent_once g" using inj r by (auto simp: spent_once_def once_hit_def)
  moreover have "spent_once (snd (consume_once now rid t g)) = insert rid (spent_once g)"
  proof (intro equalityI subsetI)
    fix i
    assume "i \<in> spent_once (snd (consume_once now rid t g))"
    then show "i \<in> insert rid (spent_once g)"
      by (auto simp: spent_once_def consume_once_eq update_where_in_iff once_hit_def split: if_splits)
  next
    fix i
    assume "i \<in> insert rid (spent_once g)"
    then obtain x where x: "x \<in> set (gv_once g)" "on_request_id x = i" "x = r \<or> on_consumed x"
      using r by (auto simp: spent_once_def once_hit_def)
    let ?f = "\<lambda>r. r\<lparr>on_consumed := True, on_consumed_at := Some now\<rparr>"
    define y where "y = (if once_hit rid t x then ?f x else x)"
    have "y \<in> set (update_where (once_hit rid t) ?f (gv_once g))"
      unfolding update_where_in_iff y_def by (rule bexI [OF refl x(1)])
    moreover have "on_request_id y = i" "on_consumed y" using x(2,3) r(2) by (auto simp: y_def)
    ultimately show "i \<in> spent_once (snd (consume_once now rid t g))"
      by (auto simp: spent_once_def consume_once_eq)
  qed
  ultimately show ?thesis by blast
qed

lemma consume_once_miss:
  assumes "gov_wf g" "\<not> has_unconsumed_once rid t g"
  shows "consume_once now rid t g = (False, g)"
proof -
  have "\<forall>r\<in>set (gv_once g). \<not> once_hit rid t r" using assms(2) by (simp add: has_once_eq)
  then have "update_where (once_hit rid t) f (gv_once g) = gv_once g" for f
    by (auto simp: update_where_def intro: map_idI)
  then show ?thesis using has_once_count [OF assms(1)] assms(2) by (simp add: consume_once_eq)
qed

text \<open>The request id a consumption spends, if it succeeds.\<close>

definition take_once :: "int \<times> string \<times> string \<Rightarrow> governance \<Rightarrow> string option \<times> governance" where
  "take_once k g = (case k of (now, rid, t) \<Rightarrow>
     let (ok, g') = consume_once now rid t g in (if ok then Some rid else None, g'))"

lemma take_once_eq:
  "take_once (now, rid, t) g =
     (if fst (consume_once now rid t g) then Some rid else None, snd (consume_once now rid t g))"
  by (simp add: take_once_def case_prod_unfold Let_def)

lemma fst_consume_once: "gov_wf g \<Longrightarrow> fst (consume_once now rid t g) = has_unconsumed_once rid t g"
  using has_once_count by (simp add: consume_once_eq)

interpretation legacy_once: one_shot gov_wf "\<lambda>(now, rid, t). has_unconsumed_once rid t" take_once spent_once
proof (unfold_locales, goal_cases)
  case (1 s k)
  then show ?case using wf_consume_once by (cases k) (simp add: take_once_eq)
next
  case (2 s k)
  then show ?case using fst_consume_once by (cases k) (simp add: take_once_eq)
next
  case (3 s k g)
  obtain now rid t where k: "k = (now, rid, t)" by (cases k)
  from 3 have "has_unconsumed_once rid t s" "g = rid"
    using fst_consume_once [OF 3(1)] by (auto simp: k take_once_eq split: if_splits)
  then show ?case using spent_once_hit [OF 3(1)] by (simp add: k take_once_eq)
next
  case (4 s k)
  obtain now rid t where k: "k = (now, rid, t)" by (cases k)
  from 4 have "\<not> has_unconsumed_once rid t s"
    using fst_consume_once [OF 4(1)] by (auto simp: k take_once_eq split: if_splits)
  then show ?case using consume_once_miss [OF 4(1)] by (simp add: k take_once_eq)
qed

section \<open>Histories\<close>

text \<open>
  One step per operation of the store. \<open>Granted\<close> records the time, the new grant and the approved row, \<open>Consumed\<close> the
  invocation a grant was spent on; every other operation, and a consumption that finds nothing, is
  \<open>Internal\<close>. An operation that raises is no step, because its transaction is rolled back.
\<close>

datatype gov_event = Granted int string exec_row | Consumed int invocation string | Internal

inductive gov_step :: "(string \<Rightarrow> string) \<Rightarrow> governance \<Rightarrow> gov_event \<Rightarrow> governance \<Rightarrow> bool" for sha where
  st_pending: "record_pending_approval now rid i t cap c a rc rsn g = Inr g' \<Longrightarrow> gov_step sha g Internal g'"
| st_execution: "record_execution_approval sha now c a rsn i g = Inr g' \<Longrightarrow> gov_step sha g Internal g'"
| st_stop: "gov_step sha g Internal (set_emergency_stop b g)"
| st_exception: "add_tool_exception now t g = Inr g' \<Longrightarrow> gov_step sha g Internal g'"
| st_unexception: "gov_step sha g Internal (remove_tool_exception t g)"
| st_override: "set_capability_override now cap c g = Inr g' \<Longrightarrow> gov_step sha g Internal g'"
| st_unoverride: "gov_step sha g Internal (remove_capability_override cap g)"
| st_grant: "grant_once now gid rid t ttl g = Inr (Some i, g') \<Longrightarrow>
    find (\<lambda>r. er_request_id r = rid \<and> er_tool_id r = t \<and> er_status r = PENDING) (gv_exec g) = Some r \<Longrightarrow>
    gov_step sha g (Granted now i r) g'"
| st_grant_legacy: "grant_once now gid rid t ttl g = Inr (None, g') \<Longrightarrow> gov_step sha g Internal g'"
| st_consume: "consume_execution_grant now c g = (Some i, g') \<Longrightarrow> gov_step sha g (Consumed now c i) g'"
| st_consume_none: "consume_execution_grant now c g = (None, g') \<Longrightarrow> gov_step sha g Internal g'"
| st_auto: "record_auto_execution sha now gid c src g = Inr (i, g') \<Longrightarrow> gov_step sha g Internal g'"
| st_once: "consume_once now rid t g = (b, g') \<Longrightarrow> gov_step sha g Internal g'"

inductive gov_run :: "(string \<Rightarrow> string) \<Rightarrow> governance \<Rightarrow> gov_event list \<Rightarrow> governance \<Rightarrow> bool" for sha where
  gr_nil: "gov_run sha g [] g"
| gr_step: "gov_run sha g es g1 \<Longrightarrow> gov_step sha g1 e g2 \<Longrightarrow> gov_run sha g (es @ [e]) g2"

inductive_cases gov_step_Granted: "gov_step sha g (Granted now i r) g'"
inductive_cases gov_step_Consumed: "gov_step sha g (Consumed now c i) g'"
inductive_cases gov_step_Internal: "gov_step sha g Internal g'"

lemma wf_gov_step: "gov_step sha g e g' \<Longrightarrow> gov_wf g \<Longrightarrow> gov_wf g'"
  by (induction rule: gov_step.induct)
    (auto intro: wf_record_pending wf_record_execution wf_emergency_stop wf_add_exception wf_set_override
      wf_removals wf_grant_once wf_consume wf_record_auto dest: wf_consume_once [of _ _ _ _] simp: consume_once_eq)


section \<open>Every consumption has its own approval\<close>

definition binds :: "exec_row \<Rightarrow> invocation \<Rightarrow> bool" where
  "binds e c \<longleftrightarrow>
     er_agent_id e = ic_agent_id c \<and> er_run_id e = ic_run_id c \<and> er_tool_id e = ic_tool_id c \<and>
     er_capability e = ic_capability c \<and> er_repository e = ic_repository c \<and>
     or_empty (er_branch e) = or_empty (ic_branch c) \<and> er_args_hash e = ic_args_hash c"

definition granted_ids :: "gov_event list \<Rightarrow> string list" where
  "granted_ids es = concat (map (\<lambda>e. case e of Granted _ i _ \<Rightarrow> [i] | _ \<Rightarrow> []) es)"

definition consumed_ids :: "gov_event list \<Rightarrow> string list" where
  "consumed_ids es = concat (map (\<lambda>e. case e of Consumed _ _ i \<Rightarrow> [i] | _ \<Rightarrow> []) es)"

definition justified :: "gov_event list \<Rightarrow> bool" where
  "justified es \<longleftrightarrow> (\<forall>k now c i. k < length es \<longrightarrow> es ! k = Consumed now c i \<longrightarrow>
     (\<exists>j<k. \<exists>t e. es ! j = Granted t i e \<and> binds e c \<and> now < t + 900))"

definition row_from :: "grant_row \<Rightarrow> int \<Rightarrow> exec_row \<Rightarrow> bool" where
  "row_from r t e \<longleftrightarrow>
     gr_agent_id r = er_agent_id e \<and> gr_run_id r = er_run_id e \<and> gr_tool_id r = er_tool_id e \<and>
     gr_capability r = er_capability e \<and> gr_repository r = er_repository e \<and>
     gr_branch r = er_branch e \<and> gr_args_hash r = er_args_hash e \<and> gr_expires_at r \<le> t + 900"

definition history_ok :: "gov_event list \<Rightarrow> governance \<Rightarrow> bool" where
  "history_ok es g \<longleftrightarrow> gov_wf g \<and>
     (\<forall>r\<in>set (gv_grants g). gr_source r = ''HUMAN'' \<longrightarrow>
        (\<exists>t e. Granted t (gr_grant_id r) e \<in> set es \<and> row_from r t e)) \<and>
     distinct (consumed_ids es) \<and> set (consumed_ids es) \<subseteq> spent_grants g \<and>
     distinct (granted_ids es) \<and> set (granted_ids es) \<subseteq> gr_grant_id ` set (gv_grants g) \<and>
     justified es"

lemma event_ids_simps [simp]:
  "granted_ids [] = []" "consumed_ids [] = []"
  "granted_ids (es @ [Internal]) = granted_ids es" "consumed_ids (es @ [Internal]) = consumed_ids es"
  "granted_ids (es @ [Granted t i e]) = granted_ids es @ [i]" "consumed_ids (es @ [Granted t i e]) = consumed_ids es"
  "granted_ids (es @ [Consumed n c i]) = granted_ids es" "consumed_ids (es @ [Consumed n c i]) = consumed_ids es @ [i]"
  by (simp_all add: granted_ids_def consumed_ids_def)

lemma justified_snoc:
  assumes "justified es"
    and "\<And>now c i. e = Consumed now c i \<Longrightarrow> \<exists>t r. Granted t i r \<in> set es \<and> binds r c \<and> now < t + 900"
  shows "justified (es @ [e])"
  unfolding justified_def
proof (intro allI impI)
  fix k now c i
  assume k: "k < length (es @ [e])" and eq: "(es @ [e]) ! k = Consumed now c i"
  have "\<exists>j<length es. j < k \<and> (\<exists>t r. es ! j = Granted t i r \<and> binds r c \<and> now < t + 900)"
  proof (cases "k < length es")
    case True
    with assms(1) eq show ?thesis
      unfolding justified_def by (metis nth_append order_less_trans)
  next
    case False
    with k eq have "k = length es" "e = Consumed now c i" by (auto simp: nth_append)
    with assms(2) [of now c i] show ?thesis by (metis in_set_conv_nth)
  qed
  then show "\<exists>j<k. \<exists>t r. (es @ [e]) ! j = Granted t i r \<and> binds r c \<and> now < t + 900"
    by (metis nth_append)
qed

lemma internal_grants:
  assumes "gov_step sha g Internal g'" "gov_wf g"
  shows "\<exists>new. gv_grants g' = gv_grants g @ new \<and> (\<forall>r\<in>set new. gr_source r \<noteq> ''HUMAN'')"
  using assms(1)
proof (cases rule: gov_step.cases)
  case (st_grant_legacy now gid rid t ttl)
  from st_grant_legacy(1) show ?thesis by (cases rule: grant_once_cases) auto
next
  case (st_consume_none now c)
  then have "g' = g" using consume_None [OF assms(2), of now c g'] by simp
  then show ?thesis by simp
next
  case (st_auto now gid c src i)
  then show ?thesis
    by (auto simp: record_auto_execution_def insert_grant_Inr auto_grant_def split: if_splits)
qed (auto simp: gov_op_defs consume_once_eq Let_def split: if_splits)

lemma history_internal:
  assumes "history_ok es g" "gov_step sha g Internal g'"
  shows "history_ok (es @ [Internal]) g'"
proof -
  have wf: "gov_wf g" using assms(1) by (simp add: history_ok_def)
  from internal_grants [OF assms(2) wf] obtain new where
    new: "gv_grants g' = gv_grants g @ new" "\<forall>r\<in>set new. gr_source r \<noteq> ''HUMAN''" by blast
  have "spent_grants g \<subseteq> spent_grants g'" by (auto simp: spent_grants_def new(1))
  moreover have "justified (es @ [Internal])"
    using assms(1) by (intro justified_snoc) (simp_all add: history_ok_def)
  ultimately show ?thesis
    using assms(1) new wf_gov_step [OF assms(2) wf] unfolding history_ok_def by fastforce
qed

lemma history_granted:
  assumes "history_ok es g" "gov_step sha g (Granted t i e) g'"
  shows "history_ok (es @ [Granted t i e]) g'"
proof -
  have wf: "gov_wf g" using assms(1) by (simp add: history_ok_def)
  from assms(2) obtain gid rid tool ttl where *: "grant_once t gid rid tool ttl g = Inr (Some i, g')"
    and f: "find (\<lambda>r. er_request_id r = rid \<and> er_tool_id r = tool \<and> er_status r = PENDING) (gv_exec g) = Some e"
    by (cases rule: gov_step_Granted) blast
  from * f have new: "gv_grants g' = gv_grants g @ [human_grant t i ttl e]"
    "i \<notin> gr_grant_id ` set (gv_grants g)"
    by (cases rule: grant_once_cases; auto simp: guard_simps human_grant_def)+
  have row: "gr_grant_id (human_grant t i ttl e) = i" "row_from (human_grant t i ttl e) t e"
    using clamp_ttl_bounds [of ttl] by (simp_all add: human_grant_def row_from_def)
  have "spent_grants g \<subseteq> spent_grants g'" by (auto simp: spent_grants_def new(1))
  moreover have "justified (es @ [Granted t i e])"
    using assms(1) by (intro justified_snoc) (simp_all add: history_ok_def)
  ultimately show ?thesis
    using assms(1) new row wf_gov_step [OF assms(2) wf] unfolding history_ok_def by fastforce
qed

lemma history_consumed:
  assumes "history_ok es g" "gov_step sha g (Consumed now c i) g'"
  shows "history_ok (es @ [Consumed now c i]) g'"
proof -
  have wf: "gov_wf g" using assms(1) by (simp add: history_ok_def)
  have c: "consume_execution_grant now c g = (Some i, g')"
    using assms(2) by (cases rule: gov_step_Consumed)
  obtain r where r: "r \<in> set (gv_grants g)" "grant_matches now c r" "i = gr_grant_id r"
    and g': "g' = g\<lparr>gv_grants := update_where (\<lambda>x. gr_grant_id x = i \<and> \<not> gr_consumed x) (spend now) (gv_grants g)\<rparr>"
    using consume_Some [OF wf c] by blast
  note spent = consume_Some_spent [OF wf c]
  from assms(1) r(1,3) grant_matches_human [OF wf r(1,2)] obtain t e where
    te: "Granted t i e \<in> set es" "row_from r t e" unfolding history_ok_def by auto
  then have "binds e c" "now < t + 900"
    using r(2) by (auto simp: binds_def row_from_def grant_matches_def)
  then have "justified (es @ [Consumed now c i])"
    using assms(1) te by (intro justified_snoc) (auto simp: history_ok_def)
  moreover have "gr_grant_id ` set (gv_grants g') = gr_grant_id ` set (gv_grants g)"
  proof -
    have "map gr_grant_id (gv_grants g') = map gr_grant_id (gv_grants g)"
      unfolding g' by (simp add: map_update_where)
    then show ?thesis by (metis list.set_map)
  qed
  moreover have "\<exists>t e. Granted t (gr_grant_id x) e \<in> set (es @ [Consumed now c i]) \<and> row_from x t e"
    if "x \<in> set (gv_grants g')" "gr_source x = ''HUMAN''" for x
  proof -
    from that g' obtain y where "y \<in> set (gv_grants g)" "gr_grant_id x = gr_grant_id y" "gr_source y = ''HUMAN''"
      "\<And>t e. row_from x t e = row_from y t e"
      by (auto simp: update_where_in_iff spend_def row_from_def split: if_splits)
    with assms(1) show ?thesis by (auto simp: history_ok_def)
  qed
  ultimately show ?thesis
    using assms(1) spent wf_gov_step [OF assms(2) wf] by (auto simp: history_ok_def)
qed

lemma history_reachable:
  "gov_run sha g0 es g \<Longrightarrow> g0 = gov_initialize empty_governance \<Longrightarrow> history_ok es g"
proof (induction rule: gov_run.induct)
  case (gr_nil g)
  then show ?case
    using empty_gov_wf by (auto simp: history_ok_def justified_def gov_initialize_def empty_governance_def)
next
  case (gr_step g es g1 e g2)
  then show ?case
    by (cases e) (auto intro: history_internal history_granted history_consumed)
qed


section \<open>Approving a request\<close>

lemma grant_once_execution:
  assumes "find (\<lambda>r. er_request_id r = rid \<and> er_tool_id r = t \<and> er_status r = PENDING) (gv_exec g) = Some r"
    and "validate_identifier rid 100 = Inr ()" "validate_identifier t 300 = Inr ()"
    and "gid \<notin> set (map gr_grant_id (gv_grants g))"
  shows "grant_once now gid rid t ttl g = Inr (Some gid,
    g\<lparr>gv_grants := gv_grants g @ [human_grant now gid ttl r],
      gv_exec := update_where (\<lambda>r. er_request_id r = rid)
        (\<lambda>r. r\<lparr>er_status := APPROVED_ONCE, er_decided_at := Some now\<rparr>) (gv_exec g)\<rparr>)"
  using assms by (simp add: grant_once_def insert_grant_def human_grant_def)

lemma not_pending_refused:
  assumes "\<forall>r\<in>set (gv_exec g). er_request_id r = rid \<longrightarrow> er_status r \<noteq> PENDING"
    and "\<forall>r\<in>set (gv_pending g). pr_request_id r = rid \<longrightarrow> pr_status r \<noteq> PENDING"
  shows "\<exists>m. grant_once now gid rid t ttl g = Inl (ValueError m)"
proof -
  have "find (\<lambda>r. er_request_id r = rid \<and> er_tool_id r = t \<and> er_status r = PENDING) (gv_exec g) = None"
    "find (\<lambda>r. pr_request_id r = rid \<and> pr_tool_id r = t \<and> pr_status r = PENDING) (gv_pending g) = None"
    using assms by (auto simp: find_None_all)
  then show ?thesis
    by (cases "validate_identifier rid 100"; cases "validate_identifier t 300")
      (auto simp: grant_once_def dest!: validate_identifier_exn)
qed

section \<open>Snapshots\<close>

lemma newer_sorted:
  "sorted_wrt (\<lambda>a b. key b \<le> key a) (sort_by (newer key) xs)"
proof -
  have "weak_order_on UNIV (newer key)" by (auto simp: weak_order_on_def newer_def)
  from sort_by_sorted [OF this, of xs] show ?thesis by (simp add: newer_def not_less)
qed

lemma map_result_total:
  "\<forall>x\<in>set xs. \<exists>y. f x = Inr y \<Longrightarrow> \<exists>ys. map_result f xs = Inr ys"
  by (induction xs) auto

lemma sorted_take: "sorted_wrt P xs \<Longrightarrow> sorted_wrt P (take n xs)"
  by (induction xs arbitrary: n) (auto simp: take_Cons' dest: in_set_takeD)

lemma pending_views_total:
  "category_ok (pr_requested_category p) \<Longrightarrow> category_ok (pr_allowed_category p) \<Longrightarrow> \<exists>y. legacy_view p = Inr y"
  "category_ok (er_requested_category e) \<Longrightarrow> category_ok (er_allowed_category e) \<Longrightarrow> \<exists>y. exec_view e = Inr y"
  by (auto simp: legacy_view_def exec_view_def dest!: category_ok_parse)

lemma override_views_total: "category_ok (or_category r) \<Longrightarrow> \<exists>y. override_view r = Inr y"
  by (auto simp: override_view_def dest!: category_ok_parse)

lemma snapshot_exists:
  assumes "gov_wf g"
  obtains ovs ps where "map_result override_view (gv_overrides g) = Inr ovs"
    "gov_snapshot g = Inr
      \<lparr>sn_emergency_stop = (map_of (gv_global g) ''emergency_stop'' = Some ''1''),
       sn_exceptions = map xr_tool_id (gv_exceptions g), sn_overrides = ovs,
       sn_pending = take 100 (sort_by (newer pv_created_at) ps)\<rparr>"
proof -
  have "\<forall>r\<in>set (gv_overrides g). \<exists>y. override_view r = Inr y"
    using assms override_views_total unfolding gov_wf_def by auto
  from map_result_total [OF this] obtain ovs where ovs: "map_result override_view (gv_overrides g) = Inr ovs" by blast
  have "\<forall>r\<in>set (take 100 (sort_by (newer pr_created_at) (filter (\<lambda>r. pr_status r = PENDING) (gv_pending g)))).
      \<exists>y. legacy_view r = Inr y"
    using assms pending_views_total(1) unfolding gov_wf_def by (auto dest: in_set_takeD)
  from map_result_total [OF this] obtain ls where ls: "map_result legacy_view
      (take 100 (sort_by (newer pr_created_at) (filter (\<lambda>r. pr_status r = PENDING) (gv_pending g)))) = Inr ls" by blast
  have "\<forall>r\<in>set (take 100 (sort_by (newer er_created_at) (filter (\<lambda>r. er_status r = PENDING) (gv_exec g)))).
      \<exists>y. exec_view r = Inr y"
    using assms pending_views_total(2) unfolding gov_wf_def by (auto dest: in_set_takeD)
  from map_result_total [OF this] obtain xs where xs: "map_result exec_view
      (take 100 (sort_by (newer er_created_at) (filter (\<lambda>r. er_status r = PENDING) (gv_exec g)))) = Inr xs" by blast
  show thesis
    by (rule that [OF ovs, of "ls @ xs"]) (simp add: gov_snapshot_def ovs ls xs)
qed

section \<open>Properties\<close>

definition demo_invocation :: invocation where
  "demo_invocation = \<lparr>ic_agent_id = ''hermes-builder'', ic_role = ''builder'', ic_run_id = ''r1'',
     ic_tool_id = ''github:push_files'', ic_capability = ''repository.files.modify'', ic_category = MEDIUM,
     ic_repository = ''o/r'', ic_branch = Some ''agent/x'', ic_paths = [], ic_args_hash = ''h'', ic_permissions = []\<rparr>"

definition demo_pending :: governance where
  "demo_pending = (case record_execution_approval (\<lambda>_. ''req'') 0 demo_invocation LOW ''why'' None
     (gov_initialize empty_governance) of Inr g \<Rightarrow> g | Inl _ \<Rightarrow> empty_governance)"

definition demo_request :: string where
  "demo_request = ''req''"

definition demo_row :: exec_row where
  "demo_row = \<lparr>er_request_id = demo_request, er_intent = ''execute github:push_files'',
     er_agent_id = ''hermes-builder'', er_run_id = ''r1'', er_tool_id = ''github:push_files'',
     er_capability = ''repository.files.modify'', er_repository = ''o/r'', er_branch = Some ''agent/x'',
     er_args_hash = ''h'', er_requested_category = 2, er_allowed_category = 1, er_reason = ''why'',
     er_status = PENDING, er_created_at = 0, er_decided_at = None\<rparr>"

definition demo_granted :: governance where
  "demo_granted = empty_governance\<lparr>gv_global := [(''emergency_stop'', ''0'')],
     gv_exec := [demo_row\<lparr>er_status := APPROVED_ONCE, er_decided_at := Some 5\<rparr>],
     gv_grants := [human_grant 5 ''g1'' 60 demo_row]\<rparr>"

lemma demo_pending_eq:
  "demo_pending = empty_governance\<lparr>gv_global := [(''emergency_stop'', ''0'')], gv_exec := [demo_row]\<rparr>"
  by (simp add: demo_pending_def record_execution_approval_def gov_initialize_def empty_governance_def
      upsert_def demo_invocation_def demo_row_def demo_request_def approval_intent_def Let_def
      invocation_request_id_def)

lemma demo_granted_wf: "gov_wf demo_granted"
  by (simp add: gov_wf_def demo_granted_def empty_governance_def demo_row_def category_ok_def human_grant_ok)

text \<open>
  (C1) Human authority is one-shot and traceable. In every history of store operations from an
  empty database, however the operations of all agents and operators are interleaved, no grant is
  spent twice, and every spending is preceded by an approval of its own: of a pending row with the
  same agent, run, tool, capability, repository, branch and arguments hash, less than 900 seconds
  earlier. So there are never more executions under human authority than approvals.
\<close>

theorem one_shot_history:
  assumes "gov_run sha (gov_initialize empty_governance) es g"
  shows "distinct (consumed_ids es) \<and> distinct (granted_ids es) \<and>
    set (consumed_ids es) \<subseteq> set (granted_ids es) \<and> length (consumed_ids es) \<le> length (granted_ids es) \<and>
    (\<forall>k now c i. k < length es \<longrightarrow> es ! k = Consumed now c i \<longrightarrow>
       (\<exists>j<k. \<exists>t e. es ! j = Granted t i e \<and> binds e c \<and> now < t + 900))"
proof -
  from history_reachable [OF assms refl] have d: "distinct (consumed_ids es)" "distinct (granted_ids es)"
    and j: "justified es" by (auto simp: history_ok_def)
  have sub: "set (consumed_ids es) \<subseteq> set (granted_ids es)"
  proof
    fix i assume "i \<in> set (consumed_ids es)"
    then obtain now c where "Consumed now c i \<in> set es"
      by (auto simp: consumed_ids_def split: gov_event.splits)
    then obtain k where "k < length es" "es ! k = Consumed now c i" by (auto simp: in_set_conv_nth)
    with j obtain l t e where "l < length es" "es ! l = Granted t i e"
      unfolding justified_def by (meson order_less_trans)
    then show "i \<in> set (granted_ids es)"
      unfolding granted_ids_def by (force simp: in_set_conv_nth)
  qed
  with d have "length (consumed_ids es) \<le> length (granted_ids es)"
    by (metis card_mono distinct_card finite_set)
  with d sub j show ?thesis by (simp add: justified_def)
qed

theorem one_shot_history_witness:
  "\<exists>es g. gov_run (\<lambda>_. ''req'') (gov_initialize empty_governance) es g \<and> consumed_ids es = [''g1''] \<and>
     set (consumed_ids es) \<subseteq> set (granted_ids es)"
proof -
  let ?g0 = "gov_initialize empty_governance" and ?t = "''github:push_files''"
  have 1: "gov_step (\<lambda>_. ''req'') ?g0 Internal demo_pending"
    by (rule st_execution [of _ 0 demo_invocation LOW "''why''" None])
      (simp add: demo_pending_def record_execution_approval_def Let_def)
  have find: "find (\<lambda>r. er_request_id r = demo_request \<and> er_tool_id r = ?t \<and> er_status r = PENDING)
      (gv_exec demo_pending) = Some demo_row"
    by (simp add: demo_pending_eq demo_row_def)
  have valid: "validate_identifier demo_request 100 = Inr ()" "validate_identifier ?t 300 = Inr ()"
    by code_simp+
  have "grant_once 5 ''g1'' demo_request ?t 60 demo_pending = Inr (Some ''g1'', demo_granted)"
    using grant_once_execution [OF find valid, of "''g1''" 5 60]
    by (simp add: demo_pending_eq demo_granted_def empty_governance_def demo_row_def)
  from st_grant [OF this find] have 2: "gov_step (\<lambda>_. ''req'') demo_pending (Granted 5 ''g1'' demo_row) demo_granted" .
  have "fst (consume_execution_grant 6 demo_invocation demo_granted) = Some ''g1''" by code_simp
  then have 3: "gov_step (\<lambda>_. ''req'') demo_granted (Consumed 6 demo_invocation ''g1'')
      (snd (consume_execution_grant 6 demo_invocation demo_granted))"
    by (intro st_consume) (metis prod.collapse)
  note run = gr_step [OF gr_step [OF gr_step [OF gr_nil 1] 2] 3]
  from one_shot_history [OF run] run show ?thesis
    by (intro exI conjI) (assumption, simp add: consumed_ids_def, blast)
qed

text \<open>
  Spending a grant is exact. In a well-formed store it succeeds precisely when the query
  that precedes it finds a grant; it then takes the oldest grant whose agent, run, tool, capability,
  repository, branch and arguments hash are those of the invocation, which was approved by a human,
  was unspent and has not expired, marks that row spent and changes nothing else. When it fails the
  store is unchanged.
\<close>

theorem consume_exact:
  assumes "gov_wf g" "consume_execution_grant now c g = (x, g')"
  shows "(x \<noteq> None \<longleftrightarrow> has_execution_grant now c g) \<and>
    (case x of None \<Rightarrow> g' = g
     | Some i \<Rightarrow> \<exists>r\<in>set (gv_grants g). gr_grant_id r = i \<and> grant_matches now c r \<and> gr_source r = ''HUMAN'' \<and>
         (\<forall>y\<in>set (gv_grants g). grant_matches now c y \<longrightarrow> gr_created_at r \<le> gr_created_at y) \<and>
         g' = g\<lparr>gv_grants := map (\<lambda>y. if gr_grant_id y = i
                   then y\<lparr>gr_consumed := True, gr_consumed_at := Some now\<rparr> else y) (gv_grants g)\<rparr>)"
proof (cases x)
  case None
  then show ?thesis using consume_None [OF assms(1), of now c g'] assms(2) by simp
next
  case (Some i)
  with assms(2) have c: "consume_execution_grant now c g = (Some i, g')" by simp
  obtain r where r: "r \<in> set (gv_grants g)" "grant_matches now c r" "i = gr_grant_id r"
    "\<forall>y\<in>set (gv_grants g). grant_matches now c y \<longrightarrow> gr_created_at r \<le> gr_created_at y"
    and g': "g' = g\<lparr>gv_grants := update_where (\<lambda>x. gr_grant_id x = i \<and> \<not> gr_consumed x) (spend now) (gv_grants g)\<rparr>"
    using consume_Some [OF assms(1) c] by blast
  have inj: "y = r" if "y \<in> set (gv_grants g)" "gr_grant_id y = i" for y
    using grant_id_inj [OF assms(1) that(1) r(1)] that(2) r(3) by simp
  have "\<not> gr_consumed r" using r(2) by (simp add: grant_matches_def)
  then have "update_where (\<lambda>x. gr_grant_id x = i \<and> \<not> gr_consumed x) (spend now) (gv_grants g)
    = map (\<lambda>y. if gr_grant_id y = i then y\<lparr>gr_consumed := True, gr_consumed_at := Some now\<rparr> else y) (gv_grants g)"
    using inj unfolding update_where_def spend_def by (intro map_cong) auto
  moreover have "has_execution_grant now c g" using r(1,2) by (auto simp: has_execution_grant_def list_ex_iff)
  ultimately show ?thesis using Some r g' grant_matches_human [OF assms(1) r(1,2)] by auto
qed

theorem consume_exact_witness:
  "fst (consume_execution_grant 6 demo_invocation demo_granted) \<noteq> None \<and>
   snd (consume_execution_grant 80 demo_invocation demo_granted) = demo_granted"
proof -
  have h: "has_execution_grant 6 demo_invocation demo_granted" "\<not> has_execution_grant 80 demo_invocation demo_granted"
    by code_simp+
  moreover have "fst (consume_execution_grant 6 demo_invocation demo_granted) \<noteq> None"
    using consume_exact [OF demo_granted_wf prod.collapse [symmetric], of 6 demo_invocation] h(1) by simp
  moreover have "snd (consume_execution_grant 80 demo_invocation demo_granted) = demo_granted"
    using consume_exact [OF demo_granted_wf prod.collapse [symmetric], of 80 demo_invocation] h(2) by (auto split: option.splits)
  ultimately show ?thesis by simp
qed

text \<open>
  Approving a pending execution request creates one grant bound to the fields of the
  stored row, valid for the requested time clamped to between 10 and 900 seconds, and closes the
  request. A second approval of the same request is refused, whatever tool it names, unless a legacy
  request with that id is pending; the execution grant itself never comes from a decided request.
\<close>

theorem grant_once_exact:
  assumes "gov_wf g" "r \<in> set (gv_exec g)" "er_status r = PENDING"
    and "grant_once now gid (er_request_id r) (er_tool_id r) ttl g = Inr (res, g')"
  shows "res = Some gid \<and> gid \<notin> gr_grant_id ` set (gv_grants g) \<and>
    gv_grants g' = gv_grants g @
      [\<lparr>gr_grant_id = gid, gr_request_id = er_request_id r, gr_source = ''HUMAN'', gr_agent_id = er_agent_id r,
        gr_run_id = er_run_id r, gr_tool_id = er_tool_id r, gr_capability = er_capability r,
        gr_repository = er_repository r, gr_branch = er_branch r, gr_args_hash = er_args_hash r,
        gr_expires_at = now + max 10 (min ttl 900), gr_consumed = False, gr_created_at = now,
        gr_consumed_at = None\<rparr>] \<and>
    ((\<forall>p\<in>set (gv_pending g). pr_request_id p = er_request_id r \<longrightarrow> pr_status p \<noteq> PENDING) \<longrightarrow>
       (\<exists>m. grant_once now' gid' (er_request_id r) t' ttl' g' = Inl (ValueError m)))"
proof -
  have uniq: "x = r" if "x \<in> set (gv_exec g)" "er_request_id x = er_request_id r" for x
    using assms(1) that assms(2) unfolding gov_wf_def by (blast intro: distinct_map_eq [where f = er_request_id])
  from assms(4) have "\<exists>g1. insert_grant (human_grant now gid ttl r) g = Inr g1 \<and> res = Some gid \<and>
      g' = g1\<lparr>gv_exec := update_where (\<lambda>x. er_request_id x = er_request_id r)
            (\<lambda>x. x\<lparr>er_status := APPROVED_ONCE, er_decided_at := Some now\<rparr>) (gv_exec g1)\<rparr>"
  proof (cases rule: grant_once_cases)
    case (execution x g1)
    then have "x = r" using uniq by (auto dest: find_Some_in)
    with execution show ?thesis by blast
  next
    case (legacy p)
    then show ?thesis using assms(2,3) by (auto simp: find_None_all)
  qed
  then have res: "res = Some gid" and new: "gid \<notin> gr_grant_id ` set (gv_grants g)"
    and g': "gv_grants g' = gv_grants g @ [human_grant now gid ttl r]" "gv_pending g' = gv_pending g"
      "gv_exec g' = update_where (\<lambda>x. er_request_id x = er_request_id r)
            (\<lambda>x. x\<lparr>er_status := APPROVED_ONCE, er_decided_at := Some now\<rparr>) (gv_exec g)"
    by (auto simp: guard_simps human_grant_def)
  have "\<forall>x\<in>set (gv_exec g'). er_request_id x = er_request_id r \<longrightarrow> er_status x \<noteq> PENDING"
    by (simp add: g'(3) update_where_ball)
  from not_pending_refused [OF this] show ?thesis
    using res new g' by (simp add: human_grant_def clamp_ttl_def)
qed

theorem grant_once_exact_witness:
  "\<exists>m. grant_once 9 ''g2'' ''req'' ''github:push_files'' 60 demo_granted = Inl (ValueError m)"
proof -
  have wf: "gov_wf demo_pending"
    by (simp add: gov_wf_def demo_pending_eq empty_governance_def demo_row_def category_ok_def)
  have r: "demo_row \<in> set (gv_exec demo_pending)" "er_status demo_row = PENDING" "gv_pending demo_pending = []"
    by (simp_all add: demo_pending_eq demo_row_def empty_governance_def)
  have find: "find (\<lambda>r. er_request_id r = demo_request \<and> er_tool_id r = ''github:push_files'' \<and> er_status r = PENDING)
      (gv_exec demo_pending) = Some demo_row"
    by (simp add: demo_pending_eq demo_row_def)
  have valid: "validate_identifier demo_request 100 = Inr ()" "validate_identifier ''github:push_files'' 300 = Inr ()"
    by code_simp+
  have "grant_once 5 ''g1'' (er_request_id demo_row) (er_tool_id demo_row) 60 demo_pending = Inr (Some ''g1'', demo_granted)"
    using grant_once_execution [OF find valid, of "''g1''" 5 60]
    by (simp add: demo_pending_eq demo_granted_def empty_governance_def demo_row_def)
  from grant_once_exact [OF wf r(1,2) this] r(3) show ?thesis by (simp add: demo_row_def demo_request_def)
qed




text \<open>
  Reading the snapshot never fails on a well-formed store: every stored category is one
  of the five. It reports the switch as it was last set, at most 100 pending approvals, newest
  first, and for each override the category that was stored.
\<close>

theorem snapshot_total:
  assumes "gov_wf g"
  shows "\<exists>s. gov_snapshot (set_emergency_stop b g) = Inr s \<and> (sn_emergency_stop s \<longleftrightarrow> b) \<and>
    length (sn_pending s) \<le> 100 \<and> sorted_wrt (\<lambda>x y. pv_created_at y \<le> pv_created_at x) (sn_pending s) \<and>
    list_all2 (\<lambda>r (k, c). k = or_capability r \<and> category_value c = or_category r) (gv_overrides g) (sn_overrides s)"
proof -
  have tabs: "gv_overrides (set_emergency_stop b g) = gv_overrides g"
    by (simp add: set_emergency_stop_def)
  have "''emergency_stop'' \<in> fst ` set (gv_global g)"
    using assms by (auto simp: gov_wf_def dest: map_of_SomeD intro: rev_image_eqI)
  then have stop: "map_of (gv_global (set_emergency_stop b g)) ''emergency_stop'' = Some (if b then ''1'' else ''0'')"
    by (simp add: set_emergency_stop_def map_of_update_where)
  obtain ovs ps where sn: "gov_snapshot (set_emergency_stop b g) = Inr
      \<lparr>sn_emergency_stop = (map_of (gv_global (set_emergency_stop b g)) ''emergency_stop'' = Some ''1''),
       sn_exceptions = map xr_tool_id (gv_exceptions (set_emergency_stop b g)), sn_overrides = ovs,
       sn_pending = take 100 (sort_by (newer pv_created_at) ps)\<rparr>"
    and ovs: "map_result override_view (gv_overrides g) = Inr ovs"
    by (rule snapshot_exists [OF wf_emergency_stop [OF assms, of b], unfolded tabs])
  have cat: "category_value c = n" if "category_of_value n = Inr c" for n c
    using that by (auto simp: category_of_value_def dest!: find_Some_in split: option.splits)
  have "list_all2 (\<lambda>r (k, c). k = or_capability r \<and> category_value c = or_category r) (gv_overrides g) ovs"
    using ovs unfolding map_result_Inr_iff by (rule list_all2_mono) (auto simp: override_view_def dest: cat)
  then show ?thesis by (simp add: sn stop sorted_take newer_sorted)
qed

theorem snapshot_total_witness: "\<exists>s. gov_snapshot (set_emergency_stop True demo_granted) = Inr s \<and> sn_emergency_stop s"
  using snapshot_total [OF demo_granted_wf, of True] by blast

text \<open>
  The audit rows of automatic executions are no authority: recording one, under any of
  the three sources it accepts, leaves every query for a grant as it was, and the row is refused
  for any other source, the human one included.
\<close>

theorem auto_execution_grants_nothing:
  "(case record_auto_execution sha now gid c source g of
      Inr (i, g') \<Rightarrow> i = gid \<and> source \<in> {''AUTO'', ''EXCEPTION'', ''CAPABILITY_OVERRIDE''} \<and>
        (\<forall>t d. has_execution_grant t d g' = has_execution_grant t d g)
    | Inl e \<Rightarrow> source \<notin> {''AUTO'', ''EXCEPTION'', ''CAPABILITY_OVERRIDE''} \<or>
        gid \<in> gr_grant_id ` set (gv_grants g))"
  by (auto simp: record_auto_execution_def insert_grant_def auto_grant_def has_execution_grant_def grant_matches_def
      split: sum.splits)

theorem auto_execution_grants_nothing_witness:
  "\<exists>g'. record_auto_execution (\<lambda>s. s) 7 ''g2'' demo_invocation ''AUTO'' demo_granted = Inr (''g2'', g') \<and>
     has_execution_grant 80 demo_invocation g' = has_execution_grant 80 demo_invocation demo_granted"
proof -
  have "\<exists>g'. record_auto_execution (\<lambda>s. s) 7 ''g2'' demo_invocation ''AUTO'' demo_granted = Inr (''g2'', g')"
    by (simp add: record_auto_execution_def insert_grant_def auto_grant_def demo_granted_def human_grant_def)
  then obtain g' where g': "record_auto_execution (\<lambda>s. s) 7 ''g2'' demo_invocation ''AUTO'' demo_granted = Inr (''g2'', g')" ..
  with auto_execution_grants_nothing [where sha = "\<lambda>s. s" and now = 7 and gid = "''g2''" and c = demo_invocation
      and source = "''AUTO''" and g = demo_granted]
  show ?thesis by auto
qed

text \<open>
  A legacy approval works once, for the tool it was given for: in a well-formed store the
  attempt succeeds exactly when an unspent approval is reported, an immediate second attempt fails,
  and an approval of another tool under the same request id is left alone.
\<close>

theorem legacy_once:
  assumes "gov_wf g"
  shows "let (ok, g') = consume_once now rid t g in
    (ok \<longleftrightarrow> has_unconsumed_once rid t g) \<and> \<not> has_unconsumed_once rid t g' \<and>
    fst (consume_once now' rid t g') = False \<and>
    (\<forall>rid' t'. (rid', t') \<noteq> (rid, t) \<longrightarrow> has_unconsumed_once rid' t' g' = has_unconsumed_once rid' t' g)"
proof -
  let ?g = "snd (consume_once now rid t g)"
  have rows: "(\<exists>r\<in>set (gv_once ?g). once_hit rid' t' r) \<longleftrightarrow>
      (rid', t') \<noteq> (rid, t) \<and> (\<exists>r\<in>set (gv_once g). once_hit rid' t' r)" for rid' t'
    unfolding consume_once_eq by (simp add: update_where_bex) (auto simp: once_hit_def)
  have "\<not> has_unconsumed_once rid t ?g" using rows [of rid t] by (simp add: has_once_eq)
  moreover from this have "fst (consume_once now' rid t ?g) = False"
    using fst_consume_once [OF wf_consume_once [OF assms]] by simp
  moreover have "has_unconsumed_once rid' t' ?g = has_unconsumed_once rid' t' g" if "(rid', t') \<noteq> (rid, t)" for rid' t'
    using rows [of rid' t'] that by (simp add: has_once_eq)
  ultimately show ?thesis
    using fst_consume_once [OF assms] by (simp add: case_prod_unfold Let_def)
qed

theorem legacy_once_witness: "\<not> has_unconsumed_once ''r'' ''t'' (snd (consume_once 1 ''r'' ''t'' demo_granted))"
  using legacy_once [OF demo_granted_wf, of 1 "''r''" "''t''"] by (simp add: case_prod_unfold Let_def)

end
