(* ===== verification/Judge.thy ===== *)
theory Judge
  imports Models
begin

text \<open>
  \<open>capability_gateway/judge.py\<close>: the request the judge is sent, and the validation of its answer.
  The HTTP exchange is the parameter \<open>post\<close>, which returns the response body or
  \<open>None\<close> for a transport failure; \<open>json.loads\<close> on bytes and on text are the
  parameters \<open>loadb\<close> and \<open>loads\<close>.
\<close>

section \<open>Access to decoded values\<close>

text \<open>\<open>v.get(k)\<close>, \<open>v[k]\<close> and \<open>v[0]\<close> on a decoded value.\<close>

fun json_get :: "json \<Rightarrow> string \<Rightarrow> json result" where
  "json_get (JObj d) k = Inr (dict_get d k)"
| "json_get _ k = Inl (AttributeError ''get'')"

fun json_key :: "json \<Rightarrow> string \<Rightarrow> json result" where
  "json_key (JObj d) k = (if dict_has d k then Inr (dict_get d k) else Inl (KeyError k))"
| "json_key _ k = Inl (TypeError ''indices must be integers'')"

fun json_first :: "json \<Rightarrow> json result" where
  "json_first (JArr xs) = (case xs of [] \<Rightarrow> Inl (IndexError ''list index out of range'') | x # _ \<Rightarrow> Inr x)"
| "json_first (JStr s) = (case s of [] \<Rightarrow> Inl (IndexError ''string index out of range'') | c # _ \<Rightarrow> Inr (JStr [c]))"
| "json_first (JObj d) = Inl (KeyError ''0'')"
| "json_first _ = Inl (TypeError ''object is not subscriptable'')"

section \<open>Validation\<close>

text \<open>
  \<open>float(n)\<close> of an integer: an overflow beyond the largest double, otherwise a value on the
  same side of 0 and of 1, which is all that \<open>_bounded_float\<close> looks at.
\<close>

definition float_of_int :: "int \<Rightarrow> pyfloat result" where
  "float_of_int i = (if 2 ^ 1024 - 2 ^ 970 \<le> \<bar>i\<bar> then Inl (OverflowError ''int too large to convert to float'')
     else Inr (Fin (of_int i)))"

definition check_unit :: "string \<Rightarrow> pyfloat \<Rightarrow> pyfloat result" where
  "check_unit name f = (if f_lt f (Fin 0) \<or> f_lt (Fin 1) f
     then Inl (ValueError (name @ '' must be between 0 and 1'')) else Inr f)"

fun bounded_float :: "json \<Rightarrow> string \<Rightarrow> pyfloat result" where
  "bounded_float (JInt i) name = result_bind (float_of_int i) (check_unit name)"
| "bounded_float (JFloat f) name = check_unit name f"
| "bounded_float _ name = Inl (ValueError (name @ '' must be numeric''))"

fun bounded_text :: "json \<Rightarrow> nat \<Rightarrow> string result" where
  "bounded_text (JStr s) limit =
     (if py_strip s = [] \<or> limit < length s then Inl (ValueError ''invalid text field'') else Inr (py_strip s))"
| "bounded_text _ limit = Inl (ValueError ''invalid text field'')"

definition capability_alphabet :: string where
  "capability_alphabet = ''abcdefghijklmnopqrstuvwxyz0123456789._-''"

definition safe_capability :: "json \<Rightarrow> string result" where
  "safe_capability v = result_bind (bounded_text v 160) (\<lambda>t.
     let text = py_lower t in
     if (\<exists>c\<in>set text. c \<notin> set capability_alphabet) \<or> CHR ''.'' \<notin> set text
     then Inl (ValueError ''canonical_capability must be a dotted identifier'') else Inr text)"

definition judge_bool :: "json \<Rightarrow> string \<Rightarrow> bool result" where
  "judge_bool v key = result_bind (json_get v key) (\<lambda>item.
     case item of JBool b \<Rightarrow> Inr b | _ \<Rightarrow> Inl (ValueError (key @ '' must be boolean'')))"

definition parse_semantics :: "json \<Rightarrow> tool_semantics result" where
  "parse_semantics v =
     result_bind (json_get v ''canonical_capability'') (\<lambda>c.
     result_bind (safe_capability c) (\<lambda>capability.
     result_bind (judge_bool v ''read'') (\<lambda>r.
     result_bind (judge_bool v ''write'') (\<lambda>w.
     result_bind (judge_bool v ''destructive'') (\<lambda>d.
     result_bind (judge_bool v ''egress'') (\<lambda>e.
     result_bind (judge_bool v ''credential_access'') (\<lambda>ca.
     result_bind (judge_bool v ''arbitrary_execution'') (\<lambda>ae.
     result_bind (judge_bool v ''open_world'') (\<lambda>ow.
     result_bind (json_get v ''rationale'') (\<lambda>ra.
     result_bind (bounded_text ra 800) (\<lambda>rationale.
     result_bind (json_get v ''confidence'') (\<lambda>co.
     result_bind (bounded_float co ''confidence'') (\<lambda>confidence.
     Inr \<lparr>ts_canonical_capability = capability, ts_read = r, ts_write = w, ts_destructive = d,
          ts_egress = e, ts_credential_access = ca, ts_arbitrary_execution = ae, ts_open_world = ow,
          ts_rationale = rationale, ts_confidence = confidence\<rparr>)))))))))))))"

section \<open>The exchange\<close>

record judge =
  jd_base_url :: string
  jd_api_key :: string
  jd_model :: string

definition judge_from_environment :: "(string \<rightharpoonup> string) \<Rightarrow> judge result" where
  "judge_from_environment environ =
    (let get = (\<lambda>k. py_strip (case environ k of Some v \<Rightarrow> v | None \<Rightarrow> []));
         base_url = get ''CAPABILITY_JUDGE_BASE_URL'';
         api_key = get ''CAPABILITY_JUDGE_API_KEY'';
         model = get ''CAPABILITY_JUDGE_MODEL''
     in if base_url = [] \<or> api_key = [] \<or> model = []
        then Inl (JudgeUnavailable ''CAPABILITY_JUDGE_BASE_URL/API_KEY/MODEL are required'')
        else Inr \<lparr>jd_base_url = rstrip_char (CHR ''/'') base_url, jd_api_key = api_key, jd_model = model\<rparr>)"

definition asdict_tool :: "tool_descriptor \<Rightarrow> json" where
  "asdict_tool t = JObj
     [(''server_id'', JStr (td_server_id t)), (''tool_name'', JStr (td_tool_name t)),
      (''description'', JStr (td_description t)), (''input_schema'', JObj (td_input_schema t)),
      (''annotations'', JObj (td_annotations t)), (''source'', JStr (td_source t)),
      (''version'', (case td_version t of Some v \<Rightarrow> JStr v | None \<Rightarrow> JNull))]"

text \<open>The request body; the constant prompt of the system message is the parameter \<open>prompt\<close>.\<close>

definition judge_payload :: "(pyfloat \<Rightarrow> string) \<Rightarrow> string \<Rightarrow> judge \<Rightarrow> string \<Rightarrow> tool_descriptor \<Rightarrow> json" where
  "judge_payload fr prompt j intent t = JObj
     [(''model'', JStr (jd_model j)), (''temperature'', JInt 0),
      (''response_format'', JObj [(''type'', JStr ''json_object'')]),
      (''messages'', JArr
        [JObj [(''role'', JStr ''system''), (''content'', JStr prompt)],
         JObj [(''role'', JStr ''user''),
               (''content'', JStr (dumps_ascii fr (JObj [(''intent'', JStr intent), (''tool'', asdict_tool t)])))]])]"

text \<open>The \<open>except\<close> clause around the decoding of the answer.\<close>

fun judge_malformed :: "exn \<Rightarrow> exn" where
  "judge_malformed (KeyError _) = JudgeUnavailable ''judge returned malformed classification''"
| "judge_malformed (IndexError _) = JudgeUnavailable ''judge returned malformed classification''"
| "judge_malformed (TypeError _) = JudgeUnavailable ''judge returned malformed classification''"
| "judge_malformed (ValueError _) = JudgeUnavailable ''judge returned malformed classification''"
| "judge_malformed e = e"

definition read_answer :: "(string \<Rightarrow> json result) \<Rightarrow> (json \<Rightarrow> json result) \<Rightarrow> string
    \<Rightarrow> (tool_semantics \<times> pyfloat) result" where
  "read_answer loadb loads raw =
     result_bind (loadb raw) (\<lambda>body.
     result_bind (json_key body ''choices'') (\<lambda>choices.
     result_bind (json_first choices) (\<lambda>choice.
     result_bind (json_key choice ''message'') (\<lambda>message.
     result_bind (json_key message ''content'') (\<lambda>content.
     result_bind (loads content) (\<lambda>answer.
     result_bind (parse_semantics answer) (\<lambda>semantics.
     result_bind (json_get answer ''intent_fit'') (\<lambda>f.
     result_bind (bounded_float f ''intent_fit'') (\<lambda>fit.
     Inr (semantics, fit))))))))))"

definition judge_classify :: "(pyfloat \<Rightarrow> string) \<Rightarrow> string \<Rightarrow> (string \<Rightarrow> json \<Rightarrow> string option)
    \<Rightarrow> (string \<Rightarrow> json result) \<Rightarrow> (json \<Rightarrow> json result) \<Rightarrow> judge \<Rightarrow> string \<Rightarrow> tool_descriptor
    \<Rightarrow> (tool_semantics \<times> pyfloat) result" where
  "judge_classify fr prompt post loadb loads j intent t =
    (case post (jd_base_url j @ ''/v1/chat/completions'') (judge_payload fr prompt j intent t) of
       None \<Rightarrow> Inl (JudgeUnavailable ''judge request failed'')
     | Some response \<Rightarrow>
         (case read_answer loadb loads (take 262144 response) of
            Inl e \<Rightarrow> Inl (judge_malformed e)
          | Inr r \<Rightarrow> Inr r))"

section \<open>What validation guarantees\<close>

text \<open>A float of the unit interval, or the NaN that \<open>_bounded_float\<close> also lets through.\<close>

definition unit_or_nan :: "pyfloat \<Rightarrow> bool" where
  "unit_or_nan f \<longleftrightarrow> f = NaN \<or> (\<exists>q. f = Fin q \<and> 0 \<le> q \<and> q \<le> 1)"

definition dotted_identifier :: "string \<Rightarrow> bool" where
  "dotted_identifier s \<longleftrightarrow> set s \<subseteq> set capability_alphabet \<and> CHR ''.'' \<in> set s \<and> length s \<le> 160"

lemma check_unit_Inr: "check_unit n f = Inr g \<longleftrightarrow> g = f \<and> unit_or_nan f"
  by (cases f) (auto simp: check_unit_def unit_or_nan_def)

lemma bounded_float_unit: "bounded_float v n = Inr f \<Longrightarrow> unit_or_nan f"
  by (cases v) (auto simp: check_unit_Inr)

lemma bounded_text_Inr:
  "bounded_text v n = Inr t \<longleftrightarrow> (\<exists>s. v = JStr s \<and> t = py_strip s \<and> t \<noteq> [] \<and> length s \<le> n)"
  by (cases v) auto

lemma safe_capability_dotted: "safe_capability v = Inr c \<Longrightarrow> dotted_identifier c"
proof -
  assume "safe_capability v = Inr c"
  then obtain s where "c = py_lower (py_strip s)" "length s \<le> 160"
    and "set c \<subseteq> set capability_alphabet" "CHR ''.'' \<in> set c"
    by (auto simp: safe_capability_def bounded_text_Inr Let_def split: if_splits)
  moreover have "length (py_lower (py_strip s)) \<le> length s"
    using py_strip_length [of s] by (simp add: py_lower_def)
  ultimately show ?thesis by (simp add: dotted_identifier_def)
qed

lemma judge_bool_Inr: "judge_bool v k = Inr b \<longleftrightarrow> (\<exists>d. v = JObj d \<and> dict_get d k = JBool b)"
  by (cases v) (auto simp: judge_bool_def split: json.splits)

lemma json_get_Inr: "json_get v k = Inr x \<longleftrightarrow> (\<exists>d. v = JObj d \<and> x = dict_get d k)"
  by (cases v) auto

lemma bounded_float_exn:
  "bounded_float v n = Inl e \<Longrightarrow> (\<exists>m. e = ValueError m) \<or> (\<exists>m i. e = OverflowError m \<and> v = JInt i)"
  by (cases v) (auto simp: check_unit_def float_of_int_def result_bind_Inl_iff split: if_splits)

lemma bounded_text_exn: "bounded_text v n = Inl e \<Longrightarrow> \<exists>m. e = ValueError m"
  by (cases v) (auto split: if_splits)


text \<open>The answers whose validation fails with an exception the \<open>except\<close> clause does not list.\<close>

definition escapes_judge :: "json \<Rightarrow> bool" where
  "escapes_judge answer \<longleftrightarrow> (case answer of
     JObj d \<Rightarrow> (\<exists>k\<in>{''confidence'', ''intent_fit''}. \<exists>i. dict_get d k = JInt i \<and> 2 ^ 1024 - 2 ^ 970 \<le> \<bar>i\<bar>)
   | _ \<Rightarrow> True)"

fun listed_exn :: "exn \<Rightarrow> bool" where
  "listed_exn (KeyError _) = True"
| "listed_exn (IndexError _) = True"
| "listed_exn (TypeError _) = True"
| "listed_exn (ValueError _) = True"
| "listed_exn _ = False"

lemma judge_malformed_listed: "listed_exn e \<Longrightarrow> \<exists>m. judge_malformed e = JudgeUnavailable m"
  by (cases e) auto

lemma json_key_exn: "json_key v k = Inl e \<Longrightarrow> listed_exn e"
  by (cases v) (auto split: if_splits)

lemma json_first_exn: "json_first v = Inl e \<Longrightarrow> listed_exn e"
  by (cases v) (auto split: list.splits)

lemma judge_bool_exn: "judge_bool (JObj d) k = Inl e \<Longrightarrow> listed_exn e"
  by (auto simp: judge_bool_def split: json.splits)

lemma bounded_float_exn_cases:
  "bounded_float v n = Inl e \<Longrightarrow> listed_exn e \<or> (\<exists>i. v = JInt i \<and> 2 ^ 1024 - 2 ^ 970 \<le> \<bar>i\<bar>)"
  by (cases v) (auto simp: check_unit_def float_of_int_def result_bind_Inl_iff split: if_splits)

lemma safe_capability_exn: "safe_capability v = Inl e \<Longrightarrow> listed_exn e"
  by (auto simp: safe_capability_def result_bind_Inl_iff Let_def dest: bounded_text_exn split: if_splits)

lemma parse_semantics_exn:
  "parse_semantics v = Inl e \<Longrightarrow> listed_exn e \<or> escapes_judge v"
proof (cases v)
  case (JObj d)
  assume "parse_semantics v = Inl e"
  then show ?thesis
    unfolding JObj
    by (auto simp: parse_semantics_def result_bind_Inl_iff escapes_judge_def
        dest!: safe_capability_exn judge_bool_exn bounded_text_exn bounded_float_exn_cases)
qed (simp_all add: escapes_judge_def)

section \<open>Properties\<close>

definition demo_answer :: json where
  "demo_answer = JObj
     [(''canonical_capability'', JStr ''Repo.File''), (''read'', JBool True), (''write'', JBool False),
      (''destructive'', JBool False), (''egress'', JBool False), (''credential_access'', JBool False),
      (''arbitrary_execution'', JBool False), (''open_world'', JBool False), (''rationale'', JStr '' r ''),
      (''confidence'', JInt 1), (''intent_fit'', JFloat (Fin (1/2)))]"

text \<open>
  A classification that passes validation is an object whose seven risk flags are booleans
  taken over unchanged; its capability is a dotted identifier of at most 160 lower-case characters,
  its rationale is non-empty, trimmed text of at most 800, and its confidence lies between 0 and 1
  or is a NaN.
\<close>

theorem parse_semantics_sound:
  assumes "parse_semantics v = Inr s"
  shows "\<exists>d. v = JObj d \<and>
    map (dict_get d) [''read'', ''write'', ''destructive'', ''egress'', ''credential_access'',
                      ''arbitrary_execution'', ''open_world'']
      = map JBool [ts_read s, ts_write s, ts_destructive s, ts_egress s, ts_credential_access s,
                   ts_arbitrary_execution s, ts_open_world s] \<and>
    dotted_identifier (ts_canonical_capability s) \<and>
    ts_rationale s \<noteq> [] \<and> length (ts_rationale s) \<le> 800 \<and> unit_or_nan (ts_confidence s)"
proof -
  from assms obtain d where v: "v = JObj d" by (auto simp: parse_semantics_def json_get_Inr)
  have len: "length (py_strip t) \<le> 800" if "length t \<le> 800" for t
    using py_strip_length [of t] that by simp
  from assms show ?thesis
    unfolding v
    by (auto simp: parse_semantics_def judge_bool_Inr bounded_text_Inr len
        dest: safe_capability_dotted bounded_float_unit)
qed

theorem parse_semantics_sound_witness:
  "\<exists>s. parse_semantics demo_answer = Inr s \<and> ts_canonical_capability s = ''repo.file''
     \<and> unit_or_nan (ts_confidence s)"
proof -
  have "case parse_semantics demo_answer of Inr s \<Rightarrow> ts_canonical_capability s = ''repo.file'' | Inl _ \<Rightarrow> False"
    by code_simp
  then obtain s where s: "parse_semantics demo_answer = Inr s" "ts_canonical_capability s = ''repo.file''"
    by (auto split: sum.splits)
  with parse_semantics_sound [OF s(1)] show ?thesis by auto
qed

text \<open>
  Whatever the judge service sends, a failed classification is reported as
  \<open>JudgeUnavailable\<close>, provided the decoded answer is an object without an integer beyond the
  double range as its confidence or fit. The decoders are assumed to raise only the exceptions
  documented for them, \<open>ValueError\<close> and \<open>TypeError\<close>.
\<close>

theorem judge_classify_failures:
  assumes "judge_classify fr prompt post loadb loads j intent t = Inl e"
    and "\<And>x e. loadb x = Inl e \<Longrightarrow> \<exists>m. e = ValueError m"
    and "\<And>x e. loads x = Inl e \<Longrightarrow> \<exists>m. e = ValueError m \<or> e = TypeError m"
    and "\<And>x a. loads x = Inr a \<Longrightarrow> \<not> escapes_judge a"
  shows "\<exists>m. e = JudgeUnavailable m"
proof (cases "post (jd_base_url j @ ''/v1/chat/completions'') (judge_payload fr prompt j intent t)")
  case None
  with assms(1) show ?thesis by (auto simp: judge_classify_def)
next
  case (Some raw)
  with assms(1) obtain e' where "read_answer loadb loads (take 262144 raw) = Inl e'" "e = judge_malformed e'"
    by (auto simp: judge_classify_def split: sum.splits)
  moreover from this(1) have "listed_exn e'"
    unfolding read_answer_def result_bind_Inl_iff
  proof (elim disjE exE conjE)
    fix body choices choice message content answer s f
    assume *: "loads content = Inr answer" "bounded_float f ''intent_fit'' = Inl e'"
      "json_get answer ''intent_fit'' = Inr f"
    show "listed_exn e'"
      using bounded_float_exn_cases [OF *(2)] assms(4) [OF *(1)] *(3)
      by (auto simp: escapes_judge_def json_get_Inr)
  next
    fix answer content
    assume "loads content = Inr answer" "parse_semantics answer = Inl e'"
    then show "listed_exn e'" using parse_semantics_exn assms(4) by blast
  next
    fix answer content s
    assume "loads content = Inr answer" "parse_semantics answer = Inr s" "json_get answer ''intent_fit'' = Inl e'"
    then show "listed_exn e'" by (auto simp: parse_semantics_def json_get_Inr)
  qed (auto dest!: assms(2,3) json_key_exn json_first_exn)
  ultimately show ?thesis using judge_malformed_listed by simp
qed

theorem judge_classify_failures_witness:
  "\<exists>m. judge_classify (\<lambda>_. ''0'') [] (\<lambda>_ _. Some []) (\<lambda>_. Inr (JArr [])) (\<lambda>_. Inr demo_answer)
     \<lparr>jd_base_url = ''u'', jd_api_key = ''k'', jd_model = ''m''\<rparr> ''i''
     \<lparr>td_server_id = ''s'', td_tool_name = ''t'', td_description = [], td_input_schema = [],
      td_annotations = [], td_source = [], td_version = None\<rparr> = Inl (JudgeUnavailable m)"
proof -
  have "\<not> escapes_judge demo_answer" by (simp add: escapes_judge_def demo_answer_def)
  then show ?thesis
    using judge_classify_failures [of "\<lambda>_. ''0''" "[]" "\<lambda>_ _. Some []" "\<lambda>_. Inr (JArr [])" "\<lambda>_. Inr demo_answer"
        "\<lparr>jd_base_url = ''u'', jd_api_key = ''k'', jd_model = ''m''\<rparr>" "''i''"
        "\<lparr>td_server_id = ''s'', td_tool_name = ''t'', td_description = [], td_input_schema = [],
      td_annotations = [], td_source = [], td_version = None\<rparr>"]
    by (auto simp: judge_classify_def read_answer_def)
qed

end
