(* ===== verification/GithubApp.thy ===== *)
theory GithubApp
  imports Judge "HOL-Library.Product_Lexorder"
begin

text \<open>
  \<open>capability_gateway/github_app.py\<close>: the broker that mints installation tokens narrowed to
  one repository and one permission set, with its cache. Time is a rational number of seconds. The
  signed JWT, the HTTP exchange, \<open>json.loads\<close>, \<open>datetime.fromisoformat\<close> and the hash
  are parameters.
\<close>

type_synonym permissions = "(string \<times> string) list"

record provider_token =
  pt_token :: string
  pt_expires_at :: string
  pt_fingerprint :: string
  pt_repository :: string
  pt_permissions :: json

record cache_entry =
  ce_value :: provider_token
  ce_reusable_until :: rat

record broker =
  bk_app_id :: string
  bk_installation_id :: string
  bk_api_base_url :: string
  bk_cache_seconds :: int
  bk_cache :: "string \<times> permissions \<rightharpoonup> cache_entry"

text \<open>The external functions the broker calls.\<close>

record github_env =
  ge_jwt :: "string result"
  ge_post :: "string \<Rightarrow> string \<Rightarrow> json \<Rightarrow> string option"
  ge_loads :: "string \<Rightarrow> json result"
  ge_isoformat :: "string \<Rightarrow> rat option"
  ge_sha :: "string \<Rightarrow> string"

definition broker_init :: "string \<Rightarrow> string \<Rightarrow> bool \<Rightarrow> string \<Rightarrow> int \<Rightarrow> broker result" where
  "broker_init app_id installation_id key_is_file api_base_url cache_seconds =
     (if app_id = [] \<or> installation_id = [] then
        Inl (GitHubAppUnavailable ''GITHUB_APP_ID and GITHUB_APP_INSTALLATION_ID are required'')
      else if \<not> key_is_file then Inl (GitHubAppUnavailable ''GitHub App private key file is missing'')
      else Inr \<lparr>bk_app_id = app_id, bk_installation_id = installation_id,
                bk_api_base_url = rstrip_char (CHR ''/'') api_base_url,
                bk_cache_seconds = max 0 (min cache_seconds 900), bk_cache = Map.empty\<rparr>)"

definition normalize_permission :: "string \<times> string \<Rightarrow> (string \<times> string) result" where
  "normalize_permission p =
     (if fst p = [] then Inl (ValueError ''invalid GitHub App permissions'')
      else if py_lower (snd p) \<notin> {''read'', ''write''}
      then Inl (ValueError ''GitHub App permission level must be read or write'')
      else Inr (fst p, py_lower (snd p)))"

definition normalize_permissions :: "permissions \<Rightarrow> permissions result" where
  "normalize_permissions ps = result_bind (map_result normalize_permission ps) (\<lambda>out.
     if out = [] then Inl (ValueError ''at least one GitHub App permission is required'') else Inr out)"

text \<open>\<open>repository.partition(''/'')\<close> and the test on its parts; the result is the second part.\<close>

definition repository_name :: "string \<Rightarrow> string result" where
  "repository_name repository =
     (let owner = takeWhile (\<lambda>c. c \<noteq> CHR ''/'') repository; r = dropWhile (\<lambda>c. c \<noteq> CHR ''/'') repository in
      case r of [] \<Rightarrow> Inl (ValueError ''repository must be owner/name'')
      | _ # repo \<Rightarrow> if owner = [] \<or> repo = [] \<or> CHR ''/'' \<in> set repo
                   then Inl (ValueError ''repository must be owner/name'') else Inr repo)"

definition cache_key :: "string \<Rightarrow> permissions \<Rightarrow> string \<times> permissions" where
  "cache_key repository ps = (repository, sort_key id ps)"

definition token_body :: "string \<Rightarrow> permissions \<Rightarrow> json" where
  "token_body repo ps = JObj [(''repositories'', JArr [JStr repo]),
     (''permissions'', JObj (map (\<lambda>(k, v). (k, JStr v)) ps))]"

text \<open>The decoding of the response, with its \<open>except\<close> clause.\<close>

definition decode_token :: "github_env \<Rightarrow> permissions \<Rightarrow> string \<Rightarrow> (string \<times> string \<times> json) result" where
  "decode_token env ps raw =
     (case result_bind (ge_loads env raw) (\<lambda>payload.
           result_bind (json_key payload ''token'') (\<lambda>token.
           result_bind (json_key payload ''expires_at'') (\<lambda>expires_at.
           result_bind (json_get payload ''permissions'') (\<lambda>given.
           case (token, expires_at) of
             (JStr t, JStr x) \<Rightarrow>
               if t = [] then Inl (ValueError ''invalid provider token response'')
               else Inr (t, x, (case given of JObj d \<Rightarrow> JObj d | _ \<Rightarrow> JObj (map (\<lambda>(k, v). (k, JStr v)) ps)))
           | _ \<Rightarrow> Inl (ValueError ''invalid provider token response''))))) of
        Inr r \<Rightarrow> Inr r
      | Inl e \<Rightarrow> if listed_exn e then Inl (GitHubAppUnavailable ''installation token response was malformed'') else Inl e)"

definition utc_suffix :: "string \<Rightarrow> string" where
  "utc_suffix s = concat (map (\<lambda>c. if c = CHR ''Z'' then ''+00:00'' else [c]) s)"

definition parse_github_time :: "github_env \<Rightarrow> string \<Rightarrow> rat result" where
  "parse_github_time env value = (case ge_isoformat env (utc_suffix value) of
     Some t \<Rightarrow> Inr t
   | None \<Rightarrow> Inl (GitHubAppUnavailable ''invalid GitHub token expiry''))"

definition mint_fresh :: "github_env \<Rightarrow> rat \<Rightarrow> string \<Rightarrow> string \<Rightarrow> permissions \<Rightarrow> broker \<Rightarrow> (provider_token \<times> rat) result" where
  "mint_fresh env now repository repo ps b =
     result_bind (ge_jwt env) (\<lambda>jwt.
     case ge_post env (bk_api_base_url b @ ''/app/installations/'' @ bk_installation_id b @ ''/access_tokens'')
            jwt (token_body repo ps) of
       None \<Rightarrow> Inl (GitHubAppUnavailable ''installation token request failed'')
     | Some response \<Rightarrow>
         result_bind (decode_token env ps (take 262144 response)) (\<lambda>(token, expires_at, given).
         result_bind (parse_github_time env expires_at) (\<lambda>expiry.
         Inr (\<lparr>pt_token = token, pt_expires_at = expires_at, pt_fingerprint = ge_sha env token,
               pt_repository = repository, pt_permissions = given\<rparr>,
              min (expiry - 60) (now + of_int (bk_cache_seconds b))))))"

definition mint :: "github_env \<Rightarrow> rat \<Rightarrow> string \<Rightarrow> permissions \<Rightarrow> broker \<Rightarrow> provider_token result \<times> broker" where
  "mint env now repository permissions b =
     (case result_bind (repository_name repository) (\<lambda>repo.
           result_bind (normalize_permissions permissions) (\<lambda>ps. Inr (repo, ps))) of
        Inl e \<Rightarrow> (Inl e, b)
      | Inr (repo, ps) \<Rightarrow>
          let fresh = (\<lambda>_ :: unit. case mint_fresh env now repository repo ps b of
                Inl e \<Rightarrow> (Inl e, b)
              | Inr (value, reusable_until) \<Rightarrow>
                  (Inr value,
                   if now < reusable_until then
                     b\<lparr>bk_cache := (bk_cache b)(cache_key repository ps \<mapsto>
                         \<lparr>ce_value = value, ce_reusable_until = reusable_until\<rparr>)\<rparr>
                   else b))
          in case bk_cache b (cache_key repository ps) of
               Some entry \<Rightarrow> if now < ce_reusable_until entry then (Inr (ce_value entry), b) else fresh ()
             | None \<Rightarrow> fresh ())"

section \<open>Scope\<close>

text \<open>
  What GitHub documents about the endpoint, as a relation: \<open>scoped repository permissions t\<close>
  says that the token \<open>t\<close> reaches no further than the repository and the permissions. A token
  answered to a request is scoped as that request asked.
\<close>

definition answers_scoped :: "github_env \<Rightarrow> (string \<Rightarrow> permissions \<Rightarrow> string \<Rightarrow> bool) \<Rightarrow> bool" where
  "answers_scoped env scoped \<longleftrightarrow> (\<forall>url jwt repository repo ps raw t x given.
     repository_name repository = Inr repo \<longrightarrow> ge_post env url jwt (token_body repo ps) = Some raw \<longrightarrow>
     decode_token env ps (take 262144 raw) = Inr (t, x, given) \<longrightarrow> scoped repository (sort_key id ps) t)"

definition broker_ok :: "github_env \<Rightarrow> (string \<Rightarrow> permissions \<Rightarrow> string \<Rightarrow> bool) \<Rightarrow> broker \<Rightarrow> bool" where
  "broker_ok env scoped b \<longleftrightarrow> (\<forall>repository ps entry. bk_cache b (repository, ps) = Some entry \<longrightarrow>
     scoped repository ps (pt_token (ce_value entry)) \<and> pt_repository (ce_value entry) = repository \<and>
     (\<exists>expiry. parse_github_time env (pt_expires_at (ce_value entry)) = Inr expiry \<and>
        ce_reusable_until entry \<le> expiry - 60))"

text \<open>
  The interface the proxy uses: a broker whose tokens are scoped to what was asked for, whether
  they come from the provider or from the cache.
\<close>

locale token_broker =
  fixes ok :: "'b \<Rightarrow> bool"
    and issue :: "rat \<Rightarrow> string \<Rightarrow> permissions \<Rightarrow> 'b \<Rightarrow> provider_token result \<times> 'b"
    and scoped :: "string \<Rightarrow> permissions \<Rightarrow> string \<Rightarrow> bool"
  assumes issue_ok: "ok b \<Longrightarrow> ok (snd (issue t r p b))"
    and issue_scoped: "ok b \<Longrightarrow> fst (issue t r p b) = Inr tok \<Longrightarrow>
        pt_repository tok = r \<and> (\<exists>q. normalize_permissions p = Inr q \<and> scoped r (sort_key id q) (pt_token tok))"
begin

lemma issue_all_scoped:
  assumes "ok b" "fst (issue t r p b) = Inr tok" "fst (issue t' r' p' (snd (issue t r p b))) = Inr tok'"
  shows "pt_repository tok = r \<and> pt_repository tok' = r'"
  using assms issue_ok issue_scoped by blast

end

lemma normalize_permissions_levels:
  "normalize_permissions ps = Inr qs \<Longrightarrow> qs \<noteq> [] \<and> map fst qs = map fst ps \<and> (\<forall>(k, v)\<in>set qs. k \<noteq> [] \<and> v \<in> {''read'', ''write''})"
proof -
  assume "normalize_permissions ps = Inr qs"
  then have "list_all2 (\<lambda>x y. normalize_permission x = Inr y) ps qs" and "qs \<noteq> []"
    by (auto simp: normalize_permissions_def map_result_Inr_iff split: if_splits)
  moreover from this(1) have "map fst qs = map fst ps \<and> (\<forall>(k, v)\<in>set qs. k \<noteq> [] \<and> v \<in> {''read'', ''write''})"
    by (induction rule: list_all2_induct) (auto simp: normalize_permission_def split: if_splits)
  ultimately show ?thesis by blast
qed

lemma mint_cases:
  assumes "mint env now r p b = (res, b')"
  obtains (refused) e where "res = Inl e" "b' = b"
  | (cached) repo ps entry where "repository_name r = Inr repo" "normalize_permissions p = Inr ps"
      "bk_cache b (cache_key r ps) = Some entry" "now < ce_reusable_until entry" "res = Inr (ce_value entry)" "b' = b"
  | (fresh) repo ps v u where "repository_name r = Inr repo" "normalize_permissions p = Inr ps"
      "mint_fresh env now r repo ps b = Inr (v, u)" "res = Inr v"
      "b' = (if now < u then b\<lparr>bk_cache := (bk_cache b)(cache_key r ps \<mapsto> \<lparr>ce_value = v, ce_reusable_until = u\<rparr>)\<rparr> else b)"
proof (cases "result_bind (repository_name r) (\<lambda>repo. result_bind (normalize_permissions p) (\<lambda>ps. Inr (repo, ps)))")
  case (Inl e)
  with assms have "res = Inl e" "b' = b" by (simp_all add: mint_def)
  then show thesis by (rule refused)
next
  case (Inr rp)
  then obtain repo ps where rp: "rp = (repo, ps)" "repository_name r = Inr repo" "normalize_permissions p = Inr ps"
    by auto
  show thesis
  proof (cases "\<exists>entry. bk_cache b (cache_key r ps) = Some entry \<and> now < ce_reusable_until entry")
    case True
    with assms rp show thesis by (auto simp: mint_def intro: cached)
  next
    case False
    then have m: "mint env now r p b = (case mint_fresh env now r repo ps b of Inl e \<Rightarrow> (Inl e, b)
        | Inr (value, reusable_until) \<Rightarrow> (Inr value, if now < reusable_until then
              b\<lparr>bk_cache := (bk_cache b)(cache_key r ps \<mapsto> \<lparr>ce_value = value, ce_reusable_until = reusable_until\<rparr>)\<rparr>
            else b))"
      using rp by (auto simp: mint_def Let_def split: option.splits)
    show thesis
    proof (cases "mint_fresh env now r repo ps b")
      case (Inl e)
      with assms m show thesis by (intro refused) auto
    next
      case (Inr vu)
      obtain v u where vu: "vu = (v, u)" by (cases vu)
      show thesis
        by (rule fresh [OF rp(2,3), of v u]) (use assms m Inr in \<open>simp_all add: vu\<close>)
    qed
  qed
qed

lemma mint_fresh_Inr:
  assumes "mint_fresh env now r repo ps b = Inr (v, u)"
  obtains url jwt raw given expiry where
    "ge_post env url jwt (token_body repo ps) = Some raw"
    "decode_token env ps (take 262144 raw) = Inr (pt_token v, pt_expires_at v, given)"
    "parse_github_time env (pt_expires_at v) = Inr expiry" "pt_repository v = r"
    "u = min (expiry - 60) (now + of_int (bk_cache_seconds b))"
  using assms unfolding mint_fresh_def by (auto split: option.splits prod.splits)

lemma mint_keeps_ok:
  assumes "answers_scoped env scoped" "broker_ok env scoped b" "mint env now r p b = (res, b')"
  shows "broker_ok env scoped b'"
  using assms(3)
proof (cases rule: mint_cases)
  case (fresh repo ps v u)
  from fresh(3) show ?thesis
  proof (rule mint_fresh_Inr)
    fix url jwt raw given expiry
    assume *: "ge_post env url jwt (token_body repo ps) = Some raw"
      "decode_token env ps (take 262144 raw) = Inr (pt_token v, pt_expires_at v, given)"
      "parse_github_time env (pt_expires_at v) = Inr expiry" "pt_repository v = r"
      "u = min (expiry - 60) (now + of_int (bk_cache_seconds b))"
    with assms(1) fresh(1) have "scoped r (sort_key id ps) (pt_token v)"
      unfolding answers_scoped_def by blast
    with * assms(2) show ?thesis
      unfolding fresh(5) by (auto simp: broker_ok_def cache_key_def)
  qed
qed (use assms(2) in auto)

lemma mint_scoped:
  assumes "answers_scoped env scoped" "broker_ok env scoped b" "mint env now r p b = (Inr tok, b')"
  shows "pt_repository tok = r \<and> (\<exists>q. normalize_permissions p = Inr q \<and> scoped r (sort_key id q) (pt_token tok))"
  using assms(3)
proof (cases rule: mint_cases)
  case (cached repo ps entry)
  with assms(2) show ?thesis unfolding broker_ok_def cache_key_def by auto
next
  case (fresh repo ps v u)
  from fresh(3) show ?thesis
  proof (rule mint_fresh_Inr)
    fix url jwt raw given expiry
    assume "ge_post env url jwt (token_body repo ps) = Some raw"
      "decode_token env ps (take 262144 raw) = Inr (pt_token v, pt_expires_at v, given)" "pt_repository v = r"
    with assms(1) fresh show ?thesis unfolding answers_scoped_def by auto
  qed
qed simp


interpretation github_broker: token_broker "\<lambda>b. answers_scoped env scoped \<and> broker_ok env scoped b" "mint env" scoped
  for env scoped
proof (unfold_locales, goal_cases)
  case (1 b t r p)
  then show ?case using mint_keeps_ok by (metis prod.collapse)
next
  case (2 b t r p tok)
  then show ?case using mint_scoped by (metis prod.collapse)
qed

section \<open>Properties\<close>

definition demo_github :: github_env where
  "demo_github = \<lparr>ge_jwt = Inr ''jwt'', ge_post = (\<lambda>_ _ _. Some ''body''),
     ge_loads = (\<lambda>_. Inr (JObj [(''token'', JStr ''tok''), (''expires_at'', JStr ''later'')])),
     ge_isoformat = (\<lambda>_. Some 1000), ge_sha = (\<lambda>s. s)\<rparr>"

definition demo_broker :: broker where
  "demo_broker = \<lparr>bk_app_id = ''1'', bk_installation_id = ''2'', bk_api_base_url = ''https://api.github.com'',
     bk_cache_seconds = 300, bk_cache = Map.empty\<rparr>"

lemma demo_mint:
  assumes "py_lower level = lv" "lv \<in> {''read'', ''write''}"
  shows "\<exists>tok. fst (mint demo_github t ''o/r'' [(''contents'', level)] demo_broker) = Inr tok"
    and "bk_cache (snd (mint demo_github 0 ''o/r'' [(''contents'', level)] demo_broker)) (''o/r'', [(''contents'', lv)]) \<noteq> None"
proof -
  have r: "repository_name ''o/r'' = Inr ''r''" by code_simp
  have "\<exists>tok u. mint demo_github t ''o/r'' [(''contents'', level)] demo_broker = (Inr tok,
      if t < u then demo_broker\<lparr>bk_cache := [cache_key ''o/r'' [(''contents'', lv)] \<mapsto> \<lparr>ce_value = tok, ce_reusable_until = u\<rparr>]\<rparr>
      else demo_broker) \<and> u = min 940 (t + 300)" for t
    using assms(2)
    by (simp add: mint_def r assms(1) normalize_permissions_def normalize_permission_def mint_fresh_def demo_github_def
        demo_broker_def decode_token_def parse_github_time_def dict_has_def)
  from this [of t] this [of 0]
  show "\<exists>tok. fst (mint demo_github t ''o/r'' [(''contents'', level)] demo_broker) = Inr tok"
    and "bk_cache (snd (mint demo_github 0 ''o/r'' [(''contents'', level)] demo_broker)) (''o/r'', [(''contents'', lv)]) \<noteq> None"
    by (auto simp: cache_key_def)
qed

lemma demo_levels: "py_lower ''Read'' = ''read''" "py_lower ''read'' = ''read''" "py_lower ''write'' = ''write''"
  by code_simp+



text \<open>
  A token is reused only while it has more than a minute to live and for no longer than
  the configured time. When the cache answers, the provider is not asked and the token's expiry is
  more than 60 seconds away; a token put into the cache may be reused until the earlier of a minute
  before its expiry and the configured number of seconds from now.
\<close>

theorem mint_cache_freshness:
  assumes "answers_scoped env scoped" "broker_ok env scoped b" "mint env now r p b = (Inr tok, b')"
  shows "(\<exists>expiry. parse_github_time env (pt_expires_at tok) = Inr expiry \<and>
            (b' = b \<and> now + 60 < expiry \<or> b' = b \<and> expiry - 60 \<le> now \<or> b' = b \<and> bk_cache_seconds b \<le> 0
             \<or> (\<exists>key until. b' = b\<lparr>bk_cache := (bk_cache b)(key \<mapsto> \<lparr>ce_value = tok, ce_reusable_until = until\<rparr>)\<rparr>
                  \<and> now < until \<and> until \<le> expiry - 60 \<and> until \<le> now + of_int (bk_cache_seconds b))))"
  using assms(3)
proof (cases rule: mint_cases)
  case (cached repo ps entry)
  from assms(2) cached(3) have "\<exists>expiry. parse_github_time env (pt_expires_at (ce_value entry)) = Inr expiry
      \<and> ce_reusable_until entry \<le> expiry - 60"
    unfolding broker_ok_def cache_key_def by blast
  then obtain expiry where "parse_github_time env (pt_expires_at tok) = Inr expiry"
    "ce_reusable_until entry \<le> expiry - 60" using cached(5) by auto
  with cached show ?thesis by (intro exI [of _ expiry]) auto
next
  case (fresh repo ps v u)
  from fresh(3) show ?thesis
  proof (rule mint_fresh_Inr)
    fix url jwt raw given expiry
    assume *: "parse_github_time env (pt_expires_at v) = Inr expiry"
      "u = min (expiry - 60) (now + of_int (bk_cache_seconds b))"
    show ?thesis
    proof (cases "now < u")
      case True
      have "tok = v" using fresh(4) by simp
      then show ?thesis using * True fresh(5)
        by (intro exI [of _ expiry] conjI disjI2 exI [of _ "cache_key r ps"] exI [of _ u]) simp_all
    next
      case False
      then have "expiry - 60 \<le> now \<or> bk_cache_seconds b \<le> 0" using *(2) by (auto simp: min_def split: if_splits)
      moreover have "tok = v" "b' = b" using fresh(4,5) False by simp_all
      ultimately show ?thesis using *(1) by (intro exI [of _ expiry]) blast
    qed
  qed
qed simp

theorem mint_cache_freshness_witness:
  "\<exists>tok b' expiry. mint demo_github 0 ''o/r'' [(''contents'', ''read'')] demo_broker = (Inr tok, b') \<and>
     parse_github_time demo_github (pt_expires_at tok) = Inr expiry"
proof -
  have ok: "answers_scoped demo_github (\<lambda>_ _ _. True)" "broker_ok demo_github (\<lambda>_ _ _. True) demo_broker"
    by (simp_all add: answers_scoped_def broker_ok_def demo_broker_def)
  let ?m = "mint demo_github 0 ''o/r'' [(''contents'', ''read'')] demo_broker"
  obtain tok where "fst ?m = Inr tok" using demo_mint(1) [OF demo_levels(2)] by blast
  then have m: "?m = (Inr tok, snd ?m)" by (metis prod.collapse)
  from mint_cache_freshness [OF ok m] m show ?thesis by blast
qed

end
