(* ===== verification/PyText.thy ===== *)
theory PyText
  imports PyJson
begin

text \<open>
  Conversions between text and other values that several components use: \<open>int\<close> on text, the percent
  encoding of \<open>urllib.parse\<close>, \<open>str\<close> and \<open>repr\<close>, and \<open>re.search\<close> as a scan.
\<close>

section \<open>Integers from text\<close>

text \<open>Python's \<open>int\<close> on text: optional sign, decimal digits with single underscores between them.\<close>

fun int_digits :: "bool \<Rightarrow> nat \<Rightarrow> string \<Rightarrow> nat option" where
  "int_digits after_digit acc [] = (if after_digit then Some acc else None)"
| "int_digits after_digit acc (c # cs) =
     (if is_digit c then int_digits True (10 * acc + (ord_of c - 48)) cs
      else if c = CHR ''_'' \<and> after_digit then int_digits False acc cs else None)"

definition py_int :: "string \<Rightarrow> int option" where
  "py_int s = (case py_strip s of
     [] \<Rightarrow> None
   | c # r \<Rightarrow>
       if c = CHR ''-'' then map_option (\<lambda>n. - int n) (int_digits False 0 r)
       else if c = CHR ''+'' then map_option int (int_digits False 0 r)
       else map_option int (int_digits False 0 (c # r)))"

section \<open>Percent encoding\<close>

text \<open>\<open>urllib.parse.quote(s, safe='''')\<close>: the UTF-8 bytes of a code point below 256.\<close>

definition utf8_bytes :: "char \<Rightarrow> nat list" where
  "utf8_bytes c = (let n = ord_of c in if n < 128 then [n] else [192 + n div 64, 128 + n mod 64])"

definition unreserved :: "char \<Rightarrow> bool" where
  "unreserved c \<longleftrightarrow> (let n = ord_of c in 97 \<le> n \<and> n \<le> 122 \<or> 65 \<le> n \<and> n \<le> 90 \<or> is_digit c) \<or>
     c \<in> {CHR ''_'', CHR ''.'', CHR ''-'', CHR ''~''}"

definition upper_hex :: "nat \<Rightarrow> char" where
  "upper_hex n = char_of (if n < 10 then 48 + n else 55 + n)"

definition url_quote :: "string \<Rightarrow> string" where
  "url_quote s = concat (map (\<lambda>c. if unreserved c then [c]
     else concat (map (\<lambda>b. [CHR ''%'', upper_hex (b div 16), upper_hex (b mod 16)]) (utf8_bytes c))) s)"

text \<open>\<open>quote_plus\<close> and \<open>urlencode\<close> on pairs of text.\<close>

definition quote_plus :: "string \<Rightarrow> string" where
  "quote_plus s = concat (map (\<lambda>c. if c = CHR '' '' then ''+'' else url_quote [c]) s)"

definition urlencode :: "(string \<times> string) list \<Rightarrow> string" where
  "urlencode params = join_str ''&'' (map (\<lambda>(k, v). quote_plus k @ ''='' @ quote_plus v) params)"

section \<open>Text of values\<close>

text \<open>\<open>str(v)\<close> is exact for strings and integers; other values are the parameter \<open>py_str\<close>.\<close>

fun json_str :: "(json \<Rightarrow> string) \<Rightarrow> json \<Rightarrow> string" where
  "json_str py_str (JStr s) = s"
| "json_str py_str (JInt i) = str_of_int i"
| "json_str py_str v = py_str v"

text \<open>\<open>str(d.get(k) or d.get(l) or \<dots> or \<close> the empty text\<open>)\<close>.\<close>

fun first_truthy :: "pydict \<Rightarrow> string list \<Rightarrow> json" where
  "first_truthy d [] = JStr []"
| "first_truthy d (k # ks) = (if truthy (dict_get d k) then dict_get d k else first_truthy d ks)"

definition str_field :: "(json \<Rightarrow> string) \<Rightarrow> pydict \<Rightarrow> string list \<Rightarrow> string" where
  "str_field py_str d ks = json_str py_str (first_truthy d ks)"

text \<open>\<open>repr(s)\<close>: the quote is chosen to need no escape where possible.\<close>

definition repr_char :: "char \<Rightarrow> char \<Rightarrow> string" where
  "repr_char q c = (let n = ord_of c in
     if c = q \<or> n = 92 then [CHR 0x5C, c]
     else if n = 9 then [CHR 0x5C, CHR ''t'']
     else if n = 10 then [CHR 0x5C, CHR ''n'']
     else if n = 13 then [CHR 0x5C, CHR ''r'']
     else if n < 32 \<or> 127 \<le> n \<and> n \<le> 160 \<or> n = 173 then [CHR 0x5C, CHR ''x'', hex_digit (n div 16), hex_digit (n mod 16)]
     else [c])"

definition py_repr :: "string \<Rightarrow> string" where
  "py_repr s = (let q = (if CHR 0x27 \<in> set s \<and> CHR 0x22 \<notin> set s then CHR 0x22 else CHR 0x27)
     in q # concat (map (repr_char q) s) @ [q])"

section \<open>Regular expressions\<close>

text \<open>
  \<open>re.search\<close> as a scan: the pattern is tried at every position, and told the character before it
  (\<open>None\<close> at the start). \<open>is_word_char\<close> is the class of word characters: letters, digits and
  numeric characters below 256, and the underscore.
\<close>

fun search_at :: "(char option \<Rightarrow> string \<Rightarrow> bool) \<Rightarrow> char option \<Rightarrow> string \<Rightarrow> bool" where
  "search_at P prev [] = P prev []"
| "search_at P prev (c # s) = (P prev (c # s) \<or> search_at P (Some c) s)"

definition is_word_char :: "char \<Rightarrow> bool" where
  "is_word_char c \<longleftrightarrow> (let n = ord_of c in
     48 \<le> n \<and> n \<le> 57 \<or> 65 \<le> n \<and> n \<le> 90 \<or> n = 95 \<or> 97 \<le> n \<and> n \<le> 122 \<or>
     n \<in> {170, 178, 179, 181, 185, 186, 188, 189, 190} \<or> 192 \<le> n \<and> n \<noteq> 215 \<and> n \<noteq> 247)"

lemma search_at_iff:
  "search_at P prev s \<longleftrightarrow> (\<exists>a b. s = a @ b \<and> P (if a = [] then prev else Some (last a)) b)"
proof (induction s arbitrary: prev)
  case (Cons c s)
  have "(\<exists>a b. c # s = a @ b \<and> P (if a = [] then prev else Some (last a)) b) \<longleftrightarrow>
    P prev (c # s) \<or> (\<exists>a b. s = a @ b \<and> P (if a = [] then Some c else Some (last a)) b)"
    (is "?L \<longleftrightarrow> _ \<or> ?R")
  proof
    assume ?L
    then obtain a b where ab: "c # s = a @ b" "P (if a = [] then prev else Some (last a)) b" by blast
    show "P prev (c # s) \<or> ?R"
    proof (cases a)
      case (Cons x a')
      with ab have "s = a' @ b \<and> P (if a' = [] then Some c else Some (last a')) b" by (auto split: if_splits)
      then show ?thesis by blast
    qed (use ab in simp)
  next
    assume "P prev (c # s) \<or> ?R"
    then show ?L
    proof
      assume ?R
      then obtain a b where "s = a @ b" "P (if a = [] then Some c else Some (last a)) b" by blast
      then show ?L by (intro exI [of _ "c # a"] exI [of _ b]) auto
    qed fastforce
  qed
  with Cons show ?case by simp
qed auto

end
