(* ===== verification/Proxy.thy ===== *)
theory Proxy
  imports GrantHistory GithubApp PyText
begin

text \<open>
  \<open>capability_gateway/mcp_proxy.py\<close>: the proxy that authenticates the agent, validates the
  actual tool call, obtains provider authority and spends or records the execution grant. A request
  reaches the store in several transactions; what other requests and operators do to the store in
  between is given by the functions of a \<open>schedule\<close>, which also holds the readings of the
  clock. The \<open>data\<close> of a refusal is not modelled, only its code and message.
\<close>

section \<open>Requests\<close>

type_synonym headers = "string \<rightharpoonup> string"

record permit =
  pm_token :: provider_token
  pm_grant_id :: "string option"
  pm_source :: string
  pm_context :: "invocation option"

record proxy =
  px_max_auto :: risk_category
  px_builder_key :: string
  px_repository :: string
  px_default_branch :: string
  px_patterns :: "string list"

text \<open>
  The checks of the constructor. \<open>urlsplit\<close> is not modelled: its \<open>scheme\<close> and
  \<open>hostname\<close> are arguments.
\<close>

definition proxy_init :: "risk_category \<Rightarrow> string \<Rightarrow> string option \<Rightarrow> string \<Rightarrow> string \<Rightarrow> string \<Rightarrow> string list \<Rightarrow> proxy result" where
  "proxy_init max_auto scheme hostname builder_key repository default_branch patterns =
     (let host = (case hostname of Some h \<Rightarrow> h | None \<Rightarrow> []) in
      if scheme \<notin> {''https'', ''http''} \<or> host = [] then
        Inl (MCPProxyUnavailable ''CAPABILITY_UPSTREAM_MCP_URL must be http(s)'')
      else if scheme = ''http'' \<and> host \<notin> {''127.0.0.1'', ''localhost'', ''::1''} then
        Inl (MCPProxyUnavailable ''cleartext upstream MCP is allowed only on loopback'')
      else if length builder_key < 24 then
        Inl (MCPProxyUnavailable ''BUILDER_CAPABILITY_GATEWAY_KEY must contain at least 24 characters'')
      else if CHR ''/'' \<notin> set repository then
        Inl (MCPProxyUnavailable ''GITHUB_REPOSITORY_FULL_NAME must be owner/name'')
      else Inr \<lparr>px_max_auto = max_auto, px_builder_key = builder_key, px_repository = repository,
                px_default_branch = default_branch, px_patterns = patterns\<rparr>)"

abbreviation blocked :: "string \<Rightarrow> string \<Rightarrow> 'a result" where
  "blocked code message \<equiv> Inl (MCPAuthorityBlocked code message [])"

definition bounded_header :: "headers \<Rightarrow> string \<Rightarrow> nat \<Rightarrow> string option result" where
  "bounded_header headers name limit =
     (case headers name of
        None \<Rightarrow> Inr None
      | Some value \<Rightarrow>
          if py_strip value = [] \<or> limit < length value \<or> list_ex is_control value
          then blocked ''invalid_request'' (''invalid '' @ name @ '' header'')
          else Inr (Some (py_strip value)))"

text \<open>\<open>hmac.compare_digest\<close> accepts ASCII text only.\<close>

definition compare_digest :: "string \<Rightarrow> string \<Rightarrow> bool result" where
  "compare_digest a b =
     (if list_ex (\<lambda>c. 128 \<le> ord_of c) a \<or> list_ex (\<lambda>c. 128 \<le> ord_of c) b
      then Inl (TypeError ''comparing strings with non-ASCII characters is not supported'') else Inr (a = b))"

definition authenticate :: "proxy \<Rightarrow> headers \<Rightarrow> unit result" where
  "authenticate px headers =
     result_bind (bounded_header headers ''X-Hermes-Role'' 100) (\<lambda>role.
     if role \<notin> {Some ''builder'', Some ''hermes-builder''}
     then blocked ''unauthorized_agent'' ''only hermes-builder is enabled in this canary''
     else result_bind (compare_digest (or_empty (headers ''Authorization'')) (''Bearer '' @ px_builder_key px)) (\<lambda>same.
       if \<not> same then blocked ''unauthorized_agent'' ''invalid gateway agent credential'' else Inr ()))"

text \<open>\<open>_parse_rpc\<close>; \<open>None\<close> from \<open>loads\<close> is a decoding error.\<close>

definition is_tool_call :: "json \<Rightarrow> bool" where
  "is_tool_call v = (case v of JObj d \<Rightarrow> dict_get d ''method'' = JStr ''tools/call'' | _ \<Rightarrow> False)"

definition parse_rpc :: "(string \<Rightarrow> json option) \<Rightarrow> string option \<Rightarrow> pydict option result" where
  "parse_rpc loads body =
     (case body of
        None \<Rightarrow> Inr None
      | Some raw \<Rightarrow> if raw = [] then Inr None else
          (case loads raw of
             None \<Rightarrow> blocked ''invalid_jsonrpc'' ''request body is not valid JSON''
           | Some (JArr items) \<Rightarrow>
               if list_ex is_tool_call items
               then blocked ''batch_tool_calls_not_supported'' ''batch tools/call is disabled'' else Inr None
           | Some (JObj d) \<Rightarrow> Inr (Some d)
           | Some _ \<Rightarrow> blocked ''invalid_jsonrpc'' ''JSON-RPC request must be an object''))"

definition call_arguments :: "pydict \<Rightarrow> (string \<times> pydict) result" where
  "call_arguments rpc =
     (case dict_get rpc ''params'' of
        JObj params \<Rightarrow>
          (let arguments = (if dict_has params ''arguments'' then dict_get params ''arguments'' else JObj []) in
           case dict_get params ''name'' of
             JStr tool \<Rightarrow>
               if tool = [] then blocked ''invalid_tool_call'' ''tools/call name is required''
               else (case arguments of JObj args \<Rightarrow> Inr (tool, args)
                     | _ \<Rightarrow> blocked ''invalid_tool_call'' ''tools/call arguments must be an object'')
           | _ \<Rightarrow> blocked ''invalid_tool_call'' ''tools/call name is required'')
      | _ \<Rightarrow> blocked ''invalid_tool_call'' ''tools/call params must be an object'')"

definition run_id_of :: "headers \<Rightarrow> string result" where
  "run_id_of headers =
     result_bind (bounded_header headers ''X-HermeTeam-Run-Id'' 200) (\<lambda>run.
     case run of
       Some r \<Rightarrow> Inr r
     | None \<Rightarrow> result_bind (bounded_header headers ''Mcp-Session-Id'' 200) (\<lambda>session.
         Inr (case session of Some s \<Rightarrow> (if s = [] then ''sessionless'' else s) | None \<Rightarrow> ''sessionless'')))"

definition deny :: "string \<Rightarrow> 'a result \<Rightarrow> 'a result" where
  "deny tool m = (case m of
     Inl (AuthorityDenied msg) \<Rightarrow> Inl (MCPAuthorityBlocked ''authority_denied'' msg [(''tool_id'', Some (''github:'' @ tool))])
   | _ \<Rightarrow> m)"

definition call_context :: "(pyfloat \<Rightarrow> string) \<Rightarrow> (string \<Rightarrow> string) \<Rightarrow> proxy \<Rightarrow> headers \<Rightarrow> pydict
    \<Rightarrow> (invocation \<times> string option) result" where
  "call_context fr sha px headers rpc =
     result_bind (call_arguments rpc) (\<lambda>(tool, args).
     result_bind (run_id_of headers) (\<lambda>run.
     result_bind (bounded_header headers ''X-HermeTeam-Intent'' 1000) (\<lambda>intent.
     result_bind (deny tool (builder_invocation_context fr sha ''hermes-builder'' run tool args (px_repository px)
        (px_default_branch px) (px_patterns px))) (\<lambda>c.
     Inr (c, intent)))))"

section \<open>Permits\<close>

record schedule =
  sc_before_check :: "governance \<Rightarrow> governance"
  sc_check_time :: int
  sc_before_record :: "governance \<Rightarrow> governance"
  sc_record_time :: int
  sc_mint_time :: rat
  sc_before_use :: "governance \<Rightarrow> governance"
  sc_use_time :: int
  sc_gid :: string

text \<open>The token broker is a parameter, the operation \<open>issue\<close> on a state of its own.\<close>

type_synonym 'b issuer = "rat \<Rightarrow> string \<Rightarrow> permissions \<Rightarrow> 'b \<Rightarrow> provider_token result \<times> 'b"

definition sn_category :: "snapshot \<Rightarrow> invocation \<Rightarrow> risk_category" where
  "sn_category sn c = (case map_of (sn_overrides sn) (ic_capability c) of Some r \<Rightarrow> r | None \<Rightarrow> ic_category c)"

definition needs_human :: "proxy \<Rightarrow> snapshot \<Rightarrow> invocation \<Rightarrow> bool" where
  "needs_human px sn c \<longleftrightarrow> px_max_auto px < sn_category sn c \<and> ic_tool_id c \<notin> set (sn_exceptions sn)"

definition auto_source :: "snapshot \<Rightarrow> invocation \<Rightarrow> string" where
  "auto_source sn c =
     (if ic_tool_id c \<in> set (sn_exceptions sn) then ''EXCEPTION''
      else if map_of (sn_overrides sn) (ic_capability c) \<noteq> None then ''CAPABILITY_OVERRIDE'' else ''AUTO'')"

text \<open>The refusals that carry data: what an operator is asked to approve, and which approval was used up meanwhile.\<close>

definition approval_data :: "(string \<Rightarrow> string) \<Rightarrow> proxy \<Rightarrow> snapshot \<Rightarrow> invocation \<Rightarrow> refusal_data" where
  "approval_data sha px sn c =
     [(''request_id'', Some (invocation_request_id sha c)), (''tool_id'', Some (ic_tool_id c)),
      (''capability'', Some (ic_capability c)), (''requested_category'', Some (category_name (sn_category sn c))),
      (''allowed_category'', Some (category_name (px_max_auto px))), (''repository'', Some (ic_repository c)),
      (''branch'', ic_branch c), (''args_hash'', Some (ic_args_hash c))]"

definition approval_required :: "(string \<Rightarrow> string) \<Rightarrow> proxy \<Rightarrow> snapshot \<Rightarrow> invocation \<Rightarrow> exn" where
  "approval_required sha px sn c = MCPAuthorityBlocked ''approval_required''
     ''explicit human authority is required for this exact invocation'' (approval_data sha px sn c)"

definition approval_consumed :: "(string \<Rightarrow> string) \<Rightarrow> invocation \<Rightarrow> exn" where
  "approval_consumed sha c = MCPAuthorityBlocked ''approval_already_consumed''
     ''the exact one-shot grant is no longer available'' [(''request_id'', Some (invocation_request_id sha c))]"

text \<open>From the context on: \<open>permit\<close> from line 164 to its end.\<close>

definition authorize_call :: "(string \<Rightarrow> string) \<Rightarrow> 'b issuer \<Rightarrow> proxy \<Rightarrow> schedule \<Rightarrow> snapshot \<Rightarrow> invocation
    \<Rightarrow> string option \<Rightarrow> governance \<Rightarrow> 'b \<Rightarrow> permit result \<times> governance \<times> 'b" where
  "authorize_call sha issue px sc sn c intent g b =
     (let human = needs_human px sn c; g1 = sc_before_check sc g in
      if human \<and> \<not> has_execution_grant (sc_check_time sc) c g1 then
        (let g2 = sc_before_record sc g1 in
         case record_execution_approval sha (sc_record_time sc) c (px_max_auto px)
                ''actual invocation exceeds configured automatic risk ceiling'' intent g2 of
           Inl e \<Rightarrow> (Inl e, g2, b)
         | Inr g3 \<Rightarrow> (Inl (approval_required sha px sn c), g3, b))
      else
        (let (tok, b1) = issue (sc_mint_time sc) (ic_repository c) (ic_permissions c) b in
         case tok of
           Inl e \<Rightarrow> (Inl e, g1, b1)
         | Inr token \<Rightarrow>
             (let g2 = sc_before_use sc g1 in
              if human then
                (case consume_execution_grant (sc_use_time sc) c g2 of
                   (None, g3) \<Rightarrow> (Inl (approval_consumed sha c), g3, b1)
                 | (Some i, g3) \<Rightarrow>
                     (Inr \<lparr>pm_token = token, pm_grant_id = Some i, pm_source = ''HUMAN'', pm_context = Some c\<rparr>, g3, b1))
              else
                (case record_auto_execution sha (sc_use_time sc) (sc_gid sc) c (auto_source sn c) g2 of
                   Inl e \<Rightarrow> (Inl e, g2, b1)
                 | Inr (i, g3) \<Rightarrow>
                     (Inr \<lparr>pm_token = token, pm_grant_id = Some i, pm_source = auto_source sn c,
                           pm_context = Some c\<rparr>, g3, b1)))))"

definition proxy_permit :: "(pyfloat \<Rightarrow> string) \<Rightarrow> (string \<Rightarrow> string) \<Rightarrow> (string \<Rightarrow> json option) \<Rightarrow> 'b issuer \<Rightarrow> proxy
    \<Rightarrow> schedule \<Rightarrow> headers \<Rightarrow> string option \<Rightarrow> governance \<Rightarrow> 'b \<Rightarrow> permit result \<times> governance \<times> 'b" where
  "proxy_permit fr sha loads issue px sc headers body g b =
     (case authenticate px headers of
        Inl e \<Rightarrow> (Inl e, g, b)
      | Inr _ \<Rightarrow>
     (case gov_snapshot g of
        Inl e \<Rightarrow> (Inl e, g, b)
      | Inr sn \<Rightarrow>
     if sn_emergency_stop sn then (blocked ''emergency_stop'' ''all capability execution is disabled'', g, b)
     else
     (case parse_rpc loads body of
        Inl e \<Rightarrow> (Inl e, g, b)
      | Inr rpc \<Rightarrow>
     if rpc = None \<or> dict_get (the rpc) ''method'' \<noteq> JStr ''tools/call'' then
       (let (tok, b1) = issue (sc_mint_time sc) (px_repository px) builder_discovery_permissions b in
        (map_sum id (\<lambda>t. \<lparr>pm_token = t, pm_grant_id = None, pm_source = ''DISCOVERY'', pm_context = None\<rparr>) tok, g, b1))
     else
     (case call_context fr sha px headers (the rpc) of
        Inl e \<Rightarrow> (Inl e, g, b)
      | Inr (c, intent) \<Rightarrow> authorize_call sha issue px sc sn c intent g b))))"

section \<open>Bodies, errors and forwarding\<close>

text \<open>\<open>read_mcp_body\<close>: \<open>read n\<close> is what the socket returns for \<open>read(n)\<close>.\<close>

definition max_mcp_request_bytes :: int where
  "max_mcp_request_bytes = 2 * 1024 * 1024"

definition read_mcp_body :: "(int \<Rightarrow> string) \<Rightarrow> string \<Rightarrow> string option \<Rightarrow> string option result" where
  "read_mcp_body read command content_length =
     (if command \<in> {''GET'', ''DELETE''} then Inr None
      else (case content_length of
         None \<Rightarrow> blocked ''invalid_request'' ''Content-Length is required''
       | Some raw \<Rightarrow>
           (case py_int raw of
              None \<Rightarrow> blocked ''invalid_request'' ''invalid Content-Length''
            | Some n \<Rightarrow> if n \<le> 0 \<or> max_mcp_request_bytes < n
                then blocked ''invalid_request'' ''MCP request body exceeds allowed size''
                else Inr (Some (read n)))))"

definition rpc_request_id :: "(string \<Rightarrow> json option) \<Rightarrow> string option \<Rightarrow> json" where
  "rpc_request_id loads body =
     (case parse_rpc loads body of
        Inr (Some rpc) \<Rightarrow> dict_get rpc ''id''
      | _ \<Rightarrow> JNull)"

text \<open>The headers of the upstream request; a \<open>dict\<close> in insertion order.\<close>

definition forwarded_names :: "string list" where
  "forwarded_names = [''accept'', ''content-type'', ''mcp-session-id'', ''mcp-protocol-version'',
     ''last-event-id'', ''mcp-method'', ''mcp-name'', ''x-mcp-toolsets'', ''x-mcp-tools'',
     ''x-mcp-exclude-tools'', ''x-mcp-features'', ''x-mcp-lockdown'', ''x-mcp-insiders'']"

fun set_header :: "(string \<times> string) list \<Rightarrow> string \<Rightarrow> string \<Rightarrow> (string \<times> string) list" where
  "set_header [] n v = [(n, v)]"
| "set_header ((n', v') # hs) n v = (if n' = n then (n, v) # hs else (n', v') # set_header hs n v)"

definition forwards_header :: "string \<Rightarrow> bool" where
  "forwards_header name \<longleftrightarrow>
     py_lower name \<in> set forwarded_names \<or> starts_with ''mcp-param-'' (py_lower name)"

definition outgoing_headers :: "string \<Rightarrow> (string \<times> string) list \<Rightarrow> string option \<Rightarrow> (string \<times> string) list" where
  "outgoing_headers provider_token incoming body =
     (let start = [(''Authorization'', ''Bearer '' @ provider_token), (''Accept-Encoding'', ''identity''),
                   (''User-Agent'', ''HermeTeam-Dynamic-Authority/0.1'')];
          copied = foldl (\<lambda>hs (n, v). if forwards_header n then set_header hs n v else hs) start incoming
      in case body of None \<Rightarrow> copied
         | Some raw \<Rightarrow> set_header copied ''Content-Length'' (str_of_int (int (length raw))))"


section \<open>Requests as histories of the store\<close>

lemma gov_run_single: "gov_step sha g e g' \<Longrightarrow> gov_run sha g [e] g'"
  using gr_step [OF gr_nil] by fastforce

lemma gov_run_trans:
  assumes "gov_run sha g1 fs g2" "gov_run sha g0 es g1"
  shows "gov_run sha g0 (es @ fs) g2"
  using assms
proof (induction rule: gov_run.induct)
  case (gr_step g fs h1 e h2)
  then have "gov_run sha g0 ((es @ fs) @ [e]) h2" by (intro gov_run.gr_step)
  then show ?case by simp
qed simp

lemma wf_gov_run: "gov_run sha g es g' \<Longrightarrow> gov_wf g \<Longrightarrow> gov_wf g'"
  by (induction rule: gov_run.induct) (auto intro: wf_gov_step)

text \<open>The other requests only use the operations of the store.\<close>

definition schedule_ok :: "(string \<Rightarrow> string) \<Rightarrow> schedule \<Rightarrow> bool" where
  "schedule_ok sha sc \<longleftrightarrow> (\<forall>g. (\<exists>es. gov_run sha g es (sc_before_check sc g)) \<and>
     (\<exists>es. gov_run sha g es (sc_before_record sc g)) \<and> (\<exists>es. gov_run sha g es (sc_before_use sc g)))"

lemma schedule_okD:
  assumes "schedule_ok sha sc"
  obtains es fs hs where "gov_run sha g es (sc_before_check sc g)" "gov_run sha g fs (sc_before_record sc g)"
    "gov_run sha g hs (sc_before_use sc g)"
  using assms unfolding schedule_ok_def by blast

lemma schedule_wf:
  assumes "schedule_ok sha sc" "gov_wf g"
  shows "gov_wf (sc_before_check sc g)" "gov_wf (sc_before_record sc g)" "gov_wf (sc_before_use sc g)"
  using assms wf_gov_run unfolding schedule_ok_def by blast+

text \<open>The ways \<open>authorize_call\<close> can end.\<close>

lemma authorize_call_cases:
  assumes "authorize_call sha issue px sc sn c intent g b = (res, g', b')"
  obtains (approval) e where "needs_human px sn c" "\<not> has_execution_grant (sc_check_time sc) c (sc_before_check sc g)"
      "res = Inl e" "b' = b"
      "(case record_execution_approval sha (sc_record_time sc) c (px_max_auto px)
         ''actual invocation exceeds configured automatic risk ceiling'' intent (sc_before_record sc (sc_before_check sc g)) of
         Inl e' \<Rightarrow> g' = sc_before_record sc (sc_before_check sc g)
       | Inr g3 \<Rightarrow> g' = g3 \<and> e = approval_required sha px sn c)"
  | (no_token) e where "res = Inl e" "g' = sc_before_check sc g"
      "issue (sc_mint_time sc) (ic_repository c) (ic_permissions c) b = (Inl e, b')"
  | (human) tok where "needs_human px sn c"
      "issue (sc_mint_time sc) (ic_repository c) (ic_permissions c) b = (Inr tok, b')"
      "(case consume_execution_grant (sc_use_time sc) c (sc_before_use sc (sc_before_check sc g)) of
          (None, g3) \<Rightarrow> g' = g3 \<and> res = Inl (approval_consumed sha c)
        | (Some i, g3) \<Rightarrow> g' = g3 \<and> res = Inr \<lparr>pm_token = tok, pm_grant_id = Some i, pm_source = ''HUMAN'',
                              pm_context = Some c\<rparr>)"
  | (auto_run) tok where "\<not> needs_human px sn c"
      "issue (sc_mint_time sc) (ic_repository c) (ic_permissions c) b = (Inr tok, b')"
      "(case record_auto_execution sha (sc_use_time sc) (sc_gid sc) c (auto_source sn c)
               (sc_before_use sc (sc_before_check sc g)) of
          Inl e \<Rightarrow> g' = sc_before_use sc (sc_before_check sc g) \<and> res = Inl e
        | Inr (i, g3) \<Rightarrow> g' = g3 \<and> res = Inr \<lparr>pm_token = tok, pm_grant_id = Some i,
              pm_source = auto_source sn c, pm_context = Some c\<rparr>)"
proof (cases "needs_human px sn c \<and> \<not> has_execution_grant (sc_check_time sc) c (sc_before_check sc g)")
  case True
  with assms show thesis
    by (cases "record_execution_approval sha (sc_record_time sc) c (px_max_auto px)
      ''actual invocation exceeds configured automatic risk ceiling'' intent (sc_before_record sc (sc_before_check sc g))")
      (auto simp: authorize_call_def Let_def intro: approval)
next
  case run: False
  obtain tok b1 where i: "issue (sc_mint_time sc) (ic_repository c) (ic_permissions c) b = (tok, b1)"
    by fastforce
  show thesis
  proof (cases tok)
    case (Inl e)
    with run i assms show thesis by (intro no_token [of e]) (auto simp: authorize_call_def Let_def)
  next
    case (Inr t)
    show thesis
    proof (cases "needs_human px sn c")
      case True
      with run i Inr assms show thesis
        by (intro human [of t]) (auto simp: authorize_call_def Let_def split: prod.splits option.splits)
    next
      case False
      with run i Inr assms show thesis
        by (intro auto_run [of t]) (auto simp: authorize_call_def Let_def split: sum.splits prod.splits)
    qed
  qed
qed

text \<open>The ways \<open>permit\<close> can end.\<close>

lemma proxy_permit_cases:
  assumes "proxy_permit fr sha loads issue px sc headers body g b = (res, g', b')"
  obtains (refused) e where "res = Inl e" "g' = g" "b' = b"
  | (discovery) sn tok where "authenticate px headers = Inr ()" "gov_snapshot g = Inr sn" "\<not> sn_emergency_stop sn"
      "issue (sc_mint_time sc) (px_repository px) builder_discovery_permissions b = (tok, b')" "g' = g"
      "res = map_sum id (\<lambda>t. \<lparr>pm_token = t, pm_grant_id = None, pm_source = ''DISCOVERY'', pm_context = None\<rparr>) tok"
  | (call) sn rpc c intent where "authenticate px headers = Inr ()" "gov_snapshot g = Inr sn"
      "\<not> sn_emergency_stop sn" "parse_rpc loads body = Inr (Some rpc)" "dict_get rpc ''method'' = JStr ''tools/call''"
      "call_context fr sha px headers rpc = Inr (c, intent)"
      "authorize_call sha issue px sc sn c intent g b = (res, g', b')"
  using assms unfolding proxy_permit_def
  by (auto split: sum.splits prod.splits if_splits option.splits simp: Let_def)

lemma deny_Inr [simp]: "deny tool m = Inr x \<longleftrightarrow> m = Inr x"
proof (cases m)
  case (Inl e)
  then show ?thesis by (cases e) (simp_all add: deny_def)
qed (simp add: deny_def)

lemma call_context_builder:
  "call_context fr sha px headers rpc = Inr (c, intent) \<Longrightarrow> \<exists>run tool args.
     call_arguments rpc = Inr (tool, args) \<and> run_id_of headers = Inr run \<and>
     builder_invocation_context fr sha ''hermes-builder'' run tool args (px_repository px)
       (px_default_branch px) (px_patterns px) = Inr c"
  by (auto simp: call_context_def)

lemma authorize_call_run:
  assumes "gov_wf g" "schedule_ok sha sc" "authorize_call sha issue px sc sn c intent g b = (res, g', b')"
  shows "\<exists>es. gov_run sha g es g' \<and>
    (\<forall>p. res = Inr p \<longrightarrow> pm_source p = ''HUMAN'' \<longrightarrow>
       (\<exists>es1 i. es = es1 @ [Consumed (sc_use_time sc) c i] \<and> pm_grant_id p = Some i))"
proof -
  let ?g1 = "sc_before_check sc g"
  obtain e1 where r1: "gov_run sha g e1 ?g1" using schedule_okD [OF assms(2)] .
  obtain e2 where r2: "gov_run sha ?g1 e2 (sc_before_record sc ?g1)" using schedule_okD [OF assms(2)] .
  obtain e3 where r3: "gov_run sha ?g1 e3 (sc_before_use sc ?g1)" using schedule_okD [OF assms(2)] .
  note r12 = gov_run_trans [OF r2 r1] and r13 = gov_run_trans [OF r3 r1]
  from assms(3) show ?thesis
  proof (cases rule: authorize_call_cases)
    case (approval e)
    then show ?thesis using r12 by (auto split: sum.splits intro: gr_step st_execution)
  next
    case (no_token e)
    then show ?thesis using r1 by auto
  next
    case (human tok)
    show ?thesis
    proof (cases "consume_execution_grant (sc_use_time sc) c (sc_before_use sc ?g1)")
      case (Pair x g3)
      show ?thesis
      proof (cases x)
        case None
        then have "gov_step sha (sc_before_use sc ?g1) Internal g3" using Pair by (auto intro: st_consume_none)
        then show ?thesis using human(3) Pair None gr_step [OF r13] by auto
      next
        case (Some i)
        then have "gov_step sha (sc_before_use sc ?g1) (Consumed (sc_use_time sc) c i) g3"
          using Pair by (auto intro: st_consume)
        then show ?thesis using human(3) Pair Some gr_step [OF r13] by fastforce
      qed
    qed
  next
    case (auto_run tok)
    have "auto_source sn c \<noteq> ''HUMAN''" by (simp add: auto_source_def)
    moreover have "\<exists>es. gov_run sha g es g'"
    proof (cases "record_auto_execution sha (sc_use_time sc) (sc_gid sc) c (auto_source sn c) (sc_before_use sc ?g1)")
      case (Inl e)
      then show ?thesis using auto_run(3) r13 by auto
    next
      case (Inr ig)
      then obtain i where "record_auto_execution sha (sc_use_time sc) (sc_gid sc) c (auto_source sn c)
          (sc_before_use sc ?g1) = Inr (i, g')" using auto_run(3) by (cases ig) auto
      from gr_step [OF r13 st_auto [OF this]] show ?thesis by blast
    qed
    ultimately show ?thesis using auto_run(3) by (auto split: sum.splits prod.splits)
  qed
qed


lemma proxy_permit_call:
  assumes "authenticate px headers = Inr ()" "gov_snapshot g = Inr sn" "\<not> sn_emergency_stop sn"
    and "parse_rpc loads body = Inr (Some rpc)" "dict_get rpc ''method'' = JStr ''tools/call''"
    and "call_context fr sha px headers rpc = Inr (c, intent)"
  shows "proxy_permit fr sha loads issue px sc headers body g b = authorize_call sha issue px sc sn c intent g b"
  using assms by (simp add: proxy_permit_def)

definition idle :: "int \<Rightarrow> string \<Rightarrow> schedule" where
  "idle t gid = \<lparr>sc_before_check = id, sc_check_time = t, sc_before_record = id, sc_record_time = t,
     sc_mint_time = of_int t, sc_before_use = id, sc_use_time = t, sc_gid = gid\<rparr>"

lemma idle_ok: "schedule_ok sha (idle t gid)"
  by (auto simp: schedule_ok_def idle_def intro: gr_nil)

text \<open>What the decision reads of the store.\<close>

lemma snapshot_fields:
  assumes "gov_snapshot g = Inr sn"
  shows "sn_emergency_stop sn = (map_of (gv_global g) ''emergency_stop'' = Some ''1'')"
    "sn_exceptions sn = map xr_tool_id (gv_exceptions g)" "map_result override_view (gv_overrides g) = Inr (sn_overrides sn)"
  using assms by (auto simp: gov_snapshot_def)

lemma needs_human_same:
  assumes "gov_snapshot g = Inr sn" "gov_wf g'"
    and "gv_global g' = gv_global g" "gv_exceptions g' = gv_exceptions g" "gv_overrides g' = gv_overrides g"
  obtains sn' where "gov_snapshot g' = Inr sn'" "sn_emergency_stop sn' = sn_emergency_stop sn"
    "needs_human px sn' c = needs_human px sn c"
proof -
  obtain sn' where sn': "gov_snapshot g' = Inr sn'" by (rule snapshot_exists [OF assms(2)])
  note f = snapshot_fields [OF assms(1)] and f' = snapshot_fields [OF sn']
  have "sn_overrides sn' = sn_overrides sn" using f(3) f'(3) assms(5) by simp
  then show thesis
    using f f' assms(3,4) by (intro that [OF sn']) (simp_all add: needs_human_def sn_category_def)
qed

lemma approval_recorded:
  assumes "record_execution_approval sha t c a rsn intent g = Inr g'" "gov_wf g"
  shows "\<exists>r\<in>set (gv_exec g'). er_request_id r = invocation_request_id sha c \<and> er_tool_id r = ic_tool_id c \<and>
           er_status r = PENDING \<and> binds r c"
    and "gv_global g' = gv_global g" "gv_exceptions g' = gv_exceptions g" "gv_overrides g' = gv_overrides g"
    and "gv_grants g' = gv_grants g" "gv_pending g' = gv_pending g"
proof -
  show "\<exists>r\<in>set (gv_exec g'). er_request_id r = invocation_request_id sha c \<and> er_tool_id r = ic_tool_id c \<and>
           er_status r = PENDING \<and> binds r c"
    using assms(1)
    by (auto simp: record_execution_approval_def Let_def upsert_def update_where_bex binds_def split: if_splits)
qed (use assms(1) in \<open>auto simp: record_execution_approval_def Let_def split: if_splits\<close>)

lemma granted_available:
  assumes "gov_wf g" "r \<in> set (gv_exec g)" "er_status r = PENDING" "binds r c"
    and "grant_once t gid (er_request_id r) (er_tool_id r) ttl g = Inr (res, g')" "t \<le> now" "now < t + 10"
  shows "has_execution_grant now c g'"
    and "gv_global g' = gv_global g" "gv_exceptions g' = gv_exceptions g" "gv_overrides g' = gv_overrides g"
proof -
  have uniq: "x = r" if "x \<in> set (gv_exec g)" "er_request_id x = er_request_id r" for x
    using assms(1) that assms(2) unfolding gov_wf_def by (blast intro: distinct_map_eq [where f = er_request_id])
  from assms(5) have "gv_grants g' = gv_grants g @ [human_grant t gid ttl r] \<and> gv_global g' = gv_global g
      \<and> gv_exceptions g' = gv_exceptions g \<and> gv_overrides g' = gv_overrides g"
  proof (cases rule: grant_once_cases)
    case (execution x g1)
    then have "x = r" using uniq by (auto dest: find_Some_in)
    with execution show ?thesis by (auto simp: guard_simps)
  next
    case (legacy p)
    then show ?thesis using assms(2,3) by (auto simp: find_None_all)
  qed
  moreover have "grant_matches now c (human_grant t gid ttl r)"
    using assms(4,7) clamp_ttl_bounds [of ttl] by (simp add: grant_matches_def human_grant_def binds_def)
  ultimately show "has_execution_grant now c g'" "gv_global g' = gv_global g" "gv_exceptions g' = gv_exceptions g"
    "gv_overrides g' = gv_overrides g" by (auto simp: has_execution_grant_def)
qed

context token_broker
begin

text \<open>A permit for a call carries a token of the broker for the repository and permissions of the call.\<close>

lemma authorize_call_token:
  assumes "ok b" "authorize_call sha issue px sc sn c intent g b = (Inr p, g', b')"
  shows "pm_context p = Some c \<and> pt_repository (pm_token p) = ic_repository c \<and>
    (\<exists>q. normalize_permissions (ic_permissions c) = Inr q \<and> scoped (ic_repository c) (sort_key id q) (pt_token (pm_token p)))"
  using assms(2)
proof (cases rule: authorize_call_cases)
  case (human tok)
  then show ?thesis
    using issue_scoped [OF assms(1), of "sc_mint_time sc" "ic_repository c" "ic_permissions c" tok]
    by (auto split: prod.splits option.splits)
next
  case (auto_run tok)
  then show ?thesis
    using issue_scoped [OF assms(1), of "sc_mint_time sc" "ic_repository c" "ic_permissions c" tok]
    by (auto split: prod.splits sum.splits)
qed simp_all

end


section \<open>Properties\<close>

definition demo_proxy :: proxy where
  "demo_proxy = \<lparr>px_max_auto = LOW, px_builder_key = ''k'', px_repository = ''o/r'', px_default_branch = ''main'',
     px_patterns = [''.github/**'']\<rparr>"

definition demo_headers :: headers where
  "demo_headers = [''X-Hermes-Role'' \<mapsto> ''builder'', ''Authorization'' \<mapsto> ''Bearer k'', ''X-HermeTeam-Run-Id'' \<mapsto> ''r1'']"

definition demo_rpc :: pydict where
  "demo_rpc = [(''method'', JStr ''tools/call''),
     (''params'', JObj [(''name'', JStr ''push_files''), (''arguments'', JObj demo_args)])]"

definition demo_call :: invocation where
  "demo_call = \<lparr>ic_agent_id = ''hermes-builder'', ic_role = ''builder'', ic_run_id = ''r1'',
     ic_tool_id = ''github:push_files'', ic_capability = ''repository.files.modify'', ic_category = MEDIUM,
     ic_repository = ''o/r'', ic_branch = Some ''agent/x'', ic_paths = [''src/a''], ic_args_hash = ''req'',
     ic_permissions = [(''contents'', ''write'')]\<rparr>"

definition demo_token :: provider_token where
  "demo_token = \<lparr>pt_token = ''tok'', pt_expires_at = ''x'', pt_fingerprint = ''f'', pt_repository = ''o/r'',
     pt_permissions = JNull\<rparr>"

lemma demo_request_facts:
  "authenticate demo_proxy demo_headers = Inr ()"
  "parse_rpc (\<lambda>_. Some (JObj demo_rpc)) (Some ''x'') = Inr (Some demo_rpc)"
  "dict_get demo_rpc ''method'' = JStr ''tools/call''"
  "call_context (\<lambda>_. []) (\<lambda>_. ''req'') demo_proxy demo_headers demo_rpc = Inr (demo_call, None)"
  by code_simp+

abbreviation "demo_store \<equiv> gov_initialize empty_governance"

lemma demo_snapshot:
  "gov_snapshot demo_store = Inr \<lparr>sn_emergency_stop = False, sn_exceptions = [], sn_overrides = [], sn_pending = []\<rparr>"
  by (simp add: gov_snapshot_def gov_initialize_def empty_governance_def)

text \<open>
  (C2) What a permit means. If the proxy lets a request through, whatever else happens to the
  store meanwhile, then the agent was authenticated and the emergency stop was off; and a permit for a
  tool call is for an invocation that the authority map accepts on the configured repository, carries a
  token of that repository scoped to the permissions of that tool, and is either within the automatic
  ceiling after overrides, or excepted, or backed by a matching, unexpired grant of a human that was
  unspent before and is spent afterwards.
\<close>

theorem permit_sound:
  assumes "answers_scoped env scoped" "broker_ok env scoped b" "gov_wf g" "schedule_ok sha sc"
    and "proxy_permit fr sha loads (mint env) px sc headers body g b = (Inr p, g', b')"
  shows "authenticate px headers = Inr () \<and> (\<exists>sn. gov_snapshot g = Inr sn \<and> \<not> sn_emergency_stop sn \<and>
    (case pm_context p of None \<Rightarrow> pm_source p = ''DISCOVERY'' \<and> pm_grant_id p = None
     | Some c \<Rightarrow>
         (\<exists>run tool args. builder_invocation_context fr sha ''hermes-builder'' run tool args (px_repository px)
            (px_default_branch px) (px_patterns px) = Inr c) \<and>
         pt_repository (pm_token p) = px_repository px \<and>
         (\<exists>q. normalize_permissions (ic_permissions c) = Inr q \<and>
            scoped (px_repository px) (sort_key id q) (pt_token (pm_token p))) \<and>
         (if needs_human px sn c
          then pm_source p = ''HUMAN'' \<and> (\<exists>r\<in>set (gv_grants (sc_before_use sc (sc_before_check sc g))).
                 pm_grant_id p = Some (gr_grant_id r) \<and> grant_matches (sc_use_time sc) c r \<and> gr_source r = ''HUMAN'' \<and>
                 gr_grant_id r \<in> spent_grants g')
          else sn_category sn c \<le> px_max_auto px \<or> ic_tool_id c \<in> set (sn_exceptions sn))))"
  using assms(5)
proof (cases rule: proxy_permit_cases)
  case (refused e)
  then show ?thesis by simp
next
  case (discovery sn tok)
  then show ?thesis by (cases tok) auto
next
  case (call sn rpc c intent)
  have ok: "answers_scoped env scoped \<and> broker_ok env scoped b" using assms(1,2) by simp
  note token = github_broker.authorize_call_token [OF ok call(7)]
  from call_context_builder [OF call(6)] obtain run tool args where
    ctx: "builder_invocation_context fr sha ''hermes-builder'' run tool args (px_repository px)
       (px_default_branch px) (px_patterns px) = Inr c" by blast
  then have repo: "ic_repository c = px_repository px" unfolding builder_context_Inr by auto
  have wf2: "gov_wf (sc_before_use sc (sc_before_check sc g))" using schedule_wf [OF assms(4)] assms(3) by blast
  from call(7) have "if needs_human px sn c
      then pm_source p = ''HUMAN'' \<and> (\<exists>i g3. consume_execution_grant (sc_use_time sc) c
          (sc_before_use sc (sc_before_check sc g)) = (Some i, g3) \<and> pm_grant_id p = Some i \<and> g' = g3)
      else True"
    by (cases rule: authorize_call_cases) (auto split: prod.splits option.splits)
  then have human: "pm_source p = ''HUMAN'' \<and> (\<exists>r\<in>set (gv_grants (sc_before_use sc (sc_before_check sc g))).
      pm_grant_id p = Some (gr_grant_id r) \<and> grant_matches (sc_use_time sc) c r \<and> gr_source r = ''HUMAN'' \<and>
      gr_grant_id r \<in> spent_grants g')" if "needs_human px sn c"
    using that consume_Some [OF wf2] consume_Some_spent [OF wf2] grant_matches_human [OF wf2] by (auto; metis insertI1)
  show ?thesis
    using call(1-3) token ctx repo human
    by (auto simp: needs_human_def not_less simp del: category_order intro!: exI [of _ sn])
qed

definition demo_excepted :: governance where
  "demo_excepted = demo_store\<lparr>gv_exceptions := [\<lparr>xr_tool_id = ''github:push_files'', xr_created_at = 0\<rparr>]\<rparr>"

theorem permit_sound_witness:
  "\<exists>p g' b'. proxy_permit (\<lambda>_. []) (\<lambda>_. ''req'') (\<lambda>_. Some (JObj demo_rpc)) (mint demo_github) demo_proxy
      (idle 0 ''g'') demo_headers (Some ''x'') demo_excepted demo_broker = (Inr p, g', b') \<and>
     pt_repository (pm_token p) = ''o/r'' \<and> pm_context p = Some demo_call"
proof -
  have wf: "gov_wf demo_excepted"
    by (simp add: gov_wf_def demo_excepted_def gov_initialize_def empty_governance_def)
  have ok: "answers_scoped demo_github (\<lambda>_ _ _. True)" "broker_ok demo_github (\<lambda>_ _ _. True) demo_broker"
    by (simp_all add: answers_scoped_def broker_ok_def demo_broker_def)
  define sn where "sn = \<lparr>sn_emergency_stop = False, sn_exceptions = [''github:push_files''], sn_overrides = [], sn_pending = []\<rparr>"
  have sn: "gov_snapshot demo_excepted = Inr sn" "\<not> sn_emergency_stop sn" "\<not> needs_human demo_proxy sn demo_call"
    by (simp_all add: sn_def gov_snapshot_def demo_excepted_def gov_initialize_def empty_governance_def
        needs_human_def demo_call_def)
  obtain tok where "fst (mint demo_github 0 ''o/r'' [(''contents'', ''write'')] demo_broker) = Inr tok"
    using demo_mint(1) [OF demo_levels(3)] by blast
  then obtain b' where tok: "mint demo_github 0 ''o/r'' [(''contents'', ''write'')] demo_broker = (Inr tok, b')"
    by (metis prod.collapse)
  have "\<exists>g'. proxy_permit (\<lambda>_. []) (\<lambda>_. ''req'') (\<lambda>_. Some (JObj demo_rpc)) (mint demo_github) demo_proxy
      (idle 0 ''g'') demo_headers (Some ''x'') demo_excepted demo_broker =
      (Inr \<lparr>pm_token = tok, pm_grant_id = Some ''g'', pm_source = ''EXCEPTION'', pm_context = Some demo_call\<rparr>, g', b')"
    unfolding proxy_permit_call [OF demo_request_facts(1) sn(1,2) demo_request_facts(2-4)]
    using tok sn(3)
    by (simp add: authorize_call_def Let_def idle_def demo_call_def sn_def auto_source_def record_auto_execution_def insert_grant_def demo_excepted_def
        gov_initialize_def empty_governance_def)
  then obtain g' where r: "proxy_permit (\<lambda>_. []) (\<lambda>_. ''req'') (\<lambda>_. Some (JObj demo_rpc)) (mint demo_github) demo_proxy
      (idle 0 ''g'') demo_headers (Some ''x'') demo_excepted demo_broker =
      (Inr \<lparr>pm_token = tok, pm_grant_id = Some ''g'', pm_source = ''EXCEPTION'', pm_context = Some demo_call\<rparr>, g', b')" ..
  from permit_sound [OF ok wf idle_ok r] have "pt_repository tok = ''o/r''" by (auto simp: demo_proxy_def)
  with r show ?thesis by simp
qed

text \<open>
  The emergency stop is absolute: while it is set, no request obtains a permit, no token is
  requested from the provider and the store does not change, whatever the headers and the body are.
\<close>

theorem emergency_stop_blocks:
  assumes "map_of (gv_global g) ''emergency_stop'' = Some ''1''"
  shows "\<exists>e. proxy_permit fr sha loads issue px sc headers body g b = (Inl e, g, b)"
proof (cases "authenticate px headers")
  case (Inr u)
  then show ?thesis
    using assms snapshot_fields(1) [of g] by (cases "gov_snapshot g") (auto simp: proxy_permit_def)
qed (simp add: proxy_permit_def)

theorem emergency_stop_blocks_witness:
  "\<exists>e. proxy_permit (\<lambda>_. []) (\<lambda>s. s) (\<lambda>_. None) (\<lambda>_ _ _ n. (Inr demo_token, Suc n)) demo_proxy (idle 0 ''g'')
     demo_headers None (set_emergency_stop True demo_store) 0 = (Inl e, set_emergency_stop True demo_store, 0)"
  by (rule emergency_stop_blocks) (simp add: set_emergency_stop_def gov_initialize_def empty_governance_def)

text \<open>
  (C5) Requests refine the history of the store: whatever the outcome of a request and whatever
  other requests do between its transactions, its effect on the store is a sequence of store
  operations; and a permit under human authority ends with the consumption of its own grant for its own
  invocation. With the theorem on histories, no two permits ever rest on the same approval.
\<close>

theorem permit_refines_history:
  assumes "gov_wf g" "schedule_ok sha sc"
    and "proxy_permit fr sha loads issue px sc headers body g b = (res, g', b')"
  shows "\<exists>es. gov_run sha g es g' \<and> (\<forall>p. res = Inr p \<longrightarrow> pm_source p = ''HUMAN'' \<longrightarrow>
    (\<exists>es1 c i. es = es1 @ [Consumed (sc_use_time sc) c i] \<and> pm_context p = Some c \<and> pm_grant_id p = Some i))"
  using assms(3)
proof (cases rule: proxy_permit_cases)
  case (refused e)
  then show ?thesis using gr_nil by blast
next
  case (discovery sn tok)
  then show ?thesis using gr_nil [of sha g] by (cases tok) auto
next
  case (call sn rpc c intent)
  have ctx: "pm_context p = Some c" if "res = Inr p" for p
    using call(7) that by (cases rule: authorize_call_cases) (auto split: prod.splits option.splits sum.splits)
  from authorize_call_run [OF assms(1,2) call(7)] obtain es where "gov_run sha g es g'"
    and "\<forall>p. res = Inr p \<longrightarrow> pm_source p = ''HUMAN'' \<longrightarrow>
       (\<exists>es1 i. es = es1 @ [Consumed (sc_use_time sc) c i] \<and> pm_grant_id p = Some i)"
    by (elim exE conjE)
  with ctx show ?thesis by (intro exI [of _ es] conjI) (assumption, metis)
qed

theorem permit_refines_history_witness:
  "\<exists>es. gov_run (\<lambda>_. ''req'') demo_store es
     (fst (snd (proxy_permit (\<lambda>_. []) (\<lambda>_. ''req'') (\<lambda>_. Some (JObj demo_rpc)) (\<lambda>_ _ _ n. (Inr demo_token, n :: nat))
        demo_proxy (idle 0 ''g'') demo_headers (Some ''x'') demo_store 0)))"
proof -
  let ?r = "proxy_permit (\<lambda>_. []) (\<lambda>_. ''req'') (\<lambda>_. Some (JObj demo_rpc)) (\<lambda>_ _ _ n. (Inr demo_token, n :: nat))
        demo_proxy (idle 0 ''g'') demo_headers (Some ''x'') demo_store 0"
  have "?r = (fst ?r, fst (snd ?r), snd (snd ?r))" by simp
  from permit_refines_history [OF empty_gov_wf idle_ok this] show ?thesis
    by (elim exE conjE) (rule exI)
qed


text \<open>
  An outage of the token broker spends nothing: if the broker cannot issue a token, no
  request obtains a permit, and on a store no one else uses, every grant is still there, unspent as
  before; at most a pending approval has been recorded.
\<close>

theorem broker_outage_spends_nothing:
  assumes "\<forall>t r p. fst (issue t r p b) = Inl e"
  shows "\<exists>e' g' b'. proxy_permit fr sha loads issue px (idle t gid) headers body g b = (Inl e', g', b') \<and>
    gv_grants g' = gv_grants g \<and> gv_once g' = gv_once g \<and> (e' = e \<longrightarrow> g' = g \<or> (\<exists>sn c. e = approval_required sha px sn c))"
proof -
  obtain res g' b' where r: "proxy_permit fr sha loads issue px (idle t gid) headers body g b = (res, g', b')"
    by (metis prod.collapse)
  have no: "issue u r p b \<noteq> (Inr tok, b2)" for u r p tok b2
    using assms by (metis fst_conv sum.distinct(1))
  from r have "\<exists>e'. res = Inl e' \<and> gv_grants g' = gv_grants g \<and> gv_once g' = gv_once g \<and>
      (e' = e \<longrightarrow> g' = g \<or> (\<exists>sn c. e = approval_required sha px sn c))"
  proof (cases rule: proxy_permit_cases)
    case (discovery sn tok)
    then show ?thesis using no by (cases tok) auto
  next
    case (call sn rpc c intent)
    from call(7) show ?thesis
    proof (cases rule: authorize_call_cases)
      case (approval e')
      then show ?thesis
        by (auto simp: idle_def record_execution_approval_def Let_def split: sum.splits if_splits)
    next
      case (no_token e')
      then show ?thesis by (simp add: idle_def)
    qed (use no in auto)
  qed simp
  with r show ?thesis by blast
qed

theorem broker_outage_spends_nothing_witness:
  "\<exists>e g' b'. proxy_permit (\<lambda>_. []) (\<lambda>_. ''req'') (\<lambda>_. Some (JObj demo_rpc))
      (\<lambda>_ _ _ n. (Inl (GitHubAppUnavailable ''down''), n :: nat)) demo_proxy (idle 6 ''g'') demo_headers (Some ''x'')
      demo_granted 0 = (Inl e, g', b') \<and> gv_grants g' = gv_grants demo_granted"
proof -
  let ?issue = "\<lambda>_ _ _ n. (Inl (GitHubAppUnavailable ''down''), n :: nat)"
  have "\<forall>t r p. fst (?issue t r p 0) = Inl (GitHubAppUnavailable ''down'')" by simp
  from broker_outage_spends_nothing [where issue = ?issue, OF this, of "\<lambda>_. []" "\<lambda>_. ''req''"
      "\<lambda>_. Some (JObj demo_rpc)" demo_proxy 6 "''g''" demo_headers "Some ''x''" demo_granted]
  show ?thesis by (elim exE conjE) (intro exI conjI)
qed

text \<open>
  A blocked call can be approved and then goes through. A call above the ceiling without
  a grant is refused with \<open>approval_required\<close> and recorded; if an operator approves the request whose id
  the refusal names, the same call, made again within ten seconds, obtains a permit under human authority for
  exactly that invocation, provided the broker issues a token.
\<close>

theorem approve_and_retry:
  assumes "gov_wf g" "authenticate px headers = Inr ()" "gov_snapshot g = Inr sn" "\<not> sn_emergency_stop sn"
    and "parse_rpc loads body = Inr (Some rpc)" "dict_get rpc ''method'' = JStr ''tools/call''"
    and "call_context fr sha px headers rpc = Inr (c, intent)" "needs_human px sn c" "\<not> has_execution_grant t0 c g"
  shows "\<exists>g1. proxy_permit fr sha loads issue px (idle t0 gid0) headers body g b =
      (Inl (approval_required sha px sn c), g1, b) \<and>
    map_of (approval_data sha px sn c) ''request_id'' = Some (Some (invocation_request_id sha c)) \<and>
    (\<forall>t1 gid ttl res g2 t2 gid2 tok.
       grant_once t1 gid (invocation_request_id sha c) (ic_tool_id c) ttl g1 = Inr (res, g2) \<longrightarrow> t1 \<le> t2 \<longrightarrow> t2 < t1 + 10 \<longrightarrow>
       fst (issue (of_int t2) (ic_repository c) (ic_permissions c) b) = Inr tok \<longrightarrow>
       (\<exists>p g3 b3. proxy_permit fr sha loads issue px (idle t2 gid2) headers body g2 b = (Inr p, g3, b3) \<and>
          pm_source p = ''HUMAN'' \<and> pm_context p = Some c \<and> pm_token p = tok))"
proof -
  obtain g1 where rec: "record_execution_approval sha t0 c (px_max_auto px)
      ''actual invocation exceeds configured automatic risk ceiling'' intent g = Inr g1"
    by (simp add: record_execution_approval_def Let_def)
  note wf1 = wf_record_execution [OF assms(1) rec] and saved = approval_recorded [OF rec assms(1)]
  obtain r where r: "r \<in> set (gv_exec g1)" "er_request_id r = invocation_request_id sha c"
    "er_tool_id r = ic_tool_id c" "er_status r = PENDING" "binds r c" using saved(1) by blast
  have first: "proxy_permit fr sha loads issue px (idle t0 gid0) headers body g b =
      (Inl (approval_required sha px sn c), g1, b)"
    using assms(8,9) rec by (simp add: proxy_permit_call [OF assms(2-7)] authorize_call_def Let_def idle_def)
  have "\<exists>p g3 b3. proxy_permit fr sha loads issue px (idle t2 gid2) headers body g2 b = (Inr p, g3, b3) \<and>
          pm_source p = ''HUMAN'' \<and> pm_context p = Some c \<and> pm_token p = tok"
    if grant: "grant_once t1 gid (invocation_request_id sha c) (ic_tool_id c) ttl g1 = Inr (res, g2)"
      and t: "t1 \<le> t2" "t2 < t1 + 10" and tok: "fst (issue (of_int t2) (ic_repository c) (ic_permissions c) b) = Inr tok"
    for t1 gid ttl res g2 t2 gid2 tok
  proof -
    note avail = granted_available [OF wf1 r(1,4,5) grant [folded r(2,3)] t]
    have wf2: "gov_wf g2" by (rule wf_grant_once [OF wf1 grant])
    have same: "gv_global g2 = gv_global g" "gv_exceptions g2 = gv_exceptions g" "gv_overrides g2 = gv_overrides g"
      using avail(2-4) saved(2-4) by simp_all
    obtain sn' where sn': "gov_snapshot g2 = Inr sn'" "sn_emergency_stop sn' = sn_emergency_stop sn"
      "needs_human px sn' c = needs_human px sn c" by (rule needs_human_same [OF assms(3) wf2 same])
    then have open': "\<not> sn_emergency_stop sn'" using assms(4) by simp
    obtain i g3 where "consume_execution_grant t2 c g2 = (Some i, g3)"
      using has_iff_consume [OF wf2, of t2 c] avail(1) by (metis not_None_eq prod.collapse)
    moreover obtain b3 where "issue (of_int t2) (ic_repository c) (ic_permissions c) b = (Inr tok, b3)"
      using tok by (metis prod.collapse)
    ultimately show ?thesis
      using assms(8) avail(1) sn'(3)
      by (simp add: proxy_permit_call [OF assms(2) sn'(1) open' assms(5-7)] authorize_call_def Let_def idle_def)
  qed
  with first show ?thesis by (auto simp: approval_data_def)
qed

theorem approve_and_retry_witness:
  "\<exists>g1. proxy_permit (\<lambda>_. []) (\<lambda>_. ''req'') (\<lambda>_. Some (JObj demo_rpc)) (\<lambda>_ _ _ n. (Inr demo_token, n :: nat))
      demo_proxy (idle 0 ''g'') demo_headers (Some ''x'') demo_store 0 =
     (Inl (approval_required (\<lambda>_. ''req'') demo_proxy \<lparr>sn_emergency_stop = False, sn_exceptions = [], sn_overrides = [], sn_pending = []\<rparr> demo_call), g1, 0)"
proof -
  let ?sn = "\<lparr>sn_emergency_stop = False, sn_exceptions = [], sn_overrides = [], sn_pending = []\<rparr>"
  have h: "needs_human demo_proxy ?sn demo_call" "\<not> has_execution_grant 0 demo_call demo_store" by code_simp+
  have off: "\<not> sn_emergency_stop ?sn" by simp
  show ?thesis
    by (insert approve_and_retry [OF empty_gov_wf demo_request_facts(1) demo_snapshot off demo_request_facts(2-4) h,
      of "\<lambda>_ _ _ n. (Inr demo_token, n :: nat)" "''g''" 0], elim exE conjE, rule exI)
qed


text \<open>
  Discovery never executes: a request whose body is a \<open>tools/call\<close>, alone or inside a
  batch, never obtains the discovery token, which carries the widest permissions; every such call goes
  through the authority map.
\<close>

theorem discovery_is_no_call:
  assumes "proxy_permit fr sha loads issue px sc headers body g b = (Inr p, g', b')" "pm_context p = None"
  shows "pm_grant_id p = None \<and> g' = g \<and>
    (\<forall>raw v. body = Some raw \<longrightarrow> raw \<noteq> [] \<longrightarrow> loads raw = Some v \<longrightarrow>
       \<not> is_tool_call v \<and> (\<forall>items. v = JArr items \<longrightarrow> \<not> list_ex is_tool_call items))"
proof -
  have calls: "pm_context q \<noteq> None" if "authorize_call sha issue px sc sn c intent g b = (Inr q, g', b')" for sn c intent q
    using that by (cases rule: authorize_call_cases) (auto split: prod.splits option.splits sum.splits)
  from assms(1) have disc: "pm_grant_id p = None \<and> g' = g"
  proof (cases rule: proxy_permit_cases)
    case (discovery sn tok)
    then show ?thesis by (cases tok) auto
  next
    case (call sn rpc c intent)
    with assms(2) calls show ?thesis by blast
  qed simp
  have "\<not> is_tool_call v \<and> (\<forall>items. v = JArr items \<longrightarrow> \<not> list_ex is_tool_call items)"
    if body: "body = Some raw" "raw \<noteq> []" "loads raw = Some v" for raw v
  proof (cases v)
    case (JArr items)
    have "\<not> list_ex is_tool_call items"
    proof
      assume "list_ex is_tool_call items"
      then have "parse_rpc loads body = blocked ''batch_tool_calls_not_supported'' ''batch tools/call is disabled''"
        using body JArr by (simp add: parse_rpc_def)
      with assms(1) show False by (auto simp: proxy_permit_def split: sum.splits if_splits)
    qed
    with JArr show ?thesis by (simp add: is_tool_call_def)
  next
    case (JObj d)
    have "dict_get d ''method'' \<noteq> JStr ''tools/call''"
    proof
      assume call: "dict_get d ''method'' = JStr ''tools/call''"
      have rpc: "parse_rpc loads body = Inr (Some d)" using body JObj by (simp add: parse_rpc_def)
      from assms(1) show False
      proof (cases rule: proxy_permit_cases)
        case (call sn rpc c intent)
        with assms(2) calls show False by blast
      next
        case (discovery sn tok)
        have "proxy_permit fr sha loads issue px sc headers body g b =
          (case call_context fr sha px headers d of Inl e \<Rightarrow> (Inl e, g, b)
           | Inr (c, intent) \<Rightarrow> authorize_call sha issue px sc sn c intent g b)"
          using discovery(1-3) rpc call by (simp add: proxy_permit_def)
        with assms(1) obtain c i where "authorize_call sha issue px sc sn c i g b = (Inr p, g', b')"
          by (auto split: sum.splits)
        with assms(2) calls show False by blast
      qed simp
    qed
    with JObj show ?thesis by (simp add: is_tool_call_def)
  qed (simp_all add: is_tool_call_def)
  with disc show ?thesis by blast
qed

theorem discovery_is_no_call_witness:
  "\<exists>p g' b'. proxy_permit (\<lambda>_. []) (\<lambda>_. ''req'') (\<lambda>_. Some (JObj [])) (\<lambda>_ _ _ n. (Inr demo_token, n :: nat))
      demo_proxy (idle 0 ''g'') demo_headers (Some ''x'') demo_store 0 = (Inr p, g', b') \<and> pm_grant_id p = None \<and> g' = demo_store"
proof -
  have "proxy_permit (\<lambda>_. []) (\<lambda>_. ''req'') (\<lambda>_. Some (JObj [])) (\<lambda>_ _ _ n. (Inr demo_token, n :: nat))
      demo_proxy (idle 0 ''g'') demo_headers (Some ''x'') demo_store 0 =
      (Inr \<lparr>pm_token = demo_token, pm_grant_id = None, pm_source = ''DISCOVERY'', pm_context = None\<rparr>, demo_store, 0)"
    by (simp add: proxy_permit_def demo_request_facts(1) demo_snapshot parse_rpc_def)
  from this discovery_is_no_call [OF this] show ?thesis by simp
qed

lemma forwarded_not_authorization: "forwards_header n \<Longrightarrow> py_lower n \<noteq> ''authorization''"
  by (auto simp: forwards_header_def forwarded_names_def starts_with_def)

lemma set_header_rest:
  "py_lower n \<noteq> ''authorization'' \<Longrightarrow>
     filter (\<lambda>(k, _). py_lower k = ''authorization'') (set_header hs n v)
       = filter (\<lambda>(k, _). py_lower k = ''authorization'') hs"
  by (induction hs n v rule: set_header.induct) auto

text \<open>
  The agent's credential never reaches the provider and the provider's token is the only
  one sent: among the headers of the upstream request there is exactly one authorization header, in
  whatever case the agent spelled its own, and it carries the provider token.
\<close>

theorem single_authorization_header:
  "filter (\<lambda>(n, _). py_lower n = ''authorization'') (outgoing_headers token incoming body)
     = [(''Authorization'', ''Bearer '' @ token)]"
proof -
  let ?a = "filter (\<lambda>(n :: string, _ :: string). py_lower n = ''authorization'')"
  let ?start = "[(''Authorization'', ''Bearer '' @ token), (''Accept-Encoding'', ''identity''),
                   (''User-Agent'', ''HermeTeam-Dynamic-Authority/0.1'')]"
  have low: "py_lower ''Authorization'' = ''authorization''" "py_lower ''Accept-Encoding'' \<noteq> ''authorization''"
    "py_lower ''User-Agent'' \<noteq> ''authorization''" "py_lower ''Content-Length'' \<noteq> ''authorization''"
    by code_simp+
  have copy: "?a (foldl (\<lambda>hs (n, v). if forwards_header n then set_header hs n v else hs) hs incoming) = ?a hs" for hs
    by (induction incoming arbitrary: hs) (auto simp: set_header_rest forwarded_not_authorization)
  show ?thesis
    using copy [of ?start] low by (simp add: outgoing_headers_def Let_def set_header_rest split: option.split)
qed

end
