(* ===== verification/Statuses.thy ===== *)
theory Statuses
  imports PyJson
begin

text \<open>
  \<open>orchestrator/sdlc_orchestrator/statuses.py\<close> and the transition lookup of
  \<open>transitions.py\<close>: the final statuses of a run, which role may report which, the labels of the
  roles, and the table that hands a work item from one role to the next. Roles are strings; label
  sets are sets.
\<close>

section \<open>Statuses and roles\<close>

datatype final_status =
    CHARTER_READY | ROADMAP_READY | READY_FOR_ITERATION | IN_PROGRESS | REVIEW | DONE
  | REPLAN_REQUIRED | PAUSED | KILLED
  | READY_FOR_BUILD | PR_READY_FOR_REVIEW | APPROVE | REQUEST_CHANGES
  | BLOCKED | BLOCKED_NO_ACTION | NO_ACTION | MONITORING | ESCALATED | PROPOSED_FOR_HUMAN_REVIEW

fun status_value :: "final_status \<Rightarrow> string" where
  "status_value CHARTER_READY = ''CHARTER_READY''"
| "status_value ROADMAP_READY = ''ROADMAP_READY''"
| "status_value READY_FOR_ITERATION = ''READY_FOR_ITERATION''"
| "status_value IN_PROGRESS = ''IN_PROGRESS''"
| "status_value REVIEW = ''REVIEW''"
| "status_value DONE = ''DONE''"
| "status_value REPLAN_REQUIRED = ''REPLAN_REQUIRED''"
| "status_value PAUSED = ''PAUSED''"
| "status_value KILLED = ''KILLED''"
| "status_value READY_FOR_BUILD = ''READY_FOR_BUILD''"
| "status_value PR_READY_FOR_REVIEW = ''PR_READY_FOR_REVIEW''"
| "status_value APPROVE = ''APPROVE''"
| "status_value REQUEST_CHANGES = ''REQUEST_CHANGES''"
| "status_value BLOCKED = ''BLOCKED''"
| "status_value BLOCKED_NO_ACTION = ''BLOCKED_NO_ACTION''"
| "status_value NO_ACTION = ''NO_ACTION''"
| "status_value MONITORING = ''MONITORING''"
| "status_value ESCALATED = ''ESCALATED''"
| "status_value PROPOSED_FOR_HUMAN_REVIEW = ''PROPOSED_FOR_HUMAN_REVIEW''"

definition all_statuses :: "final_status list" where
  "all_statuses = [CHARTER_READY, ROADMAP_READY, READY_FOR_ITERATION, IN_PROGRESS, REVIEW, DONE, REPLAN_REQUIRED,
     PAUSED, KILLED, READY_FOR_BUILD, PR_READY_FOR_REVIEW, APPROVE, REQUEST_CHANGES, BLOCKED, BLOCKED_NO_ACTION,
     NO_ACTION, MONITORING, ESCALATED, PROPOSED_FOR_HUMAN_REVIEW]"

definition status_of_value :: "string \<Rightarrow> final_status option" where
  "status_of_value v = find (\<lambda>s. status_value s = v) all_statuses"

definition valid_roles :: "string list" where
  "valid_roles = [''project-manager'', ''planner'', ''builder'', ''reviewer'', ''release'', ''incident'', ''learning'']"

definition terminal_labels :: "string set" where
  "terminal_labels = {''state:done'', ''state:cancelled'', ''hermes:blocked'', ''hermes:manual-only''}"

definition default_role_labels :: "(string \<times> string set) list" where
  "default_role_labels =
     [(''project-manager'', {''hermes:project-manager'', ''state:project-management''}),
      (''planner'', {''hermes:planner'', ''state:ready-for-planning''}),
      (''builder'', {''hermes:builder'', ''state:ready-for-build''}),
      (''reviewer'', {''hermes:reviewer'', ''state:review-needed''}),
      (''release'', {''hermes:release'', ''state:ready-for-release''}),
      (''incident'', {''hermes:incident''}),
      (''learning'', {''hermes:learning''})]"

definition default_role_assignee :: "string \<Rightarrow> string" where
  "default_role_assignee role = ''hermes-'' @ role"

definition role_final_statuses :: "(string \<times> final_status list) list" where
  "role_final_statuses =
     [(''project-manager'', [CHARTER_READY, ROADMAP_READY, READY_FOR_ITERATION, IN_PROGRESS, REVIEW, DONE, BLOCKED,
                             REPLAN_REQUIRED, PAUSED, KILLED]),
      (''planner'', [READY_FOR_BUILD, BLOCKED]),
      (''builder'', [PR_READY_FOR_REVIEW, BLOCKED]),
      (''reviewer'', [APPROVE, REQUEST_CHANGES, BLOCKED]),
      (''release'', [NO_ACTION, BLOCKED_NO_ACTION]),
      (''incident'', [MONITORING, ESCALATED, NO_ACTION]),
      (''learning'', [PROPOSED_FOR_HUMAN_REVIEW, NO_ACTION])]"

definition terminal_final_statuses :: "final_status list" where
  "terminal_final_statuses = [BLOCKED, BLOCKED_NO_ACTION, NO_ACTION, MONITORING, ESCALATED,
     PROPOSED_FOR_HUMAN_REVIEW, DONE, PAUSED, KILLED]"

definition env_role_name :: "string \<Rightarrow> string" where
  "env_role_name role = map (\<lambda>c. if c = CHR ''-'' then CHR ''_'' else c) (py_upper role)"

definition allowed_status_values :: "string \<Rightarrow> string list result" where
  "allowed_status_values role = (case map_of role_final_statuses role of
     None \<Rightarrow> Inl (KeyError role)
   | Some ss \<Rightarrow> Inr (sort_key id (map status_value ss)))"

definition validate_final_status :: "string \<Rightarrow> string \<Rightarrow> final_status result" where
  "validate_final_status role value =
     (case status_of_value value of
        None \<Rightarrow> Inl (ValueError (''unknown final_status: '' @ value))
      | Some status \<Rightarrow>
          (case map_of role_final_statuses role of
             None \<Rightarrow> Inl (KeyError role)
           | Some ss \<Rightarrow>
               if status \<in> set ss then Inr status
               else Inl (ValueError (''final_status '' @ value @ '' is not allowed for '' @ role @ ''; allowed: '' @
                      join_str '', '' (sort_key id (map status_value ss))))))"

section \<open>Transitions between roles\<close>

record transition_spec =
  tr_next_role :: "string option"
  tr_add :: "string set"
  tr_remove :: "string set"
  tr_comment :: string

definition mk_transition :: "string option \<Rightarrow> string set \<Rightarrow> string set \<Rightarrow> string \<Rightarrow> transition_spec" where
  "mk_transition n a r c = \<lparr>tr_next_role = n, tr_add = a, tr_remove = r, tr_comment = c\<rparr>"

definition transition_table :: "((string \<times> final_status) \<times> transition_spec) list" where
  "transition_table =
     [((''planner'', READY_FOR_BUILD), mk_transition (Some ''builder'')
        {''state:ready-for-build'', ''hermes:builder''} {''state:ready-for-planning'', ''hermes:planner''}
        ''Planner completed the spec/plan. Ready for builder.''),
      ((''builder'', PR_READY_FOR_REVIEW), mk_transition (Some ''reviewer'')
        {''state:review-needed'', ''hermes:reviewer''} {''state:ready-for-build'', ''hermes:builder''}
        ''Builder opened a change request with evidence. Ready for reviewer.''),
      ((''reviewer'', APPROVE), mk_transition (Some ''release'')
        {''state:ready-for-release'', ''hermes:release''} {''state:review-needed'', ''hermes:reviewer''}
        ''Reviewer approved the fixed change request. Ready for release evidence check.''),
      ((''reviewer'', REQUEST_CHANGES), mk_transition (Some ''builder'')
        {''state:ready-for-build'', ''hermes:builder''} {''state:review-needed'', ''hermes:reviewer''}
        ''Reviewer requested changes. Returning to builder.''),
      ((''release'', NO_ACTION), mk_transition None
        {''state:done''} {''state:ready-for-release'', ''hermes:release''}
        ''Release evidence checked; no action required.''),
      ((''release'', BLOCKED_NO_ACTION), mk_transition None
        {''hermes:manual-only''} {''state:ready-for-release'', ''hermes:release''}
        ''Release action requires manual handling or an external release integration.'')]"

definition resolve_transition :: "string \<Rightarrow> final_status \<Rightarrow> transition_spec option" where
  "resolve_transition role st =
     (case map_of transition_table (role, st) of
        Some spec \<Rightarrow> Some spec
      | None \<Rightarrow>
          if st \<in> set terminal_final_statuses
          then Some (mk_transition None (if st = BLOCKED then {''hermes:blocked''} else {}) {}
                 (''Hermes '' @ role @ '' finished with '' @ status_value st @ ''.''))
          else None)"

section \<open>Facts about the tables\<close>

lemma status_value_inj [simp]: "status_value a = status_value b \<longleftrightarrow> a = b"
  by (cases a; cases b) simp_all

lemma all_statuses_complete [simp]: "s \<in> set all_statuses"
  by (cases s) (simp_all add: all_statuses_def)

lemma status_of_value_Some: "status_of_value v = Some s \<longleftrightarrow> v = status_value s"
proof
  assume "status_of_value v = Some s"
  then show "v = status_value s" by (auto simp: status_of_value_def dest: find_Some_in)
next
  assume v: "v = status_value s"
  then have "status_of_value v \<noteq> None"
    using all_statuses_complete [of s] by (auto simp: status_of_value_def find_None_all)
  then obtain t where "status_of_value v = Some t" by blast
  with v show "status_of_value v = Some s" by (auto simp: status_of_value_def dest: find_Some_in)
qed

lemma status_of_value_status [simp]: "status_of_value (status_value s) = Some s"
  by (simp add: status_of_value_Some)

lemma validate_final_status_Inr [guard_simps]:
  "validate_final_status role v = Inr s \<longleftrightarrow>
     v = status_value s \<and> (\<exists>ss. map_of role_final_statuses role = Some ss \<and> s \<in> set ss)"
  by (auto simp: validate_final_status_def status_of_value_Some split: option.splits)

lemma validate_final_status_exn:
  "validate_final_status role v = Inl e \<Longrightarrow> role \<in> set (map fst role_final_statuses) \<Longrightarrow> \<exists>m. e = ValueError m"
  by (auto simp: validate_final_status_def map_of_eq_None_iff split: option.splits if_splits)

text \<open>Labels after a transition, and whether a role picks up an item with given labels by default.\<close>

definition labels_after :: "transition_spec \<Rightarrow> string set \<Rightarrow> string set" where
  "labels_after spec labels = (labels \<union> tr_add spec) - tr_remove spec"

definition role_matches :: "string \<Rightarrow> string set \<Rightarrow> bool" where
  "role_matches role labels \<longleftrightarrow> labels \<inter> terminal_labels = {} \<and>
     (\<exists>ls. map_of default_role_labels role = Some ls \<and> labels \<inter> ls \<noteq> {})"

text \<open>What is checked of each entry of the table.\<close>

definition entry_ok :: "string \<Rightarrow> transition_spec \<Rightarrow> bool" where
  "entry_ok role spec = (case map_of default_role_labels role of
     None \<Rightarrow> False
   | Some own \<Rightarrow> own \<subseteq> tr_remove spec \<and> tr_add spec \<inter> tr_remove spec = {} \<and>
       (case tr_next_role spec of
          None \<Rightarrow> tr_add spec \<inter> terminal_labels \<noteq> {}
        | Some n \<Rightarrow> n \<noteq> role \<and> tr_add spec \<inter> terminal_labels = {} \<and>
            (case map_of default_role_labels n of None \<Rightarrow> False | Some ls \<Rightarrow> ls \<inter> tr_add spec \<noteq> {})))"

lemma table_ok: "list_all (\<lambda>((role, _), spec). entry_ok role spec) transition_table"
  by code_simp

lemma entry_hand_over:
  assumes "entry_ok role spec" "labels \<inter> terminal_labels = {}"
  shows "\<not> role_matches role (labels_after spec labels) \<and>
    (case tr_next_role spec of
       Some n \<Rightarrow> n \<noteq> role \<and> role_matches n (labels_after spec labels)
     | None \<Rightarrow> (\<forall>r. \<not> role_matches r (labels_after spec labels)))"
  using assms unfolding entry_ok_def role_matches_def labels_after_def
  by (auto split: option.splits)

text \<open>
  The hand-over table and the role labels fit together. For every entry of the table,
  after its labels are added and its old labels removed from an open item, the reporting role no longer
  matches the item; if a next role is named it matches by its default labels, and otherwise the item
  carries a terminal label and no role matches it any more. A run that ends blocked takes the item from
  every role as well.
\<close>

theorem transitions_hand_over:
  assumes "resolve_transition role st = Some spec" "(role, st) \<in> set (map fst transition_table) \<or> st = BLOCKED"
    and "labels \<inter> terminal_labels = {}"
  shows "\<not> role_matches role (labels_after spec labels) \<and>
    (case tr_next_role spec of
       Some next_role \<Rightarrow> next_role \<noteq> role \<and> role_matches next_role (labels_after spec labels)
     | None \<Rightarrow> (\<forall>r. \<not> role_matches r (labels_after spec labels)))"
  using assms(1,2)
proof (cases "map_of transition_table (role, st)")
  case None
  then have "st = BLOCKED" using assms(2) by (auto simp: map_of_eq_None_iff)
  with None assms(1) have "spec = mk_transition None {''hermes:blocked''} {}
      (''Hermes '' @ role @ '' finished with '' @ status_value st @ ''.'')"
    by (simp add: resolve_transition_def terminal_final_statuses_def)
  then show ?thesis by (auto simp: role_matches_def labels_after_def terminal_labels_def mk_transition_def)
next
  case (Some s)
  with assms(1) have "s = spec" by (simp add: resolve_transition_def)
  with Some have "((role, st), spec) \<in> set transition_table" by (simp add: map_of_SomeD)
  with table_ok have "entry_ok role spec" by (auto simp: list_all_iff)
  then show ?thesis by (rule entry_hand_over [OF _ assms(3)])
qed

theorem transitions_hand_over_witness:
  "role_matches ''reviewer'' (labels_after (the (resolve_transition ''builder'' PR_READY_FOR_REVIEW)) {''hermes:builder''})"
proof -
  have r: "resolve_transition ''builder'' PR_READY_FOR_REVIEW = Some (the (resolve_transition ''builder'' PR_READY_FOR_REVIEW))"
    and n: "tr_next_role (the (resolve_transition ''builder'' PR_READY_FOR_REVIEW)) = Some ''reviewer''"
    by (simp_all add: resolve_transition_def transition_table_def mk_transition_def)
  show ?thesis
    using transitions_hand_over [OF r, of "{''hermes:builder''}"] n
    by (simp add: transition_table_def terminal_labels_def)
qed

end
