(* ===== verification/WorkItems.thy ===== *)
theory WorkItems
  imports Statuses Judge PyText
begin

text \<open>
  \<open>provider_base.py\<close>, \<open>config.py\<close>, \<open>assignment.py\<close> and the issue
  normalisation of \<open>provider_github.py\<close> and \<open>provider_gitlab.py\<close>: work items with their
  revision and assignment keys, the validated configuration of one role, and the decision whether a role
  picks up an item. The environment is a partial map; \<open>urlparse\<close>, path resolution and
  \<open>ipaddress\<close> are parameters, and so is the hash.
\<close>

section \<open>Work items\<close>

record work_item =
  wi_provider :: string
  wi_repository_id :: string
  wi_kind :: string
  wi_external_id :: string
  wi_title :: string
  wi_body :: string
  wi_body_hash :: string
  wi_url :: string
  wi_labels :: "string list"
  wi_assignees :: "string list"
  wi_updated_at :: "string option"

definition revision_key :: "(string \<Rightarrow> string) \<Rightarrow> work_item \<Rightarrow> string" where
  "revision_key sha w = take 12 (sha (wi_title w @ '':'' @ wi_body_hash w))"

definition assignment_key :: "(string \<Rightarrow> string) \<Rightarrow> work_item \<Rightarrow> string \<Rightarrow> string" where
  "assignment_key sha w role =
     wi_provider w @ '':'' @ wi_repository_id w @ '':'' @ wi_kind w @ '':'' @ wi_external_id w @ '':'' @ role @
     '':v2:'' @ revision_key sha w"

section \<open>Configuration\<close>

type_synonym environment = "string \<rightharpoonup> string"

definition env_default :: "environment \<Rightarrow> string \<Rightarrow> string \<Rightarrow> string" where
  "env_default env name d = (case env name of Some v \<Rightarrow> v | None \<Rightarrow> d)"

text \<open>\<open>os.getenv(name) or None\<close>.\<close>

definition env_nonempty :: "environment \<Rightarrow> string \<Rightarrow> string option" where
  "env_nonempty env name = (case env name of Some v \<Rightarrow> (if v = [] then None else Some v) | None \<Rightarrow> None)"

definition env_bool :: "string option \<Rightarrow> bool \<Rightarrow> bool" where
  "env_bool value d = (case value of None \<Rightarrow> d
     | Some v \<Rightarrow> py_lower (py_strip v) \<in> {''1'', ''true'', ''yes'', ''on''})"

definition int_env :: "environment \<Rightarrow> string \<Rightarrow> int \<Rightarrow> int \<Rightarrow> int result" where
  "int_env env name d minimum =
     (case env name of
        None \<Rightarrow> Inr d
      | Some raw \<Rightarrow> if raw = [] then Inr d else
          (case py_int raw of
             None \<Rightarrow> Inl (ConfigError (name @ '' must be an integer''))
           | Some v \<Rightarrow> if v < minimum then Inl (ConfigError (name @ '' must be >= '' @ str_of_int minimum)) else Inr v))"

definition csv_set :: "environment \<Rightarrow> string \<Rightarrow> string set \<Rightarrow> string set" where
  "csv_set env name d =
     (case env name of
        None \<Rightarrow> d
      | Some raw \<Rightarrow> if py_strip raw = [] then d
          else set (map (\<lambda>item. py_lower (py_strip item)) (filter (\<lambda>item. py_strip item \<noteq> []) (split_char (CHR '','') raw))))"

record config =
  cf_enabled :: bool
  cf_role :: string
  cf_provider :: string
  cf_repository_id :: string
  cf_hermes_url :: string
  cf_api_server_key :: string
  cf_db_path :: string
  cf_lock_path :: string
  cf_max_starts_per_tick :: int
  cf_run_timeout_seconds :: int
  cf_max_attempts_per_assignment :: int
  cf_retry_delay_seconds :: int
  cf_retry_lost_runs :: bool
  cf_retry_transient_failures :: bool
  cf_github_token :: "string option"
  cf_github_api_base_url :: string
  cf_github_repository_full_name :: "string option"
  cf_gitlab_token :: "string option"
  cf_gitlab_api_base_url :: string
  cf_gitlab_project :: "string option"
  cf_role_labels :: "string set"
  cf_terminal_labels :: "string set"
  cf_role_assignees :: "string set"
  cf_apply_transitions :: bool
  cf_transition_comment_only :: bool
  cf_repair_enabled :: bool
  cf_model_repair_enabled :: bool
  cf_repair_model :: string
  cf_repair_timeout_seconds :: int
  cf_repair_max_chars :: int

definition validate_local_hermes_url :: "(string \<Rightarrow> string \<times> string option) \<Rightarrow> string \<Rightarrow> unit result" where
  "validate_local_hermes_url parse_url url = (case parse_url url of (scheme, hostname) \<Rightarrow>
     if scheme \<notin> {''http'', ''https''} then Inl (ConfigError ''ORCHESTRATOR_HERMES_URL must be http(s)'')
     else if hostname \<notin> {Some ''127.0.0.1'', Some ''localhost'', Some ''::1''}
     then Inl (ConfigError ''ORCHESTRATOR_HERMES_URL must point to localhost'') else Inr ())"

definition validate_data_path :: "(string \<Rightarrow> bool) \<Rightarrow> string \<Rightarrow> string \<Rightarrow> unit result" where
  "validate_data_path under_data path name =
     (if under_data path then Inr () else Inl (ConfigError (name @ '' must be under /opt/data/sdlc-orchestrator'')))"

definition config_from_env :: "(string \<Rightarrow> string \<times> string option) \<Rightarrow> (string \<Rightarrow> bool) \<Rightarrow> environment \<Rightarrow> config result" where
  "config_from_env parse_url under_data env =
    (let role = py_lower (py_strip (env_default env ''ORCHESTRATOR_ROLE'' []));
         provider = py_lower (py_strip (env_default env ''ORCHESTRATOR_PROVIDER'' (env_default env ''REPOSITORY_PROVIDER'' ''github'')));
         hermes_url = rstrip_char (CHR ''/'') (env_default env ''ORCHESTRATOR_HERMES_URL'' ''http://127.0.0.1:8642'');
         db_path = env_default env ''ORCHESTRATOR_DB_PATH'' ''/opt/data/sdlc-orchestrator/orchestrator.sqlite'';
         lock_path = env_default env ''ORCHESTRATOR_LOCK_PATH'' ''/opt/data/sdlc-orchestrator/run_once.lock'';
         repository_id = py_strip (case env_nonempty env ''REPOSITORY_ID'' of Some v \<Rightarrow> v
           | None \<Rightarrow> (case env_nonempty env ''GITHUB_REPOSITORY_FULL_NAME'' of Some v \<Rightarrow> v | None \<Rightarrow> []));
         api_server_key = env_default env ''API_SERVER_KEY'' [];
         role_name = env_role_name role;
         flag = (\<lambda>name d. env_bool (env name) d)
     in if role \<notin> set valid_roles then Inl (ConfigError ''ORCHESTRATOR_ROLE must be one of the valid roles'')
        else if provider \<notin> {''github'', ''gitlab''} then Inl (ConfigError ''ORCHESTRATOR_PROVIDER must be github or gitlab'')
        else result_bind (validate_local_hermes_url parse_url hermes_url) (\<lambda>_.
          result_bind (validate_data_path under_data db_path ''ORCHESTRATOR_DB_PATH'') (\<lambda>_.
          result_bind (validate_data_path under_data lock_path ''ORCHESTRATOR_LOCK_PATH'') (\<lambda>_.
          if repository_id = [] then Inl (ConfigError ''REPOSITORY_ID or GITHUB_REPOSITORY_FULL_NAME is required'')
          else if api_server_key = [] then Inl (ConfigError ''API_SERVER_KEY is required'')
          else
            result_bind (int_env env ''ORCHESTRATOR_MAX_STARTS_PER_TICK'' 1 0) (\<lambda>max_starts.
            result_bind (int_env env ''ORCHESTRATOR_RUN_TIMEOUT_SECONDS'' 5400 60) (\<lambda>run_timeout.
            result_bind (int_env env ''ORCHESTRATOR_MAX_ATTEMPTS_PER_ASSIGNMENT'' 3 1) (\<lambda>max_attempts.
            result_bind (int_env env ''ORCHESTRATOR_RETRY_DELAY_SECONDS'' 300 0) (\<lambda>retry_delay.
            result_bind (int_env env ''ORCHESTRATOR_FINAL_RESPONSE_REPAIR_TIMEOUT_SECONDS'' 120 1) (\<lambda>repair_timeout.
            result_bind (int_env env ''ORCHESTRATOR_FINAL_RESPONSE_REPAIR_MAX_CHARS'' 200000 1000) (\<lambda>max_chars.
            Inr \<lparr>cf_enabled = flag ''ORCHESTRATOR_ENABLED'' False, cf_role = role, cf_provider = provider,
              cf_repository_id = repository_id, cf_hermes_url = hermes_url, cf_api_server_key = api_server_key,
              cf_db_path = db_path, cf_lock_path = lock_path, cf_max_starts_per_tick = max_starts,
              cf_run_timeout_seconds = run_timeout, cf_max_attempts_per_assignment = max_attempts,
              cf_retry_delay_seconds = retry_delay,
              cf_retry_lost_runs = flag ''ORCHESTRATOR_RETRY_LOST_RUNS'' True,
              cf_retry_transient_failures = flag ''ORCHESTRATOR_RETRY_TRANSIENT_FAILURES'' True,
              cf_github_token = env_nonempty env ''ORCHESTRATOR_GITHUB_TOKEN'',
              cf_github_api_base_url = rstrip_char (CHR ''/'') (env_default env ''GITHUB_API_BASE_URL'' ''https://api.github.com''),
              cf_github_repository_full_name = env_nonempty env ''GITHUB_REPOSITORY_FULL_NAME'',
              cf_gitlab_token = env_nonempty env ''ORCHESTRATOR_GITLAB_TOKEN'',
              cf_gitlab_api_base_url = rstrip_char (CHR ''/'') (env_default env ''GITLAB_API_BASE_URL'' ''https://gitlab.com/api/v4''),
              cf_gitlab_project = env_nonempty env ''GITLAB_PROJECT'',
              cf_role_labels = csv_set env (''ORCHESTRATOR_'' @ role_name @ ''_LABELS'')
                (case map_of default_role_labels role of Some ls \<Rightarrow> ls | None \<Rightarrow> {}),
              cf_terminal_labels = csv_set env ''ORCHESTRATOR_TERMINAL_LABELS'' terminal_labels,
              cf_role_assignees = csv_set env (''ORCHESTRATOR_'' @ role_name @ ''_ASSIGNEES'') {default_role_assignee role},
              cf_apply_transitions = flag ''ORCHESTRATOR_APPLY_TRANSITIONS'' False,
              cf_transition_comment_only = flag ''ORCHESTRATOR_TRANSITION_COMMENT_ONLY'' True,
              cf_repair_enabled = flag ''ORCHESTRATOR_FINAL_RESPONSE_REPAIR_ENABLED'' True,
              cf_model_repair_enabled = flag ''ORCHESTRATOR_FINAL_RESPONSE_MODEL_REPAIR_ENABLED'' True,
              cf_repair_model = env_default env ''ORCHESTRATOR_FINAL_RESPONSE_REPAIR_MODEL'' ''hermes-json-repair'',
              cf_repair_timeout_seconds = repair_timeout, cf_repair_max_chars = max_chars\<rparr>))))))))))"

text \<open>The status server binds to an address literal, never to a host name; \<open>is_ip\<close> is \<open>ipaddress.ip_address\<close>.\<close>

record status_server_config =
  ss_bind :: string
  ss_port :: int

definition validate_status_bind :: "(string \<Rightarrow> bool) \<Rightarrow> string \<Rightarrow> unit result" where
  "validate_status_bind is_ip bind =
     (if is_ip bind then Inr () else Inl (ConfigError ''ORCHESTRATOR_STATUS_BIND must be an IP address''))"

definition status_server_from_env :: "(string \<Rightarrow> bool) \<Rightarrow> environment \<Rightarrow> status_server_config result" where
  "status_server_from_env is_ip env =
     (let bind = py_strip (env_default env ''ORCHESTRATOR_STATUS_BIND'' ''0.0.0.0'')
      in result_bind (validate_status_bind is_ip bind) (\<lambda>_.
         result_bind (int_env env ''ORCHESTRATOR_STATUS_PORT'' 8650 1) (\<lambda>port.
         Inr \<lparr>ss_bind = bind, ss_port = port\<rparr>)))"

section \<open>Assignment\<close>

definition matches_role :: "work_item \<Rightarrow> config \<Rightarrow> bool" where
  "matches_role w cf =
     (let labels = py_lower ` set (wi_labels w) in
      if labels \<inter> cf_terminal_labels cf \<noteq> {} then False
      else let assignees = py_lower ` set (wi_assignees w) in
        labels \<inter> cf_role_labels cf \<noteq> {} \<or> assignees \<inter> cf_role_assignees cf \<noteq> {})"

section \<open>Issues\<close>

text \<open>\<open>x or ''''\<close> where the model covers text and missing values; anything else has the wrong type for what follows.\<close>

fun text_or_empty :: "json \<Rightarrow> string result" where
  "text_or_empty (JStr s) = Inr s"
| "text_or_empty v = (if truthy v then Inl (TypeError ''text expected'') else Inr [])"

text \<open>\<open>issue.get(key, [])\<close> as the list that is iterated over.\<close>

definition json_items :: "pydict \<Rightarrow> string \<Rightarrow> json list result" where
  "json_items d key = (if dict_has d key then
     (case dict_get d key of JArr xs \<Rightarrow> Inr xs | _ \<Rightarrow> Inl (TypeError ''object is not iterable'')) else Inr [])"

definition named_items :: "string \<Rightarrow> json list \<Rightarrow> string list result" where
  "named_items field xs = map_result (\<lambda>x. result_bind (json_get x field) text_or_empty) xs"

definition lower_names :: "string list \<Rightarrow> string list" where
  "lower_names names = sort_key id (map py_lower (filter (\<lambda>n. n \<noteq> []) names))"

definition opt_text :: "json \<Rightarrow> string option" where
  "opt_text v = (case v of JStr s \<Rightarrow> Some s | _ \<Rightarrow> None)"

definition github_normalize_issue :: "(json \<Rightarrow> string) \<Rightarrow> (string \<Rightarrow> string) \<Rightarrow> pydict \<Rightarrow> string \<Rightarrow> work_item option result" where
  "github_normalize_issue py_str sha issue repository_id =
     (if dict_has issue ''pull_request'' then Inr None
      else
        result_bind (text_or_empty (dict_get issue ''body'')) (\<lambda>body.
        result_bind (json_items issue ''labels'') (\<lambda>ls.
        result_bind (named_items ''name'' ls) (\<lambda>labels.
        result_bind (json_items issue ''assignees'') (\<lambda>us.
        result_bind (named_items ''login'' us) (\<lambda>assignees.
        result_bind (json_key (JObj issue) ''number'') (\<lambda>number.
        result_bind (text_or_empty (dict_get issue ''title'')) (\<lambda>title.
        result_bind (text_or_empty (dict_get issue ''html_url'')) (\<lambda>html_url.
        result_bind (text_or_empty (dict_get issue ''url'')) (\<lambda>url.
        Inr (Some \<lparr>wi_provider = ''github'', wi_repository_id = repository_id, wi_kind = ''issue'',
          wi_external_id = json_str py_str number, wi_title = title, wi_body = body, wi_body_hash = sha body,
          wi_url = (if html_url \<noteq> [] then html_url else url),
          wi_labels = lower_names labels, wi_assignees = lower_names assignees,
          wi_updated_at = opt_text (dict_get issue ''updated_at'')\<rparr>)))))))))))"

definition gitlab_normalize_issue :: "(json \<Rightarrow> string) \<Rightarrow> (string \<Rightarrow> string) \<Rightarrow> pydict \<Rightarrow> string \<Rightarrow> work_item result" where
  "gitlab_normalize_issue py_str sha issue repository_id =
        result_bind (text_or_empty (dict_get issue ''description'')) (\<lambda>body.
        result_bind (json_items issue ''labels'') (\<lambda>ls.
        result_bind (json_items issue ''assignees'') (\<lambda>us.
        result_bind (named_items ''username'' us) (\<lambda>assignees.
        result_bind (json_key (JObj issue) ''iid'') (\<lambda>iid.
        result_bind (text_or_empty (dict_get issue ''title'')) (\<lambda>title.
        result_bind (text_or_empty (dict_get issue ''web_url'')) (\<lambda>url.
        Inr \<lparr>wi_provider = ''gitlab'', wi_repository_id = repository_id, wi_kind = ''issue'',
          wi_external_id = json_str py_str iid, wi_title = title, wi_body = body, wi_body_hash = sha body,
          wi_url = url, wi_labels = lower_names (map (json_str py_str) ls), wi_assignees = lower_names assignees,
          wi_updated_at = opt_text (dict_get issue ''updated_at'')\<rparr>)))))))"


section \<open>Keys and limits\<close>

lemma int_env_bound: "int_env env n d m = Inr v \<Longrightarrow> m \<le> d \<Longrightarrow> m \<le> v"
  by (auto simp: int_env_def split: option.splits if_splits)

lemma validate_local_Inr [guard_simps]:
  "validate_local_hermes_url parse url = Inr u \<longleftrightarrow>
     fst (parse url) \<in> {''http'', ''https''} \<and> snd (parse url) \<in> {Some ''127.0.0.1'', Some ''localhost'', Some ''::1''}"
  by (auto simp: validate_local_hermes_url_def split: prod.splits)

lemma validate_data_Inr [guard_simps]: "validate_data_path ok p n = Inr u \<longleftrightarrow> ok p"
  by (simp add: validate_data_path_def)

text \<open>The last component of \<open>key.rsplit('':'', 1)\<close>.\<close>

definition after_last_colon :: "string \<Rightarrow> string" where
  "after_last_colon key = rev (takeWhile (\<lambda>c. c \<noteq> CHR '':'') (rev key))"

lemma after_last_colon_append:
  assumes "CHR '':'' \<notin> set r"
  shows "after_last_colon (p @ CHR '':'' # r) = r"
proof -
  have "takeWhile (\<lambda>c. c \<noteq> CHR '':'') (rev r @ CHR '':'' # rev p) = rev r"
    using assms by (subst takeWhile_append2) auto
  then show ?thesis by (simp add: after_last_colon_def)
qed

lemma assignment_key_revision:
  assumes "CHR '':'' \<notin> set (revision_key sha w)"
  shows "after_last_colon (assignment_key sha w role) = revision_key sha w"
  using after_last_colon_append [OF assms,
      of "wi_provider w @ '':'' @ wi_repository_id w @ '':'' @ wi_kind w @ '':'' @ wi_external_id w @ '':'' @ role @ '':v2''"]
  by (simp add: assignment_key_def)

section \<open>Properties\<close>

text \<open>
  A configuration that validation accepts is safe to run: the role is one of the seven
  roles and the provider one of the two, Hermes is reached on the loopback interface only, database and
  lock lie below the data directory, a repository and an API key are present, at least one attempt and a
  timeout of at least 60 seconds are allowed, and every other limit is at its minimum or above.
\<close>

theorem config_from_env_sound:
  assumes "config_from_env parse_url under_data env = Inr cf"
  shows "cf_role cf \<in> set valid_roles \<and> cf_provider cf \<in> {''github'', ''gitlab''} \<and>
    snd (parse_url (cf_hermes_url cf)) \<in> {Some ''127.0.0.1'', Some ''localhost'', Some ''::1''} \<and>
    under_data (cf_db_path cf) \<and> under_data (cf_lock_path cf) \<and>
    cf_repository_id cf \<noteq> [] \<and> cf_api_server_key cf \<noteq> [] \<and>
    1 \<le> cf_max_attempts_per_assignment cf \<and> 60 \<le> cf_run_timeout_seconds cf \<and> 0 \<le> cf_max_starts_per_tick cf \<and>
    0 \<le> cf_retry_delay_seconds cf \<and> 1 \<le> cf_repair_timeout_seconds cf \<and> 1000 \<le> cf_repair_max_chars cf"
  using assms unfolding config_from_env_def Let_def if_Inl_Inr result_bind_Inr_iff sum.inject
  apply (elim exE conjE)
  apply (drule sym [where t = cf])
  apply (simp only: config.simps not_not validate_local_Inr validate_data_Inr)
  apply (simp add: int_env_bound)
  done

theorem config_from_env_sound_witness:
  "\<exists>cf. config_from_env (\<lambda>_. (''http'', Some ''localhost'')) (\<lambda>_. True)
     [''ORCHESTRATOR_ROLE'' \<mapsto> '' Builder'', ''REPOSITORY_ID'' \<mapsto> ''o/r'', ''API_SERVER_KEY'' \<mapsto> ''k'',
      ''ORCHESTRATOR_MAX_ATTEMPTS_PER_ASSIGNMENT'' \<mapsto> ''5''] = Inr cf \<and>
     cf_role cf \<in> set valid_roles \<and> 1 \<le> cf_max_attempts_per_assignment cf"
proof -
  let ?c = "config_from_env (\<lambda>_. (''http'', Some ''localhost'')) (\<lambda>_. True)
     [''ORCHESTRATOR_ROLE'' \<mapsto> '' Builder'', ''REPOSITORY_ID'' \<mapsto> ''o/r'', ''API_SERVER_KEY'' \<mapsto> ''k'',
      ''ORCHESTRATOR_MAX_ATTEMPTS_PER_ASSIGNMENT'' \<mapsto> ''5'']"
  have "case ?c of Inr _ \<Rightarrow> True | Inl _ \<Rightarrow> False" by code_simp
  then obtain cf where cf: "?c = Inr cf" by (auto split: sum.splits)
  from config_from_env_sound [OF cf] cf show ?thesis by blast
qed

end
