(* ===== verification/FinalResponse.thy ===== *)
theory FinalResponse
  imports Statuses
begin

text \<open>
  \<open>final_response.py\<close>: the strict contract for what a run returns. \<open>json.loads\<close> on text is the
  parameter \<open>loads\<close>, where \<open>None\<close> is a decoding error.
\<close>

record final_response =
  fr_assignment_key :: string
  fr_role :: string
  fr_final_status :: final_status
  fr_summary :: string
  fr_evidence :: "json list"
  fr_decision_log :: "string list"
  fr_risks :: "string list"
  fr_assumptions :: "string list"
  fr_next_handoff :: "pydict option"
  fr_block_reason :: "string option"

abbreviation response_error :: "string \<Rightarrow> 'a result" where
  "response_error m \<equiv> Inl (FinalResponseError m)"

definition final_response_keys :: "string list" where
  "final_response_keys = [''final_response'', ''output'', ''result'', ''response'', ''text'']"

definition to_json :: "final_response \<Rightarrow> json" where
  "to_json r = JObj
     [(''assignment_key'', JStr (fr_assignment_key r)), (''role'', JStr (fr_role r)),
      (''final_status'', JStr (status_value (fr_final_status r))), (''summary'', JStr (fr_summary r)),
      (''evidence'', JArr (fr_evidence r)), (''decision_log'', JArr (map JStr (fr_decision_log r))),
      (''risks'', JArr (map JStr (fr_risks r))), (''assumptions'', JArr (map JStr (fr_assumptions r))),
      (''next_handoff'', (case fr_next_handoff r of Some d \<Rightarrow> JObj d | None \<Rightarrow> JNull)),
      (''block_reason'', (case fr_block_reason r of Some s \<Rightarrow> JStr s | None \<Rightarrow> JNull))]"

text \<open>The text \<open>FinalResponse.to_json\<close> returns.\<close>

definition to_json_text :: "(pyfloat \<Rightarrow> string) \<Rightarrow> final_response \<Rightarrow> string" where
  "to_json_text fr r = dumps_spaced fr (to_json r)"

text \<open>The loop over the keys of the payload that may hold the response.\<close>

fun extract_from :: "(string \<Rightarrow> json option) \<Rightarrow> pydict \<Rightarrow> string list \<Rightarrow> pydict result" where
  "extract_from loads payload [] = response_error ''final response JSON object not found''"
| "extract_from loads payload (key # keys) =
     (case dict_get payload key of
        JObj d \<Rightarrow> Inr d
      | JStr s \<Rightarrow>
          if py_strip s = [] then extract_from loads payload keys
          else (case loads (py_strip s) of
             None \<Rightarrow> response_error (key @ '' is not valid JSON'')
           | Some (JObj d) \<Rightarrow> Inr d
           | Some _ \<Rightarrow> response_error (key @ '' JSON must be an object''))
      | _ \<Rightarrow> extract_from loads payload keys)"

definition extract_json_object :: "(string \<Rightarrow> json option) \<Rightarrow> pydict \<Rightarrow> pydict result" where
  "extract_json_object loads payload = extract_from loads payload final_response_keys"

definition required_str :: "pydict \<Rightarrow> string \<Rightarrow> string result" where
  "required_str data key = (case dict_get data key of
     JStr s \<Rightarrow> if s = [] then response_error (key @ '' must be a non-empty string'') else Inr s
   | _ \<Rightarrow> response_error (key @ '' must be a non-empty string''))"

definition is_str :: "json \<Rightarrow> bool" where
  "is_str v = (case v of JStr _ \<Rightarrow> True | _ \<Rightarrow> False)"

definition is_obj :: "json \<Rightarrow> bool" where
  "is_obj v = (case v of JObj _ \<Rightarrow> True | _ \<Rightarrow> False)"

fun the_str :: "json \<Rightarrow> string" where
  "the_str (JStr s) = s"
| "the_str _ = []"

definition optional_str_list :: "pydict \<Rightarrow> string \<Rightarrow> string list result" where
  "optional_str_list data key = (case dict_get data key of
     JNull \<Rightarrow> Inr []
   | JArr xs \<Rightarrow> if list_all is_str xs then Inr (map the_str xs) else response_error (key @ '' must be a list of strings'')
   | _ \<Rightarrow> response_error (key @ '' must be a list of strings''))"

definition evidence_list :: "pydict \<Rightarrow> json list result" where
  "evidence_list data = (case dict_get data ''evidence'' of
     JNull \<Rightarrow> Inr []
   | JArr xs \<Rightarrow> if list_all is_obj xs then Inr xs else response_error ''evidence must be a list of objects''
   | _ \<Rightarrow> response_error ''evidence must be a list of objects'')"

text \<open>\<open>except ValueError\<close> around \<open>validate_final_status\<close>.\<close>

fun as_response_error :: "'a result \<Rightarrow> 'a result" where
  "as_response_error (Inl (ValueError m)) = response_error m"
| "as_response_error r = r"

definition parse_final_response :: "(string \<Rightarrow> json option) \<Rightarrow> string \<Rightarrow> string \<Rightarrow> pydict \<Rightarrow> final_response result" where
  "parse_final_response loads expected_role expected_key payload =
     result_bind (extract_json_object loads payload) (\<lambda>data.
     result_bind (required_str data ''assignment_key'') (\<lambda>key.
     result_bind (required_str data ''role'') (\<lambda>role.
     result_bind (required_str data ''final_status'') (\<lambda>status_text.
     result_bind (required_str data ''summary'') (\<lambda>summary.
     result_bind (evidence_list data) (\<lambda>evidence.
     result_bind (optional_str_list data ''decision_log'') (\<lambda>decision_log.
     result_bind (optional_str_list data ''risks'') (\<lambda>risks.
     result_bind (optional_str_list data ''assumptions'') (\<lambda>assumptions.
     if key \<noteq> expected_key then response_error ''assignment_key mismatch''
     else if role \<noteq> expected_role then response_error ''role mismatch''
     else
       result_bind (as_response_error (validate_final_status role status_text)) (\<lambda>status.
       result_bind (case dict_get data ''next_handoff'' of JNull \<Rightarrow> Inr None | JObj d \<Rightarrow> Inr (Some d)
                    | _ \<Rightarrow> response_error ''next_handoff must be an object or null'') (\<lambda>next_handoff.
       result_bind (case dict_get data ''block_reason'' of JNull \<Rightarrow> Inr None | JStr s \<Rightarrow> Inr (Some s)
                    | _ \<Rightarrow> response_error ''block_reason must be a string or null'') (\<lambda>block_reason.
       Inr \<lparr>fr_assignment_key = key, fr_role = role, fr_final_status = status, fr_summary = summary,
            fr_evidence = evidence, fr_decision_log = decision_log, fr_risks = risks, fr_assumptions = assumptions,
            fr_next_handoff = next_handoff, fr_block_reason = block_reason\<rparr>))))))))))))"

section \<open>Facts\<close>

lemma as_response_error_Inr [simp]: "as_response_error r = Inr x \<longleftrightarrow> r = Inr x"
proof (cases r)
  case (Inl e)
  then show ?thesis by (cases e) simp_all
qed simp

lemma required_str_Inr [guard_simps]: "required_str d k = Inr s \<longleftrightarrow> dict_get d k = JStr s \<and> s \<noteq> []"
  by (auto simp: required_str_def split: json.splits)

lemma optional_str_list_Inr [guard_simps]:
  "optional_str_list d k = Inr xs \<longleftrightarrow> dict_get d k = JArr (map JStr xs) \<or> dict_get d k = JNull \<and> xs = []"
proof -
  have a: "list_all is_str vs \<Longrightarrow> map JStr (map the_str vs) = vs" for vs
    by (induction vs) (auto simp: is_str_def split: json.splits)
  have b: "list_all is_str (map JStr ys) \<and> map the_str (map JStr ys) = ys" for ys
    by (induction ys) (simp_all add: is_str_def)
  show ?thesis
  proof (cases "dict_get d k")
    case (JArr vs)
    then show ?thesis using a [of vs] b [of xs] by (auto simp: optional_str_list_def simp del: map_map)
  qed (auto simp: optional_str_list_def)
qed

lemma evidence_list_Inr [guard_simps]:
  "evidence_list d = Inr xs \<longleftrightarrow> (dict_get d ''evidence'' = JArr xs \<and> list_all is_obj xs)
     \<or> dict_get d ''evidence'' = JNull \<and> xs = []"
  by (auto simp: evidence_list_def split: json.splits)

text \<open>Only the errors of the contract leave the parser, for a role with final statuses.\<close>

definition contract_error :: "exn \<Rightarrow> bool" where
  "contract_error e \<longleftrightarrow> (case e of FinalResponseError _ \<Rightarrow> True | _ \<Rightarrow> False)"

lemma contract_error_simps [simp]: "contract_error (FinalResponseError m)"
  by (simp add: contract_error_def)

lemma extract_from_raises: "raises_only contract_error (extract_from loads p ks)"
  by (induction ks) (auto split: json.split option.split)

lemma contract_raises:
  "raises_only contract_error (required_str d k)"
  "raises_only contract_error (optional_str_list d k)"
  "raises_only contract_error (evidence_list d)"
  "raises_only contract_error (extract_json_object loads p)"
  by (auto simp: required_str_def optional_str_list_def evidence_list_def extract_json_object_def
      extract_from_raises split: json.split)

lemma as_response_error_raises:
  assumes "role \<in> set (map fst role_final_statuses)"
  shows "raises_only contract_error (as_response_error (validate_final_status role v))"
proof (cases "validate_final_status role v")
  case (Inl e)
  with validate_final_status_exn [OF Inl assms] show ?thesis by auto
qed simp

lemma parse_final_response_raises:
  assumes "role \<in> set (map fst role_final_statuses)"
  shows "raises_only contract_error (parse_final_response loads role key p)"
  unfolding parse_final_response_def
  by (intro raises_only_bind raises_only_if contract_raises)
     (auto intro!: as_response_error_raises assms split: json.split)

text \<open>Where an accepted object comes from, and what is read from it.\<close>

lemma extract_from_found:
  "extract_from loads p ks = Inr d \<Longrightarrow>
   \<exists>k\<in>set ks. dict_get p k = JObj d \<or> (\<exists>s. dict_get p k = JStr s \<and> loads (py_strip s) = Some (JObj d))"
proof (induction ks)
  case (Cons k ks)
  then show ?case by (auto split: json.splits if_splits option.splits)
qed simp

lemma parse_object:
  assumes "parse_final_response loads role key payload = Inr r"
  obtains d where "extract_json_object loads payload = Inr d" "dict_get d ''assignment_key'' = JStr (fr_assignment_key r)"
    "dict_get d ''role'' = JStr (fr_role r)" "dict_get d ''final_status'' = JStr (status_value (fr_final_status r))"
    "dict_get d ''summary'' = JStr (fr_summary r)"
  using assms unfolding parse_final_response_def
  by (auto simp: guard_simps if_Inl_Inr)

lemma parse_identity:
  assumes "parse_final_response loads role key payload = Inr r"
  shows "fr_role r = role" "fr_assignment_key r = key"
    "\<exists>ss. map_of role_final_statuses role = Some ss \<and> fr_final_status r \<in> set ss"
  using assms unfolding parse_final_response_def
  by (auto simp: guard_simps if_Inl_Inr)

section \<open>Properties\<close>

text \<open>
  A response that is accepted answers the assignment that was asked. The parsed
  response carries the expected role and the expected assignment key, its status is one the role may report,
  its summary is not empty and its evidence consists of objects; and these are the values of the object found
  in the payload, nothing else. Every refusal is an error of the contract.
\<close>

theorem final_response_sound:
  assumes "parse_final_response loads role key payload = Inr r"
  shows "fr_role r = role \<and> fr_assignment_key r = key \<and> key \<noteq> [] \<and> fr_summary r \<noteq> [] \<and>
    list_all is_obj (fr_evidence r) \<and>
    (\<exists>ss. map_of role_final_statuses role = Some ss \<and> fr_final_status r \<in> set ss) \<and>
    (\<exists>d. extract_json_object loads payload = Inr d \<and> dict_get d ''assignment_key'' = JStr key \<and>
       dict_get d ''role'' = JStr role \<and> dict_get d ''final_status'' = JStr (status_value (fr_final_status r)) \<and>
       dict_get d ''summary'' = JStr (fr_summary r))"
  using assms unfolding parse_final_response_def
  by (auto simp: guard_simps if_Inl_Inr)

theorem final_response_sound_witness:
  "\<exists>r. parse_final_response (\<lambda>_. None) ''planner'' ''k:1'' [(''output'', JObj [(''assignment_key'', JStr ''k:1''),
      (''role'', JStr ''planner''), (''final_status'', JStr ''READY_FOR_BUILD''), (''summary'', JStr ''ok'')])] = Inr r
    \<and> fr_role r = ''planner'' \<and> fr_summary r \<noteq> []"
proof -
  let ?p = "parse_final_response (\<lambda>_. None) ''planner'' ''k:1'' [(''output'', JObj [(''assignment_key'', JStr ''k:1''),
      (''role'', JStr ''planner''), (''final_status'', JStr ''READY_FOR_BUILD''), (''summary'', JStr ''ok'')])]"
  have "case ?p of Inr _ \<Rightarrow> True | Inl _ \<Rightarrow> False" by code_simp
  then obtain r where r: "?p = Inr r" by (auto split: sum.splits)
  from final_response_sound [OF r] r show ?thesis by blast
qed

text \<open>A response the contract can carry.\<close>

definition response_ok :: "final_response \<Rightarrow> bool" where
  "response_ok r \<longleftrightarrow> fr_assignment_key r \<noteq> [] \<and> fr_role r \<noteq> [] \<and> fr_summary r \<noteq> [] \<and>
     list_all is_obj (fr_evidence r) \<and>
     (case map_of role_final_statuses (fr_role r) of Some ss \<Rightarrow> fr_final_status r \<in> set ss | None \<Rightarrow> False)"

lemma status_value_not_Nil [simp]: "status_value s \<noteq> []"
  by (cases s) simp_all

lemma extract_from_object:
  assumes "key \<in> set ks"
  shows "extract_from loads [(key, JObj d)] ks = Inr d"
  using assms by (induction ks) auto

lemma extract_from_text:
  assumes "key \<in> set ks" "py_strip t \<noteq> []" "loads (py_strip t) = Some (JObj d)"
  shows "extract_from loads [(key, JStr t)] ks = Inr d"
  using assms by (induction ks) auto

lemma optional_str_list_eq: "dict_get d k = JArr (map JStr xs) \<Longrightarrow> optional_str_list d k = Inr xs"
  by (simp add: optional_str_list_Inr)

text \<open>Any object with the fields of the response is read as the response.\<close>

definition holds_response :: "pydict \<Rightarrow> final_response \<Rightarrow> bool" where
  "holds_response d r \<longleftrightarrow>
     (\<forall>k\<in>{''assignment_key'', ''role'', ''final_status'', ''summary'', ''evidence'', ''decision_log'', ''risks'',
           ''assumptions'', ''next_handoff'', ''block_reason''}.
        case to_json r of JObj e \<Rightarrow> dict_get d k = dict_get e k | _ \<Rightarrow> False)"

lemma parse_holds_response:
  assumes "extract_json_object loads p = Inr d" "holds_response d r" "response_ok r"
  shows "parse_final_response loads (fr_role r) (fr_assignment_key r) p = Inr r"
proof -
  have v: "validate_final_status (fr_role r) (status_value (fr_final_status r)) = Inr (fr_final_status r)"
    using assms(3) by (auto simp: validate_final_status_Inr response_ok_def split: option.splits)
  have f: "required_str d ''assignment_key'' = Inr (fr_assignment_key r)" "required_str d ''role'' = Inr (fr_role r)"
    "required_str d ''final_status'' = Inr (status_value (fr_final_status r))"
    "required_str d ''summary'' = Inr (fr_summary r)" "evidence_list d = Inr (fr_evidence r)"
    "optional_str_list d ''decision_log'' = Inr (fr_decision_log r)" "optional_str_list d ''risks'' = Inr (fr_risks r)"
    "optional_str_list d ''assumptions'' = Inr (fr_assumptions r)"
    using assms(2,3) by (simp_all add: guard_simps holds_response_def to_json_def response_ok_def)
  have n: "dict_get d ''next_handoff'' = (case fr_next_handoff r of Some d \<Rightarrow> JObj d | None \<Rightarrow> JNull)"
    "dict_get d ''block_reason'' = (case fr_block_reason r of Some s \<Rightarrow> JStr s | None \<Rightarrow> JNull)"
    using assms(2) by (simp_all add: holds_response_def to_json_def)
  show ?thesis
    by (simp add: parse_final_response_def assms(1) f n v split: option.split)
qed



end
