(* ===== verification/Repair.thy ===== *)
theory Repair
  imports FinalResponse
begin

text \<open>
  \<open>final_response_repair.py\<close>: the deterministic repair of a response that misses the strict
  contract. A scanner finds the balanced objects of a text, exactly one of them must decode, and missing or
  textual fields are brought into shape. \<open>loads\<close> is \<open>json.loads\<close>, with \<open>None\<close> for a decoding error.
\<close>

section \<open>Balanced objects of a text\<close>

record scan_state =
  bs_depth :: nat
  bs_start :: "nat option"
  bs_in_string :: bool
  bs_escaped :: bool
  bs_spans :: "(nat \<times> nat) list"

definition scan_init :: scan_state where
  "scan_init = \<lparr>bs_depth = 0, bs_start = None, bs_in_string = False, bs_escaped = False, bs_spans = []\<rparr>"

definition scan_step :: "nat \<Rightarrow> char \<Rightarrow> scan_state \<Rightarrow> scan_state" where
  "scan_step index char s =
     (if bs_in_string s then
        (if bs_escaped s then s\<lparr>bs_escaped := False\<rparr>
         else if char = CHR 0x5C then s\<lparr>bs_escaped := True\<rparr>
         else if char = CHR 0x22 then s\<lparr>bs_in_string := False\<rparr>
         else s)
      else if char = CHR 0x22 then s\<lparr>bs_in_string := True\<rparr>
      else if char = CHR ''{'' then
        s\<lparr>bs_start := (if bs_depth s = 0 then Some index else bs_start s), bs_depth := bs_depth s + 1\<rparr>
      else if char = CHR ''}'' then
        (if bs_depth s = 0 then s
         else let depth = bs_depth s - 1 in
           (case bs_start s of
              Some start \<Rightarrow>
                if depth = 0
                then s\<lparr>bs_depth := depth, bs_spans := bs_spans s @ [(start, index + 1)], bs_start := None\<rparr>
                else s\<lparr>bs_depth := depth\<rparr>
            | None \<Rightarrow> s\<lparr>bs_depth := depth\<rparr>))
      else s)"

fun scan_text :: "nat \<Rightarrow> scan_state \<Rightarrow> string \<Rightarrow> scan_state" where
  "scan_text index s [] = s"
| "scan_text index s (c # cs) = scan_text (index + 1) (scan_step index c s) cs"

definition balanced_object_spans :: "string \<Rightarrow> (nat \<times> nat) list result" where
  "balanced_object_spans text =
     (let s = scan_text 0 scan_init text in
      if bs_depth s \<noteq> 0 then Inl (ValueError ''unbalanced JSON object'') else Inr (bs_spans s))"

definition slice :: "string \<Rightarrow> nat \<Rightarrow> nat \<Rightarrow> string" where
  "slice s a b = take (b - a) (drop a s)"

fun decoded_objects :: "(string \<Rightarrow> json option) \<Rightarrow> string \<Rightarrow> (nat \<times> nat) list \<Rightarrow> pydict list result" where
  "decoded_objects loads text [] = Inr []"
| "decoded_objects loads text ((a, b) # spans) =
     (case loads (slice text a b) of
        None \<Rightarrow> decoded_objects loads text spans
      | Some (JObj d) \<Rightarrow> result_bind (decoded_objects loads text spans) (\<lambda>ds. Inr (d # ds))
      | Some _ \<Rightarrow> Inl (ValueError ''top-level JSON must be an object''))"

definition extract_single_json_object :: "(string \<Rightarrow> json option) \<Rightarrow> string \<Rightarrow> pydict result" where
  "extract_single_json_object loads text =
     result_bind (balanced_object_spans text) (\<lambda>spans.
     result_bind (decoded_objects loads text spans) (\<lambda>objects.
       (case objects of
          [] \<Rightarrow> Inl (ValueError ''no balanced JSON object found'')
        | [d] \<Rightarrow> Inr d
        | _ \<Rightarrow> Inl (ValueError ''multiple top-level JSON objects found''))))"

section \<open>Normalisation\<close>

record repair_result =
  rr_payload :: pydict
  rr_repaired :: bool
  rr_method :: string
  rr_diagnostics :: "string list"

text \<open>The local variables \<open>normalized\<close>, \<open>diagnostics\<close> and \<open>repaired\<close>.\<close>

type_synonym normalizing = "pydict \<times> string list \<times> bool"

definition normalize_evidence :: "normalizing \<Rightarrow> normalizing" where
  "normalize_evidence = (\<lambda>(normalized, diagnostics, repaired).
     (case dict_get normalized ''evidence'' of
        JNull \<Rightarrow> (dict_set normalized ''evidence'' (JArr []),
                  diagnostics @ [''normalized missing/null evidence to []''], True)
      | JArr xs \<Rightarrow>
          if list_all is_str xs then
            (dict_set normalized ''evidence''
               (JArr (map (\<lambda>x. JObj [(''source'', x), (''detail'', JStr ''provided by agent as evidence text'')]) xs)),
             diagnostics @ [''converted evidence strings to objects''], True)
          else (normalized, diagnostics, repaired)
      | _ \<Rightarrow> (normalized, diagnostics, repaired)))"

definition normalize_field :: "string \<Rightarrow> normalizing \<Rightarrow> normalizing" where
  "normalize_field field = (\<lambda>(normalized, diagnostics, repaired).
     if dict_get normalized field = JNull
     then (dict_set normalized field (JArr []),
           diagnostics @ [''normalized missing/null '' @ field @ '' to []''], True)
     else (normalized, diagnostics, repaired))"

definition normalize_payload :: "pydict \<Rightarrow> pydict \<Rightarrow> string \<Rightarrow> string list \<Rightarrow> repair_result" where
  "normalize_payload payload data key diagnostics =
     (case fold normalize_field [''decision_log'', ''risks'', ''assumptions'']
             (normalize_evidence (data, diagnostics, False)) of
        (normalized, diagnostics', repaired) \<Rightarrow>
          \<lparr>rr_payload = dict_set payload key (JObj normalized),
           rr_repaired = (repaired \<or> dict_get payload key \<noteq> JObj normalized),
           rr_method = ''deterministic'', rr_diagnostics = diagnostics'\<rparr>)"

text \<open>The loop over the five keys.\<close>

fun repair_keys :: "(string \<Rightarrow> json option) \<Rightarrow> int \<Rightarrow> pydict \<Rightarrow> string list \<Rightarrow> string list \<Rightarrow> repair_result" where
  "repair_keys loads max_chars payload diagnostics [] =
     \<lparr>rr_payload = payload, rr_repaired = False, rr_method = ''deterministic'',
      rr_diagnostics = (if diagnostics \<noteq> [] then diagnostics else [''no repairable final response field found''])\<rparr>"
| "repair_keys loads max_chars payload diagnostics (key # keys) =
     (case dict_get payload key of
        JObj d \<Rightarrow> normalize_payload payload d key diagnostics
      | JStr s \<Rightarrow>
          if py_strip s = [] then repair_keys loads max_chars payload diagnostics keys
          else if max_chars < int (length s)
          then repair_keys loads max_chars payload (diagnostics @ [key @ '' exceeds repair max chars'']) keys
          else (case extract_single_json_object loads s of
                  Inl e \<Rightarrow> repair_keys loads max_chars payload (diagnostics @ [key @ '': '' @ exn_text e]) keys
                | Inr extracted \<Rightarrow> normalize_payload payload extracted key diagnostics)
      | _ \<Rightarrow> repair_keys loads max_chars payload diagnostics keys)"

definition deterministic_repair_payload :: "(string \<Rightarrow> json option) \<Rightarrow> int \<Rightarrow> pydict \<Rightarrow> repair_result" where
  "deterministic_repair_payload loads max_chars payload = repair_keys loads max_chars payload [] final_response_keys"

section \<open>The prompt for the model\<close>

definition build_model_repair_prompt :: "(pyfloat \<Rightarrow> string) \<Rightarrow> pydict \<Rightarrow> string \<Rightarrow> int \<Rightarrow> string" where
  "build_model_repair_prompt fr payload parse_error max_chars =
     (let text = dumps_spaced fr (JObj payload);
          candidate = (if max_chars < int (length text)
                       then take (nat max_chars) text @ newline # ''[truncated by orchestrator]'' else text)
      in join_lines
       [''You are a JSON repair function.'',
        ''Transform the candidate agent output into exactly one JSON object matching the required schema.'',
        ''Do not add new facts.'',
        ''Do not summarize differently.'',
        ''Do not change assignment_key, role, or final_status.'',
        ''Convert evidence strings into objects with source/detail.'',
        ''Preserve existing decision_log, risks, and assumptions only if they are explicitly present and safe.'',
        ''Normalize missing decision_log, risks, and assumptions to empty arrays.'',
        ''Do not create hidden chain-of-thought or invent new rationale.'',
        ''Remove forbidden reasoning fields if present.'',
        ''If the candidate cannot be safely repaired, return {\"repair_status\":\"UNREPAIRABLE\",\"reason\":\"...\"}.'',
        ''Return only JSON.'', [],
        ''Required schema:'',
        ''{\"assignment_key\":\"<exact assignment key>\",\"role\":\"<exact role>\",\"final_status\":\"<one allowed status>\",'' @
        ''\"summary\":\"<same result>\",\"evidence\":[{\"source\":\"<url/path/id>\",\"detail\":\"<what this proves>\"}],'' @
        ''\"decision_log\":[\"<short observable decision or check performed>\"],\"risks\":[\"<known risk>\"],\"assumptions\":[\"<explicit assumption>\"],'' @
        ''\"next_handoff\":null,\"block_reason\":null}'', [],
        ''Strict parser error:'', parse_error, [],
        ''Candidate agent output:'', candidate])"

section \<open>The scanner\<close>

lemma scan_append: "scan_text i s (a @ b) = scan_text (i + length a) (scan_text i s a) b"
  by (induction a arbitrary: i s) simp_all

subsection \<open>What a span is\<close>

definition span_ok :: "string \<Rightarrow> nat \<times> nat \<Rightarrow> bool" where
  "span_ok text ab = (fst ab < snd ab \<and> snd ab \<le> length text \<and> text ! fst ab = CHR ''{'' \<and> text ! (snd ab - 1) = CHR ''}'')"

text \<open>The state of the scanner after \<open>i\<close> characters of \<open>text\<close>.\<close>

definition scan_inv :: "string \<Rightarrow> nat \<Rightarrow> scan_state \<Rightarrow> bool" where
  "scan_inv text i s \<longleftrightarrow>
     (\<forall>ab\<in>set (bs_spans s). span_ok text ab \<and> snd ab \<le> i) \<and>
     sorted_wrt (\<lambda>x y. snd x \<le> fst y) (bs_spans s) \<and>
     (case bs_start s of
        None \<Rightarrow> bs_depth s = 0
      | Some a \<Rightarrow> 0 < bs_depth s \<and> a < i \<and> text ! a = CHR ''{'' \<and> (\<forall>ab\<in>set (bs_spans s). snd ab \<le> a))"

lemma scan_inv_step:
  assumes "scan_inv text i s" "i < length text" "text ! i = c"
  shows "scan_inv text (Suc i) (scan_step i c s)"
proof -
  have inv: "\<And>a b. (a, b) \<in> set (bs_spans s) \<Longrightarrow> span_ok text (a, b) \<and> b \<le> i"
    "sorted_wrt (\<lambda>x y. snd x \<le> fst y) (bs_spans s)"
    using assms(1) by (auto simp: scan_inv_def)
  have le: "\<And>a b. (a, b) \<in> set (bs_spans s) \<Longrightarrow> b \<le> Suc i"
    using inv(1) by (meson le_Suc_eq)
  show ?thesis
  proof (cases "bs_start s")
    case None
    then have d: "bs_depth s = 0" using assms(1) by (simp add: scan_inv_def)
    show ?thesis using None d inv le assms(3) by (auto simp: scan_inv_def scan_step_def)
  next
    case (Some a)
    then have d: "0 < bs_depth s" "a < i" "text ! a = CHR ''{''" "\<And>x b. (x, b) \<in> set (bs_spans s) \<Longrightarrow> b \<le> a"
      using assms(1) by (auto simp: scan_inv_def)
    show ?thesis
      using Some d inv le assms(2,3)
      by (auto simp: scan_inv_def scan_step_def Let_def sorted_wrt_append span_ok_def intro: less_imp_le)
  qed
qed

lemma scan_inv_text:
  "scan_inv text i s \<Longrightarrow> text = a @ b \<Longrightarrow> length a = i \<Longrightarrow> scan_inv text (length text) (scan_text i s b)"
proof (induction b arbitrary: a i s)
  case (Cons c b)
  then have "scan_inv text (Suc i) (scan_step i c s)"
    by (intro scan_inv_step) (auto simp: nth_append)
  with Cons.IH [of "Suc i" "scan_step i c s" "a @ [c]"] Cons.prems show ?case by simp
qed simp

lemma balanced_spans_ok:
  assumes "balanced_object_spans text = Inr spans"
  shows "(\<forall>ab\<in>set spans. span_ok text ab) \<and> sorted_wrt (\<lambda>x y. snd x \<le> fst y) spans"
proof -
  have "scan_inv text 0 scan_init" by (simp add: scan_inv_def scan_init_def)
  then have "scan_inv text (length text) (scan_text 0 scan_init text)"
    by (rule scan_inv_text [where a = "[]"]) simp_all
  then show ?thesis
    using assms by (auto simp: balanced_object_spans_def scan_inv_def Let_def split: if_splits)
qed

subsection \<open>Scanning JSON text\<close>

text \<open>Text that leaves the scanner as it is: outside strings, characters other than quotes and braces.\<close>

definition quiet :: "scan_state \<Rightarrow> bool" where
  "quiet s \<longleftrightarrow> \<not> bs_in_string s \<and> \<not> bs_escaped s"

definition plain :: "string \<Rightarrow> bool" where
  "plain t \<longleftrightarrow> CHR 0x22 \<notin> set t \<and> CHR ''{'' \<notin> set t \<and> CHR ''}'' \<notin> set t"

definition neutral :: "scan_state \<Rightarrow> string \<Rightarrow> bool" where
  "neutral s t \<longleftrightarrow> (\<forall>i. scan_text i s t = s)"

lemma neutral_Nil [simp]: "neutral s []"
  by (simp add: neutral_def)

lemma neutral_append [intro]: "neutral s a \<Longrightarrow> neutral s b \<Longrightarrow> neutral s (a @ b)"
  by (simp add: neutral_def scan_append)

lemma neutral_plain: "\<not> bs_in_string s \<Longrightarrow> plain t \<Longrightarrow> neutral s t"
  unfolding neutral_def
proof
  fix i assume "\<not> bs_in_string s" "plain t"
  then show "scan_text i s t = s"
    by (induction t arbitrary: i) (auto simp: plain_def scan_step_def)
qed

lemma neutral_punctuation [intro]:
  "quiet s \<Longrightarrow> neutral s '': ''" "quiet s \<Longrightarrow> neutral s '', ''" "quiet s \<Longrightarrow> neutral s ''[''" "quiet s \<Longrightarrow> neutral s '']''"
  by (rule neutral_plain, simp_all add: quiet_def plain_def)+

lemma neutral_join:
  assumes "neutral s sep" "\<And>t. t \<in> set ts \<Longrightarrow> neutral s t"
  shows "neutral s (join_str sep ts)"
  using assms by (induction sep ts rule: join_str.induct) auto

lemma hex_digit_not: "n < 16 \<Longrightarrow> hex_digit n \<noteq> CHR 0x5C \<and> hex_digit n \<noteq> CHR 0x22"
proof -
  assume n: "n < 16"
  have "list_all (\<lambda>n. hex_digit n \<noteq> CHR 0x5C \<and> hex_digit n \<noteq> CHR 0x22) [0..<16]" by code_simp
  with n show ?thesis by (simp add: list_all_iff)
qed

lemma neutral_esc_char:
  assumes "bs_in_string s" "\<not> bs_escaped s"
  shows "neutral s (esc_char c)"
proof -
  have "s\<lparr>bs_escaped := False\<rparr> = s" using assms(2) by (cases s) simp
  moreover have "of_char c mod 16 < (16 :: nat)" by simp
  moreover have "of_char c < (32 :: nat) \<Longrightarrow> of_char c div 16 < (16 :: nat)" by simp
  ultimately show ?thesis
    using assms hex_digit_not
    by (auto simp: neutral_def esc_char_def Let_def scan_step_def)
qed

lemma neutral_quote_str:
  assumes "quiet s"
  shows "neutral s (quote_str t)"
proof -
  let ?s = "s\<lparr>bs_in_string := True\<rparr>"
  have "neutral ?s (concat (map esc_char t))"
    using assms by (induction t) (auto intro!: neutral_esc_char simp: quiet_def)
  moreover have "?s\<lparr>bs_in_string := False\<rparr> = s" using assms by (cases s) (simp add: quiet_def)
  ultimately show ?thesis
    using assms by (simp add: neutral_def quote_str_def scan_append scan_step_def quiet_def)
qed

lemma plain_str_of_int: "plain (str_of_int i)"
  using str_of_int_chars [of _ i] by (auto simp: plain_def)

text \<open>A value inside an object, and the members of an object.\<close>

definition text_of_member :: "(pyfloat \<Rightarrow> string) \<Rightarrow> string \<times> json \<Rightarrow> string" where
  "text_of_member fr kv = quote_str (fst kv) @ '': '' @ dumps_spaced fr (snd kv)"

lemma dumps_spaced_obj:
  obtains ts where "dumps_spaced fr (JObj d) = CHR ''{'' # join_str '', '' ts @ [CHR ''}'']"
    "set ts = text_of_member fr ` set d"
proof -
  let ?ts = "map (\<lambda>(k, t). quote_str k @ '': '' @ t) (sort_key fst (map (\<lambda>kv. (fst kv, dumps_spaced fr (snd kv))) d))"
  have "set ?ts = text_of_member fr ` set d" by (force simp: text_of_member_def)
  moreover have "dumps_spaced fr (JObj d) = CHR ''{'' # join_str '', '' ?ts @ [CHR ''}'']" by simp
  ultimately show ?thesis by (rule that [rotated])
qed

lemma neutral_member:
  "quiet s \<Longrightarrow> neutral s (dumps_spaced fr (snd kv)) \<Longrightarrow> neutral s (text_of_member fr kv)"
  unfolding text_of_member_def
  by (intro neutral_append neutral_quote_str neutral_punctuation)

text \<open>\<open>reprs_plain fr D\<close>: the text of the floats \<open>D\<close> holds no quote and no brace.\<close>

definition reprs_plain :: "(pyfloat \<Rightarrow> string) \<Rightarrow> pyfloat set \<Rightarrow> bool" where
  "reprs_plain fr D \<longleftrightarrow> (\<forall>f\<in>D. plain (fr f))"

lemma neutral_value:
  assumes "reprs_plain fr (json_floats v)" "quiet s" "0 < bs_depth s" "bs_start s \<noteq> None"
  shows "neutral s (dumps_spaced fr v)"
  using assms
proof (induction v arbitrary: s)
  case (JArr xs)
  have "neutral s (join_str '', '' (map (dumps_spaced fr) xs))"
    using JArr by (intro neutral_join) (auto simp: reprs_plain_def)
  then show ?case
    using neutral_append [OF neutral_punctuation(3) neutral_append [OF _ neutral_punctuation(4)]] JArr.prems by simp
next
  case (JObj d)
  let ?s = "s\<lparr>bs_depth := bs_depth s + 1\<rparr>"
  obtain ts where ts: "dumps_spaced fr (JObj d) = CHR ''{'' # join_str '', '' ts @ [CHR ''}'']"
    "set ts = text_of_member fr ` set d" by (rule dumps_spaced_obj)
  have q: "quiet ?s" using JObj.prems by (simp add: quiet_def)
  have "neutral ?s (dumps_spaced fr (snd kv))" if "kv \<in> set d" for kv
    using JObj.prems that by (intro JObj.IH) (auto simp: quiet_def reprs_plain_def intro: snds.intros)
  then have "neutral ?s t" if "t \<in> set ts" for t
    using that ts(2) q by (auto intro: neutral_member)
  then have "neutral ?s (join_str '', '' ts)"
    using q by (intro neutral_join) auto
  moreover have "scan_step i (CHR ''{'') s = ?s" "scan_step i (CHR ''}'') ?s = s" for i
    using JObj.prems by (auto simp: scan_step_def quiet_def)
  ultimately show ?case by (simp add: neutral_def ts(1) scan_append del: dumps_spaced.simps)
qed (auto intro!: neutral_quote_str neutral_plain plain_str_of_int simp: quiet_def plain_def reprs_plain_def)

text \<open>An object at the top level is one span.\<close>

lemma scan_object:
  assumes "reprs_plain fr (json_floats (JObj d))" "quiet s" "bs_depth s = 0" "bs_start s = None"
  shows "scan_text i s (dumps_spaced fr (JObj d)) =
    s\<lparr>bs_spans := bs_spans s @ [(i, i + length (dumps_spaced fr (JObj d)))]\<rparr>"
proof -
  let ?s = "s\<lparr>bs_depth := Suc 0, bs_start := Some i\<rparr>"
  obtain ts where ts: "dumps_spaced fr (JObj d) = CHR ''{'' # join_str '', '' ts @ [CHR ''}'']"
    "set ts = text_of_member fr ` set d" by (rule dumps_spaced_obj)
  have q: "quiet ?s" using assms(2) by (simp add: quiet_def)
  have "neutral ?s (dumps_spaced fr (snd kv))" if "kv \<in> set d" for kv
    using assms(1) that q by (intro neutral_value) (auto simp: reprs_plain_def)
  then have "neutral ?s t" if "t \<in> set ts" for t
    using that ts(2) q by (auto intro: neutral_member)
  then have n: "neutral ?s (join_str '', '' ts)"
    using q by (intro neutral_join) auto
  have a: "scan_step i (CHR ''{'') s = ?s" using assms by (auto simp: scan_step_def quiet_def)
  have b: "scan_step j (CHR ''}'') ?s = s\<lparr>bs_spans := bs_spans s @ [(i, Suc j)]\<rparr>" for j
    using assms by (cases s) (auto simp: scan_step_def quiet_def Let_def)
  show ?thesis using n by (simp add: ts(1) scan_append a b neutral_def del: dumps_spaced.simps)
qed

lemma spans_of_wrapped_object:
  assumes "reprs_plain fr (json_floats (JObj d))" "plain pre" "plain post"
  shows "balanced_object_spans (pre @ dumps_spaced fr (JObj d) @ post) =
    Inr [(length pre, length pre + length (dumps_spaced fr (JObj d)))]"
proof -
  have q: "quiet scan_init" "bs_depth scan_init = 0" "bs_start scan_init = None" "bs_spans scan_init = []"
    by (simp_all add: scan_init_def quiet_def)
  then have a: "scan_text i scan_init pre = scan_init" for i
    using neutral_plain [OF _ assms(2)] by (simp add: neutral_def quiet_def)
  let ?s = "scan_init\<lparr>bs_spans := [(length pre, length pre + length (dumps_spaced fr (JObj d)))]\<rparr>"
  have b: "scan_text i ?s post = ?s" for i
    using neutral_plain [OF _ assms(3), of ?s] q by (simp add: neutral_def quiet_def)
  show ?thesis
    using scan_object [OF assms(1) q(1,2,3), of "length pre"] q
    by (simp add: balanced_object_spans_def scan_append a b del: dumps_spaced.simps)
qed

lemma extract_wrapped_object:
  assumes "reprs_plain fr (json_floats (JObj d))" "plain pre" "plain post"
    and "loads (dumps_spaced fr (JObj d)) = Some (JObj e)"
  shows "extract_single_json_object loads (pre @ dumps_spaced fr (JObj d) @ post) = Inr e"
  using assms
  by (simp add: extract_single_json_object_def spans_of_wrapped_object slice_def del: dumps_spaced.simps)

section \<open>What normalisation keeps\<close>

definition normalized_fields :: "string list" where
  "normalized_fields = [''evidence'', ''decision_log'', ''risks'', ''assumptions'']"

lemma normalize_evidence_keeps:
  "k \<noteq> ''evidence'' \<Longrightarrow> dict_get (fst (normalize_evidence n)) k = dict_get (fst n) k"
  by (cases n) (auto simp: normalize_evidence_def dict_get_set split: json.split)

lemma normalize_field_keeps:
  "dict_get (fst (normalize_field f n)) k = (if k = f \<and> dict_get (fst n) k = JNull then JArr [] else dict_get (fst n) k)"
  by (cases n) (auto simp: normalize_field_def dict_get_set)

text \<open>The normalised object, and how it shows in the result.\<close>

definition normalized :: "pydict \<Rightarrow> string list \<Rightarrow> normalizing" where
  "normalized data diagnostics = fold normalize_field [''decision_log'', ''risks'', ''assumptions'']
     (normalize_evidence (data, diagnostics, False))"

lemma normalize_payload_payload:
  "rr_payload (normalize_payload p d key ds) = dict_set p key (JObj (fst (normalized d ds)))"
  by (simp add: normalize_payload_def normalized_def split: prod.split)

lemma normalized_keeps:
  "k \<notin> set normalized_fields \<Longrightarrow> dict_get (fst (normalized d ds)) k = dict_get d k"
  by (simp add: normalized_def normalized_fields_def normalize_field_keeps normalize_evidence_keeps)

lemma normalized_present:
  "k \<noteq> ''evidence'' \<Longrightarrow> dict_get d k \<noteq> JNull \<Longrightarrow> dict_get (fst (normalized d ds)) k = dict_get d k"
  by (simp add: normalized_def normalize_field_keeps normalize_evidence_keeps)

lemma normalize_evidence_objects:
  "dict_get d ''evidence'' = JArr xs \<Longrightarrow> list_all is_obj xs \<Longrightarrow>
   dict_get (fst (normalize_evidence (d, ds, b))) ''evidence'' = JArr xs"
  by (cases xs) (auto simp: normalize_evidence_def dict_get_set is_str_def is_obj_def split: json.splits)

lemma normalized_evidence_objects:
  "dict_get d ''evidence'' = JArr xs \<Longrightarrow> list_all is_obj xs \<Longrightarrow> dict_get (fst (normalized d ds)) ''evidence'' = JArr xs"
  by (simp add: normalized_def normalize_field_keeps normalize_evidence_objects)

lemma normalized_holds_response:
  assumes "holds_response d r" "response_ok r"
  shows "holds_response (fst (normalized d ds)) r"
proof -
  have "dict_get d ''evidence'' = JArr (fr_evidence r)" "list_all is_obj (fr_evidence r)"
    using assms by (simp_all add: holds_response_def to_json_def response_ok_def)
  note e = normalized_evidence_objects [OF this]
  show ?thesis
    using assms(1) by (simp add: holds_response_def to_json_def e normalized_keeps normalized_present normalized_fields_def)
qed

lemma dumps_spaced_obj_strip: "\<exists>w. dumps_spaced fr (JObj d) = CHR ''{'' # w"
  by simp

lemma py_strip_not_Nil: "c \<in> set s \<Longrightarrow> \<not> is_space c \<Longrightarrow> py_strip s \<noteq> []"
  using py_strip_Nil_iff [of s] by blast

section \<open>Properties\<close>

text \<open>
  The spans the scanner returns are objects of the text: each lies inside the text,
  starts at an opening and ends at a closing brace, and they follow one another without overlap.
\<close>

theorem balanced_spans_sound:
  assumes "balanced_object_spans text = Inr spans"
  shows "(\<forall>(a, b)\<in>set spans. a < b \<and> b \<le> length text \<and> hd (slice text a b) = CHR ''{'' \<and> last (slice text a b) = CHR ''}'') \<and>
    sorted_wrt (\<lambda>x y. snd x \<le> fst y) spans"
proof -
  have "hd (slice text a b) = CHR ''{'' \<and> last (slice text a b) = CHR ''}''" if "span_ok text (a, b)" for a b
    using that by (auto simp: span_ok_def slice_def hd_drop_conv_nth last_conv_nth)
  then show ?thesis using balanced_spans_ok [OF assms] by (auto simp: span_ok_def)
qed

theorem balanced_spans_sound_witness:
  "balanced_object_spans ''say {a{b}} or {c}.'' = Inr [(4, 10), (14, 17)] \<and>
   hd (slice ''say {a{b}} or {c}.'' 4 10) = CHR ''{''"
proof -
  have e: "balanced_object_spans ''say {a{b}} or {c}.'' = Inr [(4, 10), (14, 17)]" by code_simp
  from balanced_spans_sound [OF e] e show ?thesis by simp
qed

text \<open>
  (C40) A response wrapped in prose is recovered unchanged. If a payload holds, in any of
  the five fields, the JSON text the orchestrator itself would write for a valid response, with text before and
  after it that has no quote and no brace, then the strict parser's input after the deterministic repair parses
  to exactly that response, and the result is marked as repaired. The text may be as long as the configured
  maximum. \<open>json.loads\<close> is only assumed to read that one text back as an object with the same members.
\<close>

theorem repair_roundtrip:
  assumes "response_ok r" "key \<in> set final_response_keys"
    and "reprs_plain fr (json_floats (to_json r))" "plain pre" "plain post"
    and "loads (to_json_text fr r) = Some (JObj e)" "holds_response e r"
    and "int (length (pre @ to_json_text fr r @ post)) \<le> max_chars"
  shows "let repair = deterministic_repair_payload loads max_chars [(key, JStr (pre @ to_json_text fr r @ post))]
    in rr_repaired repair \<and>
       parse_final_response loads' (fr_role r) (fr_assignment_key r) (rr_payload repair) = Inr r"
proof -
  let ?t = "pre @ to_json_text fr r @ post" and ?p = "[(key, JStr (pre @ to_json_text fr r @ post))]"
  obtain d where d: "to_json r = JObj d" by (simp add: to_json_def)
  have x: "extract_single_json_object loads ?t = Inr e"
    using extract_wrapped_object [of fr d pre post loads e] assms d by (simp add: to_json_text_def)
  have "CHR ''{'' \<in> set ?t"
    using dumps_spaced_obj_strip [of fr d] d by (auto simp: to_json_text_def simp del: dumps_spaced.simps)
  then have s: "py_strip ?t \<noteq> []" by (rule py_strip_not_Nil) (simp add: is_space_def)
  have "repair_keys loads max_chars ?p [] ks = normalize_payload ?p e key []" if "key \<in> set ks" for ks
    using that x s assms(8) by (induction ks) auto
  then have rep: "deterministic_repair_payload loads max_chars ?p = normalize_payload ?p e key []"
    using assms(2) by (simp add: deterministic_repair_payload_def)
  have "rr_repaired (normalize_payload ?p e key [])"
    by (simp add: normalize_payload_def split: prod.split)
  moreover have "parse_final_response loads' (fr_role r) (fr_assignment_key r) (rr_payload (normalize_payload ?p e key [])) = Inr r"
    using normalized_holds_response [OF assms(7,1)] assms(1,2)
    by (intro parse_holds_response) (auto simp: normalize_payload_payload extract_json_object_def extract_from_object)
  ultimately show ?thesis by (simp add: rep)
qed

theorem repair_roundtrip_witness:
  "let r = \<lparr>fr_assignment_key = ''k:9'', fr_role = ''reviewer'', fr_final_status = APPROVE, fr_summary = ''has {braces} and \"quotes\"'',
        fr_evidence = [JObj [(''source'', JStr ''ci'')]], fr_decision_log = [], fr_risks = [], fr_assumptions = [],
        fr_next_handoff = None, fr_block_reason = None\<rparr>;
      repair = deterministic_repair_payload (\<lambda>_. Some (to_json r)) 2000
        [(''output'', JStr (''Here it is: '' @ to_json_text (\<lambda>_. ''0.5'') r @ '' - done.''))]
   in rr_repaired repair \<and> parse_final_response (\<lambda>_. None) ''reviewer'' ''k:9'' (rr_payload repair) = Inr r"
  (is "let r = ?r in _")
proof -
  obtain d where d: "to_json ?r = JObj d" by (simp add: to_json_def)
  have h: "holds_response d ?r" using d by (simp add: holds_response_def)
  have ok: "response_ok ?r" "''output'' \<in> set final_response_keys" "plain ''Here it is: ''" "plain '' - done.''"
    by code_simp+
  have rp: "reprs_plain (\<lambda>_. ''0.5'') (json_floats (to_json ?r))" by (simp add: to_json_def reprs_plain_def)
  have len: "int (length (''Here it is: '' @ to_json_text (\<lambda>_. ''0.5'') ?r @ '' - done.'')) \<le> 2000"
    by code_simp
  show ?thesis
    using repair_roundtrip [where loads = "\<lambda>_. Some (to_json ?r)" and loads' = "\<lambda>_. None" and e = d, OF ok(1,2) rp ok(3,4) _ h len] d
    by (simp add: Let_def)
qed

text \<open>An object the payload holds in one of its five fields, as itself or as text.\<close>

definition found_in :: "(string \<Rightarrow> json option) \<Rightarrow> pydict \<Rightarrow> pydict \<Rightarrow> bool" where
  "found_in loads p d \<longleftrightarrow> (\<exists>k\<in>set final_response_keys. dict_get p k = JObj d \<or>
     (\<exists>s. dict_get p k = JStr s \<and> (loads (py_strip s) = Some (JObj d) \<or> extract_single_json_object loads s = Inr d)))"

lemma repair_keys_payload:
  "rr_payload (repair_keys loads m p ds ks) = p \<or>
   (\<exists>k\<in>set ks. \<exists>d es. rr_payload (repair_keys loads m p ds ks) = dict_set p k (JObj (fst (normalized d es))) \<and>
      (dict_get p k = JObj d \<or> (\<exists>s. dict_get p k = JStr s \<and> extract_single_json_object loads s = Inr d)))"
proof (induction ks arbitrary: ds)
  case (Cons k ks)
  let ?rep = "\<lambda>es. rr_payload (repair_keys loads m p es ks)"
  have norm: ?case if "rr_payload (repair_keys loads m p ds (k # ks)) = rr_payload (normalize_payload p d k ds)"
    "dict_get p k = JObj d \<or> (\<exists>s. dict_get p k = JStr s \<and> extract_single_json_object loads s = Inr d)" for d
    using that by (auto simp: normalize_payload_payload)
  have later: ?case if "rr_payload (repair_keys loads m p ds (k # ks)) = ?rep es" for es
    using Cons.IH [of es] that by auto
  consider d where "dict_get p k = JObj d" | s where "dict_get p k = JStr s"
    | "\<forall>d. dict_get p k \<noteq> JObj d" "\<forall>s. dict_get p k \<noteq> JStr s" by blast
  then show ?case
  proof cases
    case (1 d)
    show ?thesis by (rule norm [of d]) (simp_all add: 1)
  next
    case (2 s)
    then show ?thesis
      using later norm by (cases "extract_single_json_object loads s") (auto split: if_splits)
  next
    case 3
    have "rr_payload (repair_keys loads m p ds (k # ks)) = ?rep ds"
      using 3 by (cases "dict_get p k") auto
    then show ?thesis by (rule later)
  qed
qed simp

text \<open>
  Repair adds no facts. If the repaired payload parses, then an object already in the
  original payload carried the same assignment key, role, final status and summary: the repair only fills in
  or reshapes evidence, decision log, risks and assumptions.
\<close>

theorem repair_keeps_facts:
  assumes "parse_final_response loads role key (rr_payload (deterministic_repair_payload loads max_chars p)) = Inr r"
  shows "\<exists>d. found_in loads p d \<and> dict_get d ''assignment_key'' = JStr (fr_assignment_key r) \<and>
    dict_get d ''role'' = JStr (fr_role r) \<and> dict_get d ''final_status'' = JStr (status_value (fr_final_status r)) \<and>
    dict_get d ''summary'' = JStr (fr_summary r)"
proof -
  let ?q = "rr_payload (deterministic_repair_payload loads max_chars p)"
  from assms obtain d where d: "extract_json_object loads ?q = Inr d" and
    f: "dict_get d ''assignment_key'' = JStr (fr_assignment_key r)" "dict_get d ''role'' = JStr (fr_role r)"
      "dict_get d ''final_status'' = JStr (status_value (fr_final_status r))" "dict_get d ''summary'' = JStr (fr_summary r)"
    by (rule parse_object)
  from d obtain k where k: "k \<in> set final_response_keys"
    "dict_get ?q k = JObj d \<or> (\<exists>s. dict_get ?q k = JStr s \<and> loads (py_strip s) = Some (JObj d))"
    unfolding extract_json_object_def by (auto dest!: extract_from_found)
  let ?rep = "rr_payload (repair_keys loads max_chars p [] final_response_keys)"
  consider "?rep = p"
    | j e es where "j \<in> set final_response_keys" "?rep = dict_set p j (JObj (fst (normalized e es)))"
        "dict_get p j = JObj e \<or> (\<exists>s. dict_get p j = JStr s \<and> extract_single_json_object loads s = Inr e)"
    using repair_keys_payload [of loads max_chars p "[]" final_response_keys] by blast
  then show ?thesis
  proof cases
    case 1
    then have "found_in loads p d" using k by (auto simp: found_in_def deterministic_repair_payload_def)
    with f show ?thesis by blast
  next
    case (2 j e es)
    note j = 2(1) and q = 2(2) and e = 2(3)
    show ?thesis
    proof (cases "k = j")
      case True
      with k q have "d = fst (normalized e es)" by (simp add: deterministic_repair_payload_def dict_get_set)
      then have "dict_get e x = dict_get d x" if "x \<notin> set normalized_fields" for x
        using that by (simp add: normalized_keeps)
      moreover have "found_in loads p e" using j e by (auto simp: found_in_def)
      ultimately show ?thesis using f by (intro exI [of _ e]) (simp add: normalized_fields_def)
    next
      case False
      with k q have "found_in loads p d"
        by (auto simp: found_in_def deterministic_repair_payload_def dict_get_set)
      with f show ?thesis by blast
    qed
  qed
qed

theorem repair_keeps_facts_witness:
  "\<exists>d. found_in (\<lambda>_. None) [(''result'', JObj [(''assignment_key'', JStr ''k''), (''role'', JStr ''planner''),
      (''final_status'', JStr ''BLOCKED''), (''summary'', JStr ''s''), (''evidence'', JArr [JStr ''log''])])] d \<and>
     dict_get d ''final_status'' = JStr ''BLOCKED''"
proof -
  let ?p = "[(''result'', JObj [(''assignment_key'', JStr ''k''), (''role'', JStr ''planner''),
      (''final_status'', JStr ''BLOCKED''), (''summary'', JStr ''s''), (''evidence'', JArr [JStr ''log''])])]"
  let ?r = "parse_final_response (\<lambda>_. None) ''planner'' ''k'' (rr_payload (deterministic_repair_payload (\<lambda>_. None) 1000 ?p))"
  have "case ?r of Inr r \<Rightarrow> status_value (fr_final_status r) = ''BLOCKED'' | Inl _ \<Rightarrow> False" by code_simp
  then obtain r where r: "?r = Inr r" "status_value (fr_final_status r) = ''BLOCKED''" by (auto split: sum.splits)
  from repair_keeps_facts [OF r(1)] r(2) show ?thesis by metis
qed

end
