(* ===== verification/OrchDb.thy ===== *)
theory OrchDb
  imports WorkItems
begin

text \<open>
  \<open>orchestrator/sdlc_orchestrator/db.py\<close>: the tables of one role's orchestrator database and every
  operation on them. A table is the list of its rows in the order of their row ids; a time is a number of
  seconds and the current time is an argument. An operation is a function on the state; where it raises, the
  surrounding transaction is rolled back and the result is only the exception. Row ids are kept for
  \<open>work_items\<close>, the one table whose ids are read; that \<open>AUTOINCREMENT\<close> may leave gaps does not show.
  \<open>ORDER BY\<close> is a stable sort, ties in the order of the row ids. The schema declares foreign keys
  without enabling them, so they restrict nothing.
\<close>

section \<open>Tables\<close>

record work_row =
  wr_id :: nat
  wr_provider :: string
  wr_repository_id :: string
  wr_kind :: string
  wr_external_id :: string
  wr_title :: string
  wr_body_text :: string
  wr_body_hash :: string
  wr_url :: string
  wr_labels_json :: string
  wr_assignees_json :: string
  wr_updated_at :: "string option"
  wr_last_seen_at :: int

record assignment_row =
  sg_key :: string
  sg_work_item_id :: nat
  sg_role :: string
  sg_status :: string
  sg_attempt_count :: nat
  sg_next_retry_at :: "int option"
  sg_blocked_reason :: "string option"
  sg_last_error_code :: "string option"
  sg_created_at :: int
  sg_updated_at :: int

record run_row =
  rn_key :: string
  rn_run_id :: string
  rn_session_id :: "string option"
  rn_status :: string
  rn_attempt_number :: nat
  rn_started_at :: int
  rn_completed_at :: "int option"
  rn_raw_status :: "string option"
  rn_final_status :: "string option"
  rn_final_response_json :: "string option"
  rn_timed_out_at :: "int option"
  rn_error :: "string option"

record transition_row =
  tn_key :: string
  tn_from_role :: string
  tn_final_status :: string
  tn_next_role :: "string option"
  tn_provider_applied :: bool
  tn_provider_result :: "string option"
  tn_error :: "string option"
  tn_created_at :: int

record orch_db =
  od_items :: "work_row list"
  od_assignments :: "assignment_row list"
  od_runs :: "run_row list"
  od_transitions :: "transition_row list"

definition empty_orch_db :: orch_db where
  "empty_orch_db = \<lparr>od_items = [], od_assignments = [], od_runs = [], od_transitions = []\<rparr>"

abbreviation ACTIVE :: string where "ACTIVE \<equiv> ''ACTIVE''"
abbreviation STARTED :: string where "STARTED \<equiv> ''STARTED''"

section \<open>Opening a database\<close>

text \<open>
  Which of the later columns the stored tables have, and whether \<open>agent_runs\<close> is the old table whose
  assignment key is unique. A row of a table without a column has an arbitrary value in that field.
\<close>

record db_schema =
  ds_body_text :: bool
  ds_attempt_count :: bool
  ds_next_retry_at :: bool
  ds_blocked_reason :: bool
  ds_last_error_code :: bool
  ds_runs_key_unique :: bool
  ds_attempt_number :: bool
  ds_final_response_json :: bool
  ds_timed_out_at :: bool

definition current_schema :: db_schema where
  "current_schema = \<lparr>ds_body_text = True, ds_attempt_count = True, ds_next_retry_at = True, ds_blocked_reason = True,
     ds_last_error_code = True, ds_runs_key_unique = False, ds_attempt_number = True,
     ds_final_response_json = True, ds_timed_out_at = True\<rparr>"

text \<open>\<open>ALTER TABLE ... ADD COLUMN\<close>: the new column holds its default in every row.\<close>

definition add_column :: "bool \<Rightarrow> ('a \<Rightarrow> 'a) \<Rightarrow> 'a list \<Rightarrow> 'a list" where
  "add_column present set_default rows = (if present then rows else map set_default rows)"

text \<open>The copy into the new table selects two columns that an old table may not have.\<close>

definition migrate_agent_runs :: "db_schema \<Rightarrow> run_row list \<Rightarrow> run_row list result" where
  "migrate_agent_runs sch rows =
     (if \<not> ds_runs_key_unique sch then Inr rows
      else if \<not> ds_final_response_json sch then Inl (OperationalError ''no such column: final_response_json'')
      else if \<not> ds_timed_out_at sch then Inl (OperationalError ''no such column: timed_out_at'')
      else Inr (map (rn_attempt_number_update (\<lambda>_. 1)) rows))"

text \<open>\<open>COALESCE(MAX(attempt_number), 0)\<close> over the runs of an assignment.\<close>

definition max_attempt :: "run_row list \<Rightarrow> string \<Rightarrow> nat" where
  "max_attempt rows key = fold max (map rn_attempt_number (filter (\<lambda>r. rn_key r = key) rows)) 0"

definition backfill_attempts :: "run_row list \<Rightarrow> assignment_row list \<Rightarrow> assignment_row list" where
  "backfill_attempts rows = update_where (\<lambda>a. sg_attempt_count a < max_attempt rows (sg_key a))
     (\<lambda>a. a\<lparr>sg_attempt_count := max_attempt rows (sg_key a)\<rparr>)"

definition add_run_columns :: "db_schema \<Rightarrow> run_row list \<Rightarrow> run_row list" where
  "add_run_columns sch rows =
     add_column (ds_runs_key_unique sch \<or> ds_timed_out_at sch) (rn_timed_out_at_update (\<lambda>_. None))
       (add_column (ds_runs_key_unique sch \<or> ds_final_response_json sch) (rn_final_response_json_update (\<lambda>_. None))
       (add_column (ds_runs_key_unique sch \<or> ds_attempt_number sch) (rn_attempt_number_update (\<lambda>_. 1)) rows))"

definition add_assignment_columns :: "db_schema \<Rightarrow> assignment_row list \<Rightarrow> assignment_row list" where
  "add_assignment_columns sch rows =
     add_column (ds_last_error_code sch) (sg_last_error_code_update (\<lambda>_. None))
       (add_column (ds_blocked_reason sch) (sg_blocked_reason_update (\<lambda>_. None))
       (add_column (ds_next_retry_at sch) (sg_next_retry_at_update (\<lambda>_. None))
       (add_column (ds_attempt_count sch) (sg_attempt_count_update (\<lambda>_. 0)) rows)))"

definition init_db :: "db_schema \<Rightarrow> orch_db \<Rightarrow> orch_db result" where
  "init_db sch db =
     (let items = add_column (ds_body_text sch) (wr_body_text_update (\<lambda>_. [])) (od_items db);
          assignments = add_assignment_columns sch (od_assignments db)
      in result_bind (migrate_agent_runs sch (od_runs db)) (\<lambda>migrated.
         let runs = add_run_columns sch migrated
         in Inr (db\<lparr>od_items := items, od_runs := runs, od_assignments := backfill_attempts runs assignments\<rparr>)))"

section \<open>Work items and assignments\<close>

definition item_key :: "work_row \<Rightarrow> string \<times> string \<times> string" where
  "item_key r = (wr_provider r, wr_repository_id r, wr_external_id r)"

definition next_item_id :: "work_row list \<Rightarrow> nat" where
  "next_item_id rows = Suc (fold max (map wr_id rows) 0)"

definition new_item_row :: "int \<Rightarrow> nat \<Rightarrow> work_item \<Rightarrow> work_row" where
  "new_item_row now i w = \<lparr>wr_id = i, wr_provider = wi_provider w, wr_repository_id = wi_repository_id w,
     wr_kind = wi_kind w, wr_external_id = wi_external_id w, wr_title = wi_title w, wr_body_text = wi_body w,
     wr_body_hash = wi_body_hash w, wr_url = wi_url w, wr_labels_json = join_lines (wi_labels w),
     wr_assignees_json = join_lines (wi_assignees w), wr_updated_at = wi_updated_at w, wr_last_seen_at = now\<rparr>"

text \<open>The conflict clause sets every column but the kind.\<close>

definition refresh_item_row :: "work_row \<Rightarrow> work_row \<Rightarrow> work_row" where
  "refresh_item_row new r = r\<lparr>wr_title := wr_title new, wr_body_text := wr_body_text new,
     wr_body_hash := wr_body_hash new, wr_url := wr_url new, wr_labels_json := wr_labels_json new,
     wr_assignees_json := wr_assignees_json new, wr_updated_at := wr_updated_at new, wr_last_seen_at := wr_last_seen_at new\<rparr>"

definition upsert_work_item :: "int \<Rightarrow> work_item \<Rightarrow> orch_db \<Rightarrow> nat \<times> orch_db" where
  "upsert_work_item now w db =
     (let new = new_item_row now (next_item_id (od_items db)) w;
          items = upsert item_key new (refresh_item_row new) (od_items db)
      in (case find (\<lambda>r. item_key r = item_key new) items of Some r \<Rightarrow> wr_id r | None \<Rightarrow> 0, db\<lparr>od_items := items\<rparr>))"

definition new_assignment :: "int \<Rightarrow> string \<Rightarrow> nat \<Rightarrow> string \<Rightarrow> assignment_row" where
  "new_assignment now key item role = \<lparr>sg_key = key, sg_work_item_id = item, sg_role = role, sg_status = ''PENDING'',
     sg_attempt_count = 0, sg_next_retry_at = None, sg_blocked_reason = None, sg_last_error_code = None,
     sg_created_at = now, sg_updated_at = now\<rparr>"

definition ensure_assignment :: "int \<Rightarrow> string \<Rightarrow> nat \<Rightarrow> string \<Rightarrow> orch_db \<Rightarrow> bool \<times> orch_db" where
  "ensure_assignment now key item role db =
     (if key \<in> set (map sg_key (od_assignments db)) then (False, db)
      else (True, db\<lparr>od_assignments := od_assignments db @ [new_assignment now key item role]\<rparr>))"

text \<open>\<open>JOIN\<close> with a table whose join column is unique, and \<open>LIMIT\<close>, where a negative number is no limit.\<close>

definition find_assignment :: "orch_db \<Rightarrow> string \<Rightarrow> assignment_row option" where
  "find_assignment db key = find (\<lambda>a. sg_key a = key) (od_assignments db)"

definition find_item :: "orch_db \<Rightarrow> nat \<Rightarrow> work_row option" where
  "find_item db i = find (\<lambda>r. wr_id r = i) (od_items db)"

definition limit_rows :: "int \<Rightarrow> 'a list \<Rightarrow> 'a list" where
  "limit_rows n rows = (if n < 0 then rows else take (nat n) rows)"

definition due :: "int \<Rightarrow> assignment_row \<Rightarrow> bool" where
  "due now a \<longleftrightarrow> (case sg_next_retry_at a of None \<Rightarrow> True | Some t \<Rightarrow> t \<le> now)"

definition pending_before :: "assignment_row \<Rightarrow> assignment_row \<Rightarrow> bool" where
  "pending_before a b =
     (let since = (\<lambda>x. case sg_next_retry_at x of Some t \<Rightarrow> t | None \<Rightarrow> sg_created_at x)
      in since a < since b \<or> since a = since b \<and> sg_updated_at a < sg_updated_at b)"

definition pending_assignments :: "int \<Rightarrow> string \<Rightarrow> int \<Rightarrow> orch_db \<Rightarrow> (assignment_row \<times> work_row) list" where
  "pending_assignments now role limit db =
     limit_rows limit
       (sort_by (\<lambda>x y. pending_before (fst x) (fst y))
         (List.map_filter (\<lambda>a. map_option (Pair a) (find_item db (sg_work_item_id a)))
           (filter (\<lambda>a. sg_status a = ''PENDING'' \<and> sg_role a = role \<and> due now a) (od_assignments db))))"

section \<open>Runs\<close>

definition has_active_run :: "orch_db \<Rightarrow> string \<Rightarrow> bool" where
  "has_active_run db key \<longleftrightarrow> list_ex (\<lambda>r. rn_key r = key \<and> rn_status r = ACTIVE) (od_runs db)"

definition update_assignment :: "string \<Rightarrow> (assignment_row \<Rightarrow> assignment_row) \<Rightarrow> orch_db \<Rightarrow> orch_db" where
  "update_assignment key f db = db\<lparr>od_assignments := update_where (\<lambda>a. sg_key a = key) f (od_assignments db)\<rparr>"

definition new_run :: "int \<Rightarrow> string \<Rightarrow> string \<Rightarrow> string option \<Rightarrow> nat \<Rightarrow> run_row" where
  "new_run now key run_id session attempt = \<lparr>rn_key = key, rn_run_id = run_id, rn_session_id = session, rn_status = ACTIVE,
     rn_attempt_number = attempt, rn_started_at = now, rn_completed_at = None, rn_raw_status = None, rn_final_status = None,
     rn_final_response_json = None, rn_timed_out_at = None, rn_error = None\<rparr>"

definition mark_assignment_started :: "int \<Rightarrow> string \<Rightarrow> string \<Rightarrow> string option \<Rightarrow> orch_db \<Rightarrow> orch_db result" where
  "mark_assignment_started now key run_id session db =
     (if has_active_run db key then Inl (RuntimeError (''assignment '' @ key @ '' already has an ACTIVE run''))
      else (case find_assignment db key of
        None \<Rightarrow> Inl (RuntimeError (''assignment '' @ key @ '' does not exist''))
      | Some a \<Rightarrow>
          let attempt = sg_attempt_count a + 1;
              db1 = update_assignment key (\<lambda>x. x\<lparr>sg_status := STARTED, sg_attempt_count := attempt, sg_next_retry_at := None,
                      sg_blocked_reason := None, sg_last_error_code := None, sg_updated_at := now\<rparr>) db
          in if run_id \<in> set (map rn_run_id (od_runs db))
             then Inl (IntegrityError ''UNIQUE constraint failed: agent_runs.hermes_run_id'')
             else Inr (db1\<lparr>od_runs := od_runs db1 @ [new_run now key run_id session attempt]\<rparr>)))"

text \<open>The columns \<open>active_runs\<close> selects.\<close>

record run_view =
  rv_key :: string
  rv_run_id :: string
  rv_session_id :: "string option"
  rv_attempt_number :: nat
  rv_started_at :: int
  rv_role :: string
  rv_item :: work_row

definition active_runs :: "orch_db \<Rightarrow> run_view list" where
  "active_runs db =
     List.map_filter (\<lambda>r.
       (case find_assignment db (rn_key r) of
          None \<Rightarrow> None
        | Some a \<Rightarrow> map_option (\<lambda>i. \<lparr>rv_key = rn_key r, rv_run_id = rn_run_id r, rv_session_id = rn_session_id r,
              rv_attempt_number = rn_attempt_number r, rv_started_at = rn_started_at r, rv_role = sg_role a, rv_item = i\<rparr>)
            (find_item db (sg_work_item_id a))))
       (sort_by (\<lambda>r s. rn_started_at r < rn_started_at s) (filter (\<lambda>r. rn_status r = ACTIVE) (od_runs db)))"

text \<open>The arguments of \<open>mark_run_finished\<close> but the key; \<open>finish_with\<close> has the defaults.\<close>

record run_outcome =
  oc_run_status :: string
  oc_final_status :: "string option"
  oc_raw_status :: string
  oc_assignment_status :: "string option"
  oc_error :: "string option"
  oc_final_response_json :: "string option"
  oc_timed_out :: bool
  oc_next_retry_at :: "int option"
  oc_blocked_reason :: "string option"
  oc_last_error_code :: "string option"

definition finish_with :: "string \<Rightarrow> string option \<Rightarrow> string \<Rightarrow> run_outcome" where
  "finish_with run_status final_status raw = \<lparr>oc_run_status = run_status, oc_final_status = final_status, oc_raw_status = raw,
     oc_assignment_status = None, oc_error = None, oc_final_response_json = None, oc_timed_out = False,
     oc_next_retry_at = None, oc_blocked_reason = None, oc_last_error_code = None\<rparr>"

definition outcome_assignment_status :: "run_outcome \<Rightarrow> string" where
  "outcome_assignment_status oc =
     (case oc_assignment_status oc of Some s \<Rightarrow> (if s \<noteq> [] then s else oc_run_status oc) | None \<Rightarrow> oc_run_status oc)"

definition mark_run_finished :: "int \<Rightarrow> string \<Rightarrow> run_outcome \<Rightarrow> orch_db \<Rightarrow> orch_db" where
  "mark_run_finished now key oc db =
     update_assignment key (\<lambda>a. a\<lparr>sg_status := outcome_assignment_status oc, sg_next_retry_at := oc_next_retry_at oc,
         sg_blocked_reason := oc_blocked_reason oc, sg_last_error_code := oc_last_error_code oc, sg_updated_at := now\<rparr>)
       (db\<lparr>od_runs := update_where (\<lambda>r. rn_key r = key \<and> rn_status r = ACTIVE)
          (\<lambda>r. r\<lparr>rn_status := oc_run_status oc, rn_raw_status := Some (oc_raw_status oc), rn_final_status := oc_final_status oc,
             rn_final_response_json := oc_final_response_json oc, rn_error := oc_error oc, rn_completed_at := Some now,
             rn_timed_out_at := (if oc_timed_out oc then Some now else rn_timed_out_at r)\<rparr>) (od_runs db)\<rparr>)"

section \<open>Transitions, requeueing and blocking\<close>

definition record_transition :: "int \<Rightarrow> string \<Rightarrow> string \<Rightarrow> string \<Rightarrow> string option \<Rightarrow> bool \<Rightarrow> string option \<Rightarrow> string option
    \<Rightarrow> orch_db \<Rightarrow> orch_db" where
  "record_transition now key from_role final_status next_role applied provider_result error db =
     db\<lparr>od_transitions := od_transitions db @ [\<lparr>tn_key = key, tn_from_role = from_role, tn_final_status = final_status,
        tn_next_role = next_role, tn_provider_applied = applied, tn_provider_result = provider_result, tn_error = error,
        tn_created_at = now\<rparr>]\<rparr>"

definition assignment_attempt_count :: "orch_db \<Rightarrow> string \<Rightarrow> nat" where
  "assignment_attempt_count db key = (case find_assignment db key of Some a \<Rightarrow> sg_attempt_count a | None \<Rightarrow> 0)"

definition requeue_assignment :: "int \<Rightarrow> string \<Rightarrow> int option \<Rightarrow> string option \<Rightarrow> orch_db \<Rightarrow> orch_db" where
  "requeue_assignment now key next_retry_at reason db =
     (let db1 = update_assignment key (\<lambda>a. a\<lparr>sg_status := ''PENDING'', sg_next_retry_at := next_retry_at,
                  sg_blocked_reason := None, sg_last_error_code := None, sg_updated_at := now\<rparr>) db
      in (case reason of
            None \<Rightarrow> db1
          | Some text \<Rightarrow>
              (case find_assignment db1 key of
                 None \<Rightarrow> db1
               | Some a \<Rightarrow> record_transition now (sg_key a) (sg_role a) text None False
                   (Some ''{\"mode\":\"local-requeue\"}'') None db1)))"

definition block_assignment :: "int \<Rightarrow> string \<Rightarrow> string \<Rightarrow> string \<Rightarrow> string option \<Rightarrow> orch_db \<Rightarrow> orch_db" where
  "block_assignment now key status blocked_reason last_error_code db =
     update_assignment key (\<lambda>a. a\<lparr>sg_status := status, sg_blocked_reason := Some blocked_reason,
       sg_last_error_code := last_error_code, sg_next_retry_at := None, sg_updated_at := now\<rparr>) db"

definition matching_requeue_assignments :: "string \<Rightarrow> string set \<Rightarrow> string option \<Rightarrow> int option \<Rightarrow> orch_db \<Rightarrow> assignment_row list" where
  "matching_requeue_assignments role statuses key limit db =
     (case limit of None \<Rightarrow> id | Some n \<Rightarrow> limit_rows n)
       (sort_by (\<lambda>a b. sg_updated_at a < sg_updated_at b)
         (filter (\<lambda>a. sg_role a = role \<and> sg_status a \<in> statuses \<and> (key = None \<or> key = Some (sg_key a))) (od_assignments db)))"

definition requeue_assignments :: "int \<Rightarrow> string \<Rightarrow> string set \<Rightarrow> string option \<Rightarrow> int option \<Rightarrow> orch_db \<Rightarrow> nat \<times> orch_db" where
  "requeue_assignments now role statuses key limit db =
     (let rows = matching_requeue_assignments role statuses key limit db
      in (length rows,
          fold (\<lambda>row. update_assignment (sg_key row) (\<lambda>a. a\<lparr>sg_status := ''PENDING'', sg_next_retry_at := None,
            sg_blocked_reason := None, sg_last_error_code := None, sg_updated_at := now\<rparr>)) rows db))"

section \<open>Counters\<close>

text \<open>\<open>GROUP BY status\<close> with \<open>COUNT(*)\<close>, in the order of the statuses.\<close>

definition group_counts :: "string list \<Rightarrow> (string \<times> nat) list" where
  "group_counts statuses = map (\<lambda>s. (s, count_where (\<lambda>t. t = s) statuses)) (sort_key id (nub_first statuses))"

definition assignment_status_counts :: "string option \<Rightarrow> orch_db \<Rightarrow> (string \<times> nat) list" where
  "assignment_status_counts role db =
     group_counts (map sg_status (filter (\<lambda>a. role = None \<or> role = Some (sg_role a)) (od_assignments db)))"

definition run_status_counts :: "string option \<Rightarrow> orch_db \<Rightarrow> (string \<times> nat) list" where
  "run_status_counts role db =
     group_counts (map rn_status (filter (\<lambda>r. role = None \<or>
       (case find_assignment db (rn_key r) of Some a \<Rightarrow> role = Some (sg_role a) | None \<Rightarrow> False)) (od_runs db)))"

definition queue_counts :: "int \<Rightarrow> string \<Rightarrow> orch_db \<Rightarrow> nat \<times> nat \<times> nat" where
  "queue_counts now role db =
     (let rows = filter (\<lambda>a. sg_role a = role) (od_assignments db)
      in (count_where (\<lambda>a. sg_status a = ''PENDING'' \<and> due now a) rows,
          count_where (\<lambda>a. sg_status a = ''PENDING'' \<and> \<not> due now a) rows,
          count_where (\<lambda>a. sg_status a = STARTED) rows))"

definition table_counts :: "orch_db \<Rightarrow> (string \<times> nat) list" where
  "table_counts db = [(''work_items'', length (od_items db)), (''role_assignments'', length (od_assignments db)),
     (''agent_runs'', length (od_runs db)), (''transitions'', length (od_transitions db))]"

definition row_to_work_item :: "work_row \<Rightarrow> work_item" where
  "row_to_work_item r = \<lparr>wi_provider = wr_provider r, wi_repository_id = wr_repository_id r, wi_kind = wr_kind r,
     wi_external_id = wr_external_id r, wi_title = wr_title r, wi_body = wr_body_text r, wi_body_hash = wr_body_hash r,
     wi_url = wr_url r, wi_labels = filter (\<lambda>l. l \<noteq> []) (split_char newline (wr_labels_json r)),
     wi_assignees = filter (\<lambda>l. l \<noteq> []) (split_char newline (wr_assignees_json r)), wi_updated_at = wr_updated_at r\<rparr>"

end
