(* ===== verification/OrchRuns.thy ===== *)
theory OrchRuns
  imports OrchDb
begin

text \<open>
  The life of assignments and runs: a step relation made of the operations of \<open>db.py\<close> under the
  conditions its callers keep, the invariant of every reachable database, and the properties of single
  operations. A finished run is never touched again, an assignment has at most one active run, and its runs
  carry distinct attempt numbers up to its attempt count.
\<close>

section \<open>The invariant\<close>

definition attempts_ok :: "assignment_row list \<Rightarrow> run_row list \<Rightarrow> bool" where
  "attempts_ok as rs \<longleftrightarrow> (\<forall>r\<in>set rs. 1 \<le> rn_attempt_number r \<and>
     (\<exists>a\<in>set as. sg_key a = rn_key r \<and> rn_attempt_number r \<le> sg_attempt_count a))"

definition items_ok :: "work_row list \<Rightarrow> assignment_row list \<Rightarrow> bool" where
  "items_ok is as \<longleftrightarrow> distinct (map item_key is) \<and> distinct (map wr_id is) \<and>
     (\<forall>a\<in>set as. sg_work_item_id a \<in> wr_id ` set is)"

definition runs_ok :: "run_row list \<Rightarrow> bool" where
  "runs_ok rs \<longleftrightarrow> distinct (map rn_run_id rs) \<and> distinct (map (\<lambda>r. (rn_key r, rn_attempt_number r)) rs) \<and>
     distinct (map rn_key (filter (\<lambda>r. rn_status r = ACTIVE) rs))"

definition started_ok :: "orch_db \<Rightarrow> bool" where
  "started_ok db \<longleftrightarrow> (\<forall>a\<in>set (od_assignments db). sg_status a = STARTED \<longrightarrow> has_active_run db (sg_key a))"

definition orch_wf :: "orch_db \<Rightarrow> bool" where
  "orch_wf db \<longleftrightarrow> items_ok (od_items db) (od_assignments db) \<and> distinct (map sg_key (od_assignments db)) \<and>
     runs_ok (od_runs db) \<and> attempts_ok (od_assignments db) (od_runs db) \<and> started_ok db"

lemma orch_wfD:
  assumes "orch_wf db"
  shows "items_ok (od_items db) (od_assignments db)" "distinct (map sg_key (od_assignments db))"
    "runs_ok (od_runs db)" "attempts_ok (od_assignments db) (od_runs db)" "started_ok db"
  using assms by (simp_all add: orch_wf_def)

lemma orch_wfI:
  "items_ok (od_items db) (od_assignments db) \<Longrightarrow> distinct (map sg_key (od_assignments db)) \<Longrightarrow> runs_ok (od_runs db) \<Longrightarrow>
   attempts_ok (od_assignments db) (od_runs db) \<Longrightarrow> started_ok db \<Longrightarrow> orch_wf db"
  by (simp add: orch_wf_def)

section \<open>Facts about rows\<close>

lemma find_distinct:
  "distinct (map f xs) \<Longrightarrow> x \<in> set xs \<Longrightarrow> find (\<lambda>y. f y = f x) xs = Some x"
  by (induction xs) auto

lemma find_assignment_Some:
  "distinct (map sg_key (od_assignments db)) \<Longrightarrow>
   find_assignment db key = Some a \<longleftrightarrow> a \<in> set (od_assignments db) \<and> sg_key a = key"
  unfolding find_assignment_def by (auto dest: find_Some_in simp: find_distinct)

lemma find_assignment_None: "find_assignment db key = None \<longleftrightarrow> key \<notin> sg_key ` set (od_assignments db)"
  by (auto simp: find_assignment_def find_None_all)

lemma find_item_Some:
  "distinct (map wr_id (od_items db)) \<Longrightarrow> find_item db i = Some r \<longleftrightarrow> r \<in> set (od_items db) \<and> wr_id r = i"
  unfolding find_item_def by (auto dest: find_Some_in simp: find_distinct)

lemma has_active_run_iff:
  "has_active_run db key \<longleftrightarrow> (\<exists>r\<in>set (od_runs db). rn_key r = key \<and> rn_status r = ACTIVE)"
  by (auto simp: has_active_run_def list_ex_iff)

lemma fold_max_init: "n \<le> fold max xs n" for n :: nat
proof (induction xs arbitrary: n)
  case (Cons a xs)
  show ?case using Cons [of "max a n"] by simp
qed simp

lemma fold_max_ge: "x \<in> set xs \<Longrightarrow> x \<le> fold max xs n" for x n :: nat
proof (induction xs arbitrary: n)
  case (Cons a xs)
  then show ?case using fold_max_init [of "max a n" xs] by auto
qed simp

lemma next_item_id_fresh: "next_item_id rows \<notin> wr_id ` set rows"
proof
  assume "next_item_id rows \<in> wr_id ` set rows"
  then have "next_item_id rows \<le> fold max (map wr_id rows) 0" by (intro fold_max_ge) auto
  then show False by (simp add: next_item_id_def)
qed

lemma max_attempt_ge: "r \<in> set rs \<Longrightarrow> rn_key r = key \<Longrightarrow> rn_attempt_number r \<le> max_attempt rs key"
  unfolding max_attempt_def by (rule fold_max_ge) auto

lemma fold_max_le: "(\<And>x. x \<in> set xs \<Longrightarrow> x \<le> m) \<Longrightarrow> n \<le> m \<Longrightarrow> fold max xs n \<le> m" for m n :: nat
  by (induction xs arbitrary: n) auto

lemma update_where_none: "(\<And>x. x \<in> set xs \<Longrightarrow> \<not> P x) \<Longrightarrow> update_where P f xs = xs"
  by (induction xs) auto

lemma distinct_filter_update:
  assumes "distinct (map g (filter P xs))" "\<And>x. x \<in> set xs \<Longrightarrow> Q x \<Longrightarrow> P (f x) \<Longrightarrow> P x \<and> g (f x) = g x"
  shows "distinct (map g (filter P (update_where Q f xs)))"
  using assms
proof (induction xs)
  case (Cons x xs)
  have sub: "g ` {y \<in> set (update_where Q f xs). P y} \<subseteq> g ` {y \<in> set xs. P y}"
    using Cons.prems(2) by (force simp: update_where_in_iff)
  have ih: "distinct (map g (filter P (update_where Q f xs)))"
    using Cons.prems by (intro Cons.IH) (auto split: if_splits)
  show ?case using Cons.prems ih sub by (cases "Q x") auto
qed simp

lemma map_filter_subset: "set (List.map_filter f xs) = {y. \<exists>x\<in>set xs. f x = Some y}"
  by (force simp: List.map_filter_def)

lemma map_upsert:
  "(\<And>r. g (upd r) = g r) \<Longrightarrow> map g (upsert key row upd rows) =
     (if key row \<in> set (map key rows) then map g rows else map g rows @ [g row])"
  by (simp add: upsert_def map_update_where)

lemma attempts_ok_mono:
  assumes "attempts_ok as rs"
    and "\<And>a. a \<in> set as \<Longrightarrow> \<exists>b\<in>set bs. sg_key b = sg_key a \<and> sg_attempt_count a \<le> sg_attempt_count b"
  shows "attempts_ok bs rs"
  unfolding attempts_ok_def
proof
  fix r assume "r \<in> set rs"
  with assms(1) obtain a where a: "a \<in> set as" "1 \<le> rn_attempt_number r" "sg_key a = rn_key r"
    "rn_attempt_number r \<le> sg_attempt_count a"
    by (auto simp: attempts_ok_def)
  from assms(2) [OF a(1)] obtain b where "b \<in> set bs" "sg_key b = sg_key a" "sg_attempt_count a \<le> sg_attempt_count b"
    by blast
  with a show "1 \<le> rn_attempt_number r \<and> (\<exists>a\<in>set bs. sg_key a = rn_key r \<and> rn_attempt_number r \<le> sg_attempt_count a)"
    by (metis le_trans)
qed

lemma attempts_ok_update:
  assumes "attempts_ok as rs" "\<And>a. sg_key (f a) = sg_key a" "\<And>a. P a \<Longrightarrow> a \<in> set as \<Longrightarrow> sg_attempt_count a \<le> sg_attempt_count (f a)"
  shows "attempts_ok (update_where P f as) rs"
proof (rule attempts_ok_mono [OF assms(1)])
  fix a assume "a \<in> set as"
  then show "\<exists>b\<in>set (update_where P f as). sg_key b = sg_key a \<and> sg_attempt_count a \<le> sg_attempt_count b"
    using assms(2,3) by (intro bexI [of _ "if P a then f a else a"]) (auto simp: update_where_in_iff)
qed

lemma attempts_ok_runs:
  "attempts_ok as rs \<Longrightarrow> (\<And>r. rn_key (g r) = rn_key r \<and> rn_attempt_number (g r) = rn_attempt_number r) \<Longrightarrow>
   attempts_ok as (update_where Q g rs)"
  by (auto simp: attempts_ok_def update_where_in_iff)

lemma count_where_le_1: "distinct (map g (filter P xs)) \<Longrightarrow> count_where (\<lambda>x. g x = k \<and> P x) xs \<le> 1"
proof (induction xs)
  case (Cons x xs)
  show ?case
  proof (cases "g x = k \<and> P x")
    case True
    with Cons.prems have "count_where (\<lambda>x. g x = k \<and> P x) xs = 0" by (auto simp: count_where_0_iff image_iff)
    then show ?thesis using True by (simp add: count_where_def)
  next
    case False
    with Cons show ?thesis by (auto simp: count_where_def split: if_splits)
  qed
qed (simp add: count_where_def)

section \<open>Operations keep the invariant\<close>

lemma orch_wf_empty: "orch_wf empty_orch_db"
  by (simp add: orch_wf_def items_ok_def runs_ok_def attempts_ok_def started_ok_def empty_orch_db_def)

text \<open>Changing assignment rows without starting one.\<close>

lemma orch_wf_update_assignment:
  assumes wf: "orch_wf db"
    and f: "\<And>a. sg_key (f a) = sg_key a" "\<And>a. sg_work_item_id (f a) = sg_work_item_id a"
      "\<And>a. sg_attempt_count a \<le> sg_attempt_count (f a)" "\<And>a. sg_status (f a) \<noteq> STARTED"
  shows "orch_wf (update_assignment key f db)"
proof (rule orch_wfI)
  show "items_ok (od_items (update_assignment key f db)) (od_assignments (update_assignment key f db))"
    using orch_wfD(1) [OF wf] f by (simp add: items_ok_def update_assignment_def update_where_ball)
  show "distinct (map sg_key (od_assignments (update_assignment key f db)))"
    using orch_wfD(2) [OF wf] f by (simp add: update_assignment_def map_update_where)
  show "runs_ok (od_runs (update_assignment key f db))"
    using orch_wfD(3) [OF wf] by (simp add: update_assignment_def)
  show "attempts_ok (od_assignments (update_assignment key f db)) (od_runs (update_assignment key f db))"
    using orch_wfD(4) [OF wf] f by (simp add: update_assignment_def attempts_ok_update)
  show "started_ok (update_assignment key f db)"
    using orch_wfD(5) [OF wf] f
    by (auto simp: started_ok_def has_active_run_def update_assignment_def update_where_ball)
qed

lemma items_ok_upsert:
  assumes "items_ok is as"
  shows "items_ok (upsert item_key (new_item_row now (next_item_id is) w) (refresh_item_row (new_item_row now (next_item_id is) w)) is) as"
proof -
  let ?new = "new_item_row now (next_item_id is) w"
  let ?is = "upsert item_key ?new (refresh_item_row ?new) is"
  have k: "item_key (refresh_item_row ?new r) = item_key r" "wr_id (refresh_item_row ?new r) = wr_id r" for r
    by (simp_all add: refresh_item_row_def item_key_def)
  have ids: "map wr_id ?is = map wr_id is \<or> map wr_id ?is = map wr_id is @ [wr_id ?new]"
    by (simp add: map_upsert k)
  have d: "distinct (map wr_id ?is)"
    using ids next_item_id_fresh [of "is"] assms by (auto simp: items_ok_def new_item_row_def)
  have sub: "wr_id ` set is \<subseteq> wr_id ` set ?is"
    using ids by (metis image_set inf_sup_ord(3) set_append subset_refl)
  have "distinct (map item_key ?is)"
    using assms by (intro distinct_upsert) (simp_all add: k items_ok_def)
  with d sub assms show ?thesis by (auto simp: items_ok_def)
qed

lemma orch_wf_upsert: "orch_wf db \<Longrightarrow> orch_wf (snd (upsert_work_item now w db))"
  by (simp add: orch_wf_def upsert_work_item_def Let_def items_ok_upsert started_ok_def has_active_run_def)

lemma orch_wf_ensure:
  assumes "orch_wf db" "i \<in> wr_id ` set (od_items db)"
  shows "orch_wf (snd (ensure_assignment now key i role db))"
  using assms
  by (auto simp: ensure_assignment_def orch_wf_def items_ok_def attempts_ok_def started_ok_def has_active_run_def
      new_assignment_def)

lemma mark_started_Inr:
  assumes "mark_assignment_started now key rid sid db = Inr db'"
  obtains a where "find_assignment db key = Some a" "\<not> has_active_run db key" "rid \<notin> rn_run_id ` set (od_runs db)"
    "db' = db\<lparr>od_assignments := update_where (\<lambda>x. sg_key x = key)
        (\<lambda>x. x\<lparr>sg_status := STARTED, sg_attempt_count := sg_attempt_count a + 1, sg_next_retry_at := None,
               sg_blocked_reason := None, sg_last_error_code := None, sg_updated_at := now\<rparr>) (od_assignments db),
      od_runs := od_runs db @ [new_run now key rid sid (sg_attempt_count a + 1)]\<rparr>"
  using assms
  by (auto simp: mark_assignment_started_def update_assignment_def Let_def split: if_splits option.splits)

lemma orch_wf_started:
  assumes wf: "orch_wf db" and start: "mark_assignment_started now key rid sid db = Inr db'"
  shows "orch_wf db'"
proof -
  from start obtain a where a: "find_assignment db key = Some a" "\<not> has_active_run db key"
    "rid \<notin> rn_run_id ` set (od_runs db)" and
    db': "db' = db\<lparr>od_assignments := update_where (\<lambda>x. sg_key x = key)
        (\<lambda>x. x\<lparr>sg_status := STARTED, sg_attempt_count := sg_attempt_count a + 1, sg_next_retry_at := None,
               sg_blocked_reason := None, sg_last_error_code := None, sg_updated_at := now\<rparr>) (od_assignments db),
      od_runs := od_runs db @ [new_run now key rid sid (sg_attempt_count a + 1)]\<rparr>"
    by (rule mark_started_Inr)
  note d = orch_wfD(2) [OF wf]
  from a(1) have ain: "a \<in> set (od_assignments db)" "sg_key a = key"
    using find_assignment_Some [OF d] by auto
  have only: "x = a" if "x \<in> set (od_assignments db)" "sg_key x = key" for x
    using distinct_map_eq [OF d that(1) ain(1)] that(2) ain(2) by simp
  have le: "rn_attempt_number r \<le> sg_attempt_count a" if "r \<in> set (od_runs db)" "rn_key r = key" for r
    using orch_wfD(4) [OF wf] that only by (fastforce simp: attempts_ok_def)
  show ?thesis
  proof (rule orch_wfI)
    show "items_ok (od_items db') (od_assignments db')"
      using orch_wfD(1) [OF wf] by (simp add: db' items_ok_def update_where_ball)
    show "distinct (map sg_key (od_assignments db'))"
      using d by (simp add: db' map_update_where)
    show "runs_ok (od_runs db')"
      using orch_wfD(3) [OF wf] a(2,3) le
      by (fastforce simp: db' runs_ok_def new_run_def has_active_run_iff)
    show "attempts_ok (od_assignments db') (od_runs db')"
      using orch_wfD(4) [OF wf] ain only
      by (fastforce simp: db' attempts_ok_def update_where_bex new_run_def)
    show "started_ok db'"
      using orch_wfD(5) [OF wf]
      by (auto simp: db' started_ok_def has_active_run_iff new_run_def update_where_ball)
  qed
qed

lemma orch_wf_finished:
  assumes wf: "orch_wf db" and oc: "oc_run_status oc \<noteq> ACTIVE" "outcome_assignment_status oc \<noteq> STARTED"
  shows "orch_wf (mark_run_finished now key oc db)"
proof (rule orch_wfI)
  let ?db = "mark_run_finished now key oc db"
  show "items_ok (od_items ?db) (od_assignments ?db)"
    using orch_wfD(1) [OF wf] by (simp add: mark_run_finished_def update_assignment_def items_ok_def update_where_ball)
  show "distinct (map sg_key (od_assignments ?db))"
    using orch_wfD(2) [OF wf] by (simp add: mark_run_finished_def update_assignment_def map_update_where)
  show "runs_ok (od_runs ?db)"
    using orch_wfD(3) [OF wf] oc(1)
    by (auto simp: mark_run_finished_def update_assignment_def runs_ok_def map_update_where intro!: distinct_filter_update)
  show "attempts_ok (od_assignments ?db) (od_runs ?db)"
    using orch_wfD(4) [OF wf]
    by (simp add: mark_run_finished_def update_assignment_def attempts_ok_update attempts_ok_runs)
  show "started_ok ?db"
    using orch_wfD(5) [OF wf] oc(2)
    by (simp add: mark_run_finished_def update_assignment_def started_ok_def has_active_run_iff update_where_ball update_where_bex)
       metis
qed

lemma orch_wf_transition: "orch_wf db \<Longrightarrow> orch_wf (record_transition now key fr st nr ap res err db)"
  by (simp add: orch_wf_def record_transition_def started_ok_def has_active_run_def)

lemma orch_wf_requeue: "orch_wf db \<Longrightarrow> orch_wf (requeue_assignment now key retry reason db)"
  by (auto simp: requeue_assignment_def Let_def intro!: orch_wf_update_assignment orch_wf_transition split: option.split)

lemma orch_wf_requeue_all: "orch_wf db \<Longrightarrow> orch_wf (snd (requeue_assignments now role sts key n db))"
proof -
  have "orch_wf db \<Longrightarrow> orch_wf (fold (\<lambda>row. update_assignment (sg_key row) (\<lambda>a. a\<lparr>sg_status := ''PENDING'',
      sg_next_retry_at := None, sg_blocked_reason := None, sg_last_error_code := None, sg_updated_at := now\<rparr>)) rows db)" for rows
  proof (induction rows arbitrary: db)
    case (Cons row rows)
    show ?case unfolding fold_Cons comp_def
      by (intro Cons.IH orch_wf_update_assignment Cons.prems) simp_all
  qed simp
  then show "orch_wf db \<Longrightarrow> ?thesis" by (simp add: requeue_assignments_def Let_def)
qed

lemma orch_wf_block: "orch_wf db \<Longrightarrow> st \<noteq> STARTED \<Longrightarrow> orch_wf (block_assignment now key st why code db)"
  by (simp add: block_assignment_def orch_wf_update_assignment)

text \<open>Opening a current database changes nothing.\<close>

lemma backfill_covered:
  assumes "\<And>a. a \<in> set as \<Longrightarrow> max_attempt rs (sg_key a) \<le> sg_attempt_count a"
  shows "backfill_attempts rs as = as"
  unfolding backfill_attempts_def by (rule update_where_none) (use assms in \<open>force simp: not_less\<close>)

lemma backfill_id:
  assumes "attempts_ok as rs" "distinct (map sg_key as)"
  shows "backfill_attempts rs as = as"
proof (rule backfill_covered)
  fix a assume a: "a \<in> set as"
  have "x \<le> sg_attempt_count a" if "x \<in> set (map rn_attempt_number (filter (\<lambda>r. rn_key r = sg_key a) rs))" for x
    using that assms(1) a distinct_map_eq [OF assms(2)] by (fastforce simp: attempts_ok_def)
  then show "max_attempt rs (sg_key a) \<le> sg_attempt_count a"
    unfolding max_attempt_def by (intro fold_max_le) auto
qed

lemma init_db_current: "orch_wf db \<Longrightarrow> init_db current_schema db = Inr db"
  by (simp add: init_db_def current_schema_def migrate_agent_runs_def add_column_def add_run_columns_def
      add_assignment_columns_def backfill_id orch_wf_def)

section \<open>Histories\<close>

text \<open>
  One operation on the database, as the callers use it: assignments are made for existing items, a run does
  not finish as \<open>ACTIVE\<close>, and only \<open>mark_assignment_started\<close> starts an assignment.
\<close>

inductive orch_step :: "orch_db \<Rightarrow> orch_db \<Rightarrow> bool" where
  upsert: "orch_step db (snd (upsert_work_item now w db))"
| ensure: "i \<in> wr_id ` set (od_items db) \<Longrightarrow> orch_step db (snd (ensure_assignment now key i role db))"
| start: "mark_assignment_started now key rid sid db = Inr db' \<Longrightarrow> orch_step db db'"
| finish: "oc_run_status oc \<noteq> ACTIVE \<Longrightarrow> outcome_assignment_status oc \<noteq> STARTED \<Longrightarrow>
    orch_step db (mark_run_finished now key oc db)"
| transition: "orch_step db (record_transition now key fr st nr applied res err db)"
| requeue: "orch_step db (requeue_assignment now key retry reason db)"
| requeue_all: "orch_step db (snd (requeue_assignments now role statuses only_key limit db))"
| block: "st \<noteq> STARTED \<Longrightarrow> orch_step db (block_assignment now key st why code db)"
| init: "init_db current_schema db = Inr db' \<Longrightarrow> orch_step db db'"

lemma orch_wf_step: "orch_step db db' \<Longrightarrow> orch_wf db \<Longrightarrow> orch_wf db'"
  by (induction rule: orch_step.induct)
     (simp_all add: orch_wf_upsert orch_wf_ensure orch_wf_started orch_wf_finished orch_wf_transition
       orch_wf_requeue orch_wf_requeue_all orch_wf_block init_db_current)

lemma orch_wf_steps: "orch_step\<^sup>*\<^sup>* db db' \<Longrightarrow> orch_wf db \<Longrightarrow> orch_wf db'"
  by (induction rule: rtranclp_induct) (auto intro: orch_wf_step)

text \<open>What a step leaves of the runs: finished rows are kept as they are, every row is kept in its identity.\<close>

definition finished_kept :: "run_row list \<Rightarrow> run_row list \<Rightarrow> bool" where
  "finished_kept rs rs' \<longleftrightarrow> (\<forall>r\<in>set rs. rn_status r \<noteq> ACTIVE \<longrightarrow> r \<in> set rs') \<and>
     (\<forall>r\<in>set rs. \<exists>r'\<in>set rs'. rn_run_id r' = rn_run_id r \<and> rn_key r' = rn_key r \<and>
        rn_attempt_number r' = rn_attempt_number r \<and> rn_started_at r' = rn_started_at r)"

lemma finished_kept_refl [simp]: "finished_kept rs rs"
  by (auto simp: finished_kept_def)

lemma finished_kept_trans: "finished_kept a b \<Longrightarrow> finished_kept b c \<Longrightarrow> finished_kept a c"
  unfolding finished_kept_def by metis

lemma finished_kept_append [simp]: "finished_kept rs (rs @ new)"
  by (auto simp: finished_kept_def)

lemma requeue_all_runs: "od_runs (snd (requeue_assignments now role sts key n db)) = od_runs db"
proof -
  have "od_runs (fold (\<lambda>row. update_assignment (sg_key row) f) rows db) = od_runs db" for rows f
    by (induction rows arbitrary: db) (simp_all add: update_assignment_def)
  then show ?thesis by (simp add: requeue_assignments_def Let_def)
qed

lemma finished_kept_finish: "finished_kept (od_runs db) (od_runs (mark_run_finished now key oc db))"
  unfolding finished_kept_def mark_run_finished_def update_assignment_def
  by (auto simp: update_where_in_iff update_where_bex)

lemma finished_kept_step: "orch_step db db' \<Longrightarrow> orch_wf db \<Longrightarrow> finished_kept (od_runs db) (od_runs db')"
proof (induction rule: orch_step.induct)
  case (start now key rid sid db db')
  then show ?case by (auto elim!: mark_started_Inr)
next
  case (requeue db now key retry reason)
  then show ?case
    by (simp add: requeue_assignment_def Let_def update_assignment_def record_transition_def split: option.split)
qed (simp_all add: upsert_work_item_def Let_def ensure_assignment_def finished_kept_finish record_transition_def
      requeue_all_runs block_assignment_def update_assignment_def init_db_current)

lemma finished_kept_steps: "orch_step\<^sup>*\<^sup>* db db' \<Longrightarrow> orch_wf db \<Longrightarrow> finished_kept (od_runs db) (od_runs db')"
proof (induction rule: rtranclp_induct)
  case (step y z)
  then show ?case using finished_kept_trans finished_kept_step orch_wf_steps by metis
qed simp

text \<open>The attempts of an assignment never exceed its count, and there are no more runs than attempts.\<close>

lemma run_count_le:
  assumes "orch_wf db" "find_assignment db key = Some a"
  shows "count_where (\<lambda>r. rn_key r = key) (od_runs db) \<le> sg_attempt_count a"
proof -
  let ?rs = "filter (\<lambda>r. rn_key r = key) (od_runs db)"
  have d: "distinct (map sg_key (od_assignments db))" using orch_wfD(2) [OF assms(1)] .
  have a: "a \<in> set (od_assignments db)" "sg_key a = key" using assms(2) find_assignment_Some [OF d] by auto
  have "distinct (map (\<lambda>r. (rn_key r, rn_attempt_number r)) ?rs)"
    using orch_wfD(3) [OF assms(1)] by (simp add: runs_ok_def distinct_map_filter)
  then have "distinct (map rn_attempt_number ?rs)"
    by (auto simp: distinct_map inj_on_def)
  moreover have "set (map rn_attempt_number ?rs) \<subseteq> {1..sg_attempt_count a}"
    using orch_wfD(4) [OF assms(1)] distinct_map_eq [OF d _ a(1)] a(2) by (fastforce simp: attempts_ok_def)
  ultimately have "length (map rn_attempt_number ?rs) \<le> card {1..sg_attempt_count a}"
    by (metis card_mono distinct_card finite_atLeastAtMost)
  then show ?thesis by (simp add: count_where_def)
qed

section \<open>Properties\<close>

text \<open>
  (C16) Every database the orchestrator can reach is well formed: work items are unique by
  provider, repository and number, assignments by key and runs by their gateway id; every assignment has its
  work item; an assignment has at most one active run, and a started one has exactly that; the runs of an
  assignment have distinct attempt numbers, at most as many as its attempt count says.
\<close>

theorem orch_wf_reachable:
  assumes "orch_step\<^sup>*\<^sup>* empty_orch_db db"
  shows "orch_wf db \<and>
    (\<forall>key. count_where (\<lambda>r. rn_key r = key \<and> rn_status r = ACTIVE) (od_runs db) \<le> 1) \<and>
    (\<forall>key a. find_assignment db key = Some a \<longrightarrow>
       count_where (\<lambda>r. rn_key r = key) (od_runs db) \<le> sg_attempt_count a \<and>
       (sg_status a = STARTED \<longrightarrow> count_where (\<lambda>r. rn_key r = key \<and> rn_status r = ACTIVE) (od_runs db) = 1))"
proof -
  have wf: "orch_wf db" by (rule orch_wf_steps [OF assms orch_wf_empty])
  have d: "distinct (map rn_key (filter (\<lambda>r. rn_status r = ACTIVE) (od_runs db)))"
    using orch_wfD(3) [OF wf] by (simp add: runs_ok_def)
  note le = count_where_le_1 [OF d]
  have "count_where (\<lambda>r. rn_key r = key \<and> rn_status r = ACTIVE) (od_runs db) = 1"
    if "find_assignment db key = Some a" "sg_status a = STARTED" for key a
  proof -
    have "has_active_run db key"
      using that orch_wfD(2,5) [OF wf] find_assignment_Some by (auto simp: started_ok_def)
    then have "count_where (\<lambda>r. rn_key r = key \<and> rn_status r = ACTIVE) (od_runs db) \<noteq> 0"
      by (auto simp: has_active_run_iff count_where_0_iff)
    with le [of key] show ?thesis by simp
  qed
  with wf le run_count_le [OF wf] show ?thesis by blast
qed

text \<open>
  (C17) A finished run is history. Whatever operations follow, the row of a run that is no
  longer active stays in the table unchanged, and every run keeps its gateway id, its assignment, its attempt
  number and its start time.
\<close>

theorem finished_runs_immutable:
  assumes "orch_step\<^sup>*\<^sup>* empty_orch_db db" "orch_step\<^sup>*\<^sup>* db db'" "r \<in> set (od_runs db)"
  shows "(rn_status r \<noteq> ACTIVE \<longrightarrow> r \<in> set (od_runs db')) \<and>
    (\<exists>r'\<in>set (od_runs db'). rn_run_id r' = rn_run_id r \<and> rn_key r' = rn_key r \<and>
       rn_attempt_number r' = rn_attempt_number r \<and> rn_started_at r' = rn_started_at r)"
  using finished_kept_steps [OF assms(2) orch_wf_steps [OF assms(1) orch_wf_empty]] assms(3)
  by (simp add: finished_kept_def)

text \<open>A small history for the examples: one item, one assignment, one run started and finished.\<close>

definition sample_item :: work_item where
  "sample_item = \<lparr>wi_provider = ''github'', wi_repository_id = ''o/r'', wi_kind = ''issue'', wi_external_id = ''7'',
     wi_title = ''t'', wi_body = ''b'', wi_body_hash = ''h'', wi_url = ''u'', wi_labels = [''hermes:planner'', ''x''],
     wi_assignees = [], wi_updated_at = None\<rparr>"

definition sample_db :: "string \<Rightarrow> orch_db" where
  "sample_db rid = (let db1 = snd (upsert_work_item 1 sample_item empty_orch_db);
                        db2 = snd (ensure_assignment 2 ''k'' 1 ''planner'' db1)
     in case mark_assignment_started 3 ''k'' rid None db2 of Inr db3 \<Rightarrow> db3 | Inl _ \<Rightarrow> db2)"

lemma sample_db_reachable: "orch_step\<^sup>*\<^sup>* empty_orch_db (sample_db rid)"
proof -
  let ?d1 = "snd (upsert_work_item 1 sample_item empty_orch_db)"
  let ?d2 = "snd (ensure_assignment 2 ''k'' 1 ''planner'' ?d1)"
  have 1: "orch_step empty_orch_db ?d1" by (rule orch_step.upsert)
  have 2: "orch_step ?d1 ?d2" by (rule orch_step.ensure) code_simp
  have "orch_step\<^sup>*\<^sup>* ?d2 (sample_db rid)"
    by (auto simp: sample_db_def Let_def intro: orch_step.start split: sum.split)
  with 1 2 show ?thesis by (meson converse_rtranclp_into_rtranclp)
qed

theorem orch_wf_reachable_witness:
  "orch_wf (sample_db ''run-1'') \<and> (\<exists>a. find_assignment (sample_db ''run-1'') ''k'' = Some a \<and> sg_status a = STARTED \<and>
     count_where (\<lambda>r. rn_key r = ''k'' \<and> rn_status r = ACTIVE) (od_runs (sample_db ''run-1'')) = 1)"
proof -
  obtain a where "find_assignment (sample_db ''run-1'') ''k'' = Some a" "sg_status a = STARTED"
    by (simp add: sample_db_def upsert_work_item_def empty_orch_db_def ensure_assignment_def mark_assignment_started_def
        has_active_run_def find_assignment_def new_assignment_def update_assignment_def upsert_def Let_def)
  with orch_wf_reachable [OF sample_db_reachable [of "''run-1''"]] show ?thesis by blast
qed

theorem finished_runs_immutable_witness:
  "\<exists>r\<in>set (od_runs (mark_run_finished 9 ''k'' (finish_with ''COMPLETED'' None ''{}'') (sample_db ''run-1''))).
     rn_status r = ''COMPLETED'' \<and> r \<in> set (od_runs (snd (ensure_assignment 10 ''k2'' 1 ''builder''
       (mark_run_finished 9 ''k'' (finish_with ''COMPLETED'' None ''{}'') (sample_db ''run-1'')))))"
  (is "\<exists>r\<in>set (od_runs ?d). _ \<and> r \<in> set (od_runs ?e)")
proof -
  have "orch_step (sample_db ''run-1'') ?d"
    by (rule orch_step.finish) (simp_all add: finish_with_def outcome_assignment_status_def)
  then have d: "orch_step\<^sup>*\<^sup>* empty_orch_db ?d" using sample_db_reachable by (meson rtranclp.rtrancl_into_rtrancl)
  have e: "orch_step\<^sup>*\<^sup>* ?d ?e" by (intro r_into_rtranclp orch_step.ensure) code_simp
  have "list_ex (\<lambda>r. rn_status r = ''COMPLETED'') (od_runs ?d)" by code_simp
  then obtain r where r: "r \<in> set (od_runs ?d)" "rn_status r = ''COMPLETED''" by (auto simp: list_ex_iff)
  with finished_runs_immutable [OF d e r(1)] show ?thesis by auto
qed

section \<open>Single operations\<close>

text \<open>Labels and assignees a row can hold: they are stored one per line.\<close>

definition storable :: "string list \<Rightarrow> bool" where
  "storable xs \<longleftrightarrow> list_all (\<lambda>x. x \<noteq> [] \<and> newline \<notin> set x) xs"

lemma split_join_lines: "storable xs \<Longrightarrow> filter (\<lambda>l. l \<noteq> []) (split_char newline (join_lines xs)) = xs"
proof (cases "xs = []")
  case False
  assume "storable xs"
  then have "split_char newline (join_lines xs) = xs" "\<forall>x\<in>set xs. x \<noteq> []"
    using False by (auto simp: storable_def join_lines_def list_all_iff intro!: split_join)
  then show ?thesis by simp
qed (simp add: join_lines_def)

lemma row_of_new_item:
  "storable (wi_labels w) \<Longrightarrow> storable (wi_assignees w) \<Longrightarrow> row_to_work_item (new_item_row now i w) = w"
  by (simp add: row_to_work_item_def new_item_row_def split_join_lines)

lemma row_of_refreshed_item:
  assumes "storable (wi_labels w)" "storable (wi_assignees w)" "item_key r = item_key (new_item_row now i w)"
  shows "row_to_work_item (refresh_item_row (new_item_row now i w) r) = w\<lparr>wi_kind := wr_kind r\<rparr>"
  using assms
  by (simp add: row_to_work_item_def new_item_row_def refresh_item_row_def item_key_def split_join_lines)

lemma find_item_after_upsert:
  assumes "items_ok is as"
  shows "\<exists>r. find (\<lambda>r. item_key r = item_key new) (upsert item_key new (refresh_item_row new) is) = Some r \<and>
    (case find (\<lambda>r. item_key r = item_key new) is of
       Some r0 \<Rightarrow> r = refresh_item_row new r0 \<and> item_key r0 = item_key new | None \<Rightarrow> r = new)"
proof (cases "find (\<lambda>r. item_key r = item_key new) is")
  case None
  then have "item_key new \<notin> item_key ` set is" by (auto simp: find_None_all)
  moreover have "find (\<lambda>r. item_key r = item_key new) (is @ [new]) = Some new"
    using None by (induction "is") (auto split: if_splits)
  ultimately show ?thesis using None by (simp add: upsert_def)
next
  case (Some r0)
  then have "item_key r0 = item_key new" "item_key new \<in> item_key ` set is"
    using find_Some_in [OF Some] by (auto intro: image_eqI [of _ _ r0])
  moreover have "item_key (refresh_item_row new r) = item_key r" for r
    by (simp add: refresh_item_row_def item_key_def)
  then have "find (\<lambda>r. item_key r = item_key new) (update_where (\<lambda>r. item_key r = item_key new) (refresh_item_row new) is)
      = Some (refresh_item_row new r0)"
    using Some by (induction "is") (auto split: if_splits)
  ultimately show ?thesis using Some by (simp add: upsert_def)
qed

text \<open>
  A work item survives storage. After \<open>upsert_work_item\<close> the row with the returned
  id is read back as the item that was stored, with labels and assignees in their order, provided these are not
  empty and hold no line break; only the kind of an item already stored is not overwritten. All other rows are
  as before.
\<close>

theorem item_roundtrip:
  assumes "orch_wf db" "storable (wi_labels w)" "storable (wi_assignees w)" "upsert_work_item now w db = (i, db')"
  shows "\<exists>r. find_item db' i = Some r \<and>
    row_to_work_item r = w\<lparr>wi_kind := (case find (\<lambda>r. item_key r = (wi_provider w, wi_repository_id w, wi_external_id w))
       (od_items db) of Some r0 \<Rightarrow> wr_kind r0 | None \<Rightarrow> wi_kind w)\<rparr> \<and>
    (\<forall>r0\<in>set (od_items db). item_key r0 \<noteq> (wi_provider w, wi_repository_id w, wi_external_id w) \<longrightarrow> r0 \<in> set (od_items db'))"
proof -
  let ?new = "new_item_row now (next_item_id (od_items db)) w"
  have k: "item_key ?new = (wi_provider w, wi_repository_id w, wi_external_id w)"
    by (simp add: item_key_def new_item_row_def)
  obtain r where r: "find (\<lambda>r. item_key r = item_key ?new) (upsert item_key ?new (refresh_item_row ?new) (od_items db)) = Some r"
    and c: "case find (\<lambda>r. item_key r = item_key ?new) (od_items db) of
       Some r0 \<Rightarrow> r = refresh_item_row ?new r0 \<and> item_key r0 = item_key ?new | None \<Rightarrow> r = ?new"
    using find_item_after_upsert [OF orch_wfD(1) [OF assms(1)]] by blast
  have db': "db' = db\<lparr>od_items := upsert item_key ?new (refresh_item_row ?new) (od_items db)\<rparr>" "i = wr_id r"
    using assms(4) r by (auto simp: upsert_work_item_def Let_def)
  have "items_ok (od_items db') (od_assignments db')"
    using orch_wfD(1) [OF orch_wf_upsert [OF assms(1), of now w]] assms(4) by simp
  then have "find_item db' i = Some r"
    using find_item_Some find_Some_in [OF r] db' by (auto simp: items_ok_def)
  moreover have "row_to_work_item r = w\<lparr>wi_kind := (case find (\<lambda>r. item_key r = item_key ?new)
       (od_items db) of Some r0 \<Rightarrow> wr_kind r0 | None \<Rightarrow> wi_kind w)\<rparr>"
    using c assms(2,3) by (auto simp: row_of_new_item row_of_refreshed_item split: option.splits)
  moreover have "\<forall>r0\<in>set (od_items db). item_key r0 \<noteq> item_key ?new \<longrightarrow> r0 \<in> set (od_items db')"
    by (auto simp: db' upsert_def update_where_in_iff intro: bexI)
  ultimately show ?thesis by (auto simp: k)
qed

theorem item_roundtrip_witness:
  "\<exists>r. find_item (snd (upsert_work_item 5 (sample_item\<lparr>wi_title := ''new''\<rparr>) (sample_db ''r''))) 1 = Some r \<and>
     row_to_work_item r = sample_item\<lparr>wi_title := ''new''\<rparr>"
proof -
  have wf: "orch_wf (sample_db ''r'')" using orch_wf_steps [OF sample_db_reachable orch_wf_empty] .
  have st: "storable (wi_labels (sample_item\<lparr>wi_title := ''new''\<rparr>))" "storable (wi_assignees (sample_item\<lparr>wi_title := ''new''\<rparr>))"
    by code_simp+
  let ?w = "sample_item\<lparr>wi_title := ''new''\<rparr>"
  have "fst (upsert_work_item 5 ?w (sample_db ''r'')) = 1" by code_simp
  then have up: "upsert_work_item 5 ?w (sample_db ''r'') = (1, snd (upsert_work_item 5 ?w (sample_db ''r'')))"
    by (metis prod.collapse)
  have k: "(case find (\<lambda>r. item_key r = (wi_provider ?w, wi_repository_id ?w, wi_external_id ?w))
       (od_items (sample_db ''r'')) of Some r0 \<Rightarrow> wr_kind r0 | None \<Rightarrow> wi_kind ?w) = wi_kind ?w"
    by code_simp
  have "?w\<lparr>wi_kind := wi_kind ?w\<rparr> = ?w" by simp
  with item_roundtrip [OF wf st up] k show ?thesis by metis
qed

lemma find_update_where:
  assumes "\<And>x. g (f x) = g x"
  shows "find (\<lambda>x. g x = k) (update_where (\<lambda>x. g x = j) f xs) =
    (if k = j then map_option f (find (\<lambda>x. g x = k) xs) else find (\<lambda>x. g x = k) xs)"
  using assms by (induction xs) auto

text \<open>
  Starting an assignment. It succeeds exactly when the assignment has no active run
  and the gateway id is new; then the assignment is started with one more attempt and no retry time or error,
  one active run with that attempt number is appended, and every other assignment and run is untouched.
\<close>

theorem start_exact:
  assumes "find_assignment db key = Some a"
  shows "((\<exists>db'. mark_assignment_started now key rid sid db = Inr db') \<longleftrightarrow>
      \<not> has_active_run db key \<and> rid \<notin> set (map rn_run_id (od_runs db))) \<and>
    (\<forall>db'. mark_assignment_started now key rid sid db = Inr db' \<longrightarrow>
       find_assignment db' key = Some (a\<lparr>sg_status := STARTED, sg_attempt_count := sg_attempt_count a + 1,
          sg_next_retry_at := None, sg_blocked_reason := None, sg_last_error_code := None, sg_updated_at := now\<rparr>) \<and>
       assignment_attempt_count db' key = assignment_attempt_count db key + 1 \<and>
       od_runs db' = od_runs db @ [new_run now key rid sid (sg_attempt_count a + 1)] \<and>
       (\<forall>other. other \<noteq> key \<longrightarrow> find_assignment db' other = find_assignment db other))"
proof -
  have "(\<exists>db'. mark_assignment_started now key rid sid db = Inr db') \<longleftrightarrow>
      \<not> has_active_run db key \<and> rid \<notin> set (map rn_run_id (od_runs db))"
    using assms by (simp add: mark_assignment_started_def Let_def)
  moreover have "find_assignment db' key = Some (a\<lparr>sg_status := STARTED, sg_attempt_count := sg_attempt_count a + 1,
          sg_next_retry_at := None, sg_blocked_reason := None, sg_last_error_code := None, sg_updated_at := now\<rparr>) \<and>
       od_runs db' = od_runs db @ [new_run now key rid sid (sg_attempt_count a + 1)] \<and>
       (\<forall>other. other \<noteq> key \<longrightarrow> find_assignment db' other = find_assignment db other)"
    if "mark_assignment_started now key rid sid db = Inr db'" for db'
    using that assms
    by (auto elim!: mark_started_Inr simp: find_assignment_def find_update_where)
  ultimately show ?thesis using assms by (auto simp: assignment_attempt_count_def)
qed

theorem start_exact_witness:
  "\<exists>db'. mark_assignment_started 20 ''k'' ''run-2'' None
     (mark_run_finished 9 ''k'' (finish_with ''FAILED'' None ''{}'') (sample_db ''run-1'')) = Inr db' \<and>
   assignment_attempt_count db' ''k'' = 2"
proof -
  let ?d = "mark_run_finished 9 ''k'' (finish_with ''FAILED'' None ''{}'') (sample_db ''run-1'')"
  have "case find_assignment ?d ''k'' of Some a \<Rightarrow> True | None \<Rightarrow> False" by code_simp
  then obtain a where a: "find_assignment ?d ''k'' = Some a" by (auto split: option.splits)
  have c: "\<not> has_active_run ?d ''k'' \<and> ''run-2'' \<notin> set (map rn_run_id (od_runs ?d))" by code_simp
  have n: "assignment_attempt_count ?d ''k'' = 1" by code_simp
  from start_exact [OF a, of 20 "''run-2''" None] c n show ?thesis by (metis one_add_one)
qed



end
