(* ===== verification/Transitions.thy ===== *)
theory Transitions
  imports OrchDb FinalResponse
begin

text \<open>
  \<open>transitions.py\<close>: what happens outside the database after a run, a comment and label changes on
  the work item. The provider adapter is an object of the caller: here a function from the request it gets to
  its answer or the exception it raises. The requests that are made are part of the result.
\<close>

text \<open>The arguments of \<open>apply_issue_transition\<close>, and the two fields of its result.\<close>

record provider_call =
  pc_item :: work_item
  pc_add_labels :: "string set"
  pc_remove_labels :: "string set"
  pc_comment :: string
  pc_idempotency_key :: string

record provider_transition_result =
  pt_applied :: bool
  pt_details :: pydict

type_synonym adapter = "provider_call \<Rightarrow> provider_transition_result result"

definition render_comment :: "transition_spec \<Rightarrow> final_response \<Rightarrow> string" where
  "render_comment spec r = join_lines
     ([tr_comment spec, [],
       ''Assignment: '' @ fr_assignment_key r,
       ''Final status: '' @ status_value (fr_final_status r),
       ''Summary: '' @ fr_summary r] @
      (case fr_block_reason r of Some b \<Rightarrow> (if b \<noteq> [] then [''Block reason: '' @ b] else []) | None \<Rightarrow> []) @
      (if fr_evidence r \<noteq> [] then [''Evidence items: '' @ str_of_int (int (length (fr_evidence r)))] else []))"

definition render_failure_comment :: "string \<Rightarrow> string \<Rightarrow> string \<Rightarrow> string" where
  "render_failure_comment key failure_status summary = join_lines
     [''Hermes orchestration failure: '' @ failure_status @ ''.'', [],
      ''Assignment: '' @ key,
      ''Summary: '' @ summary]"

definition disabled_result :: "(pyfloat \<Rightarrow> string) \<Rightarrow> string \<Rightarrow> string" where
  "disabled_result fr comment = dumps_spaced fr (JObj [(''mode'', JStr ''disabled''), (''comment'', JStr comment)])"

text \<open>
  The part both functions share: recording without an adapter call, or calling the adapter and recording
  its answer or its exception.
\<close>

definition record_provider_outcome :: "(pyfloat \<Rightarrow> string) \<Rightarrow> int \<Rightarrow> config \<Rightarrow> adapter option \<Rightarrow> provider_call
    \<Rightarrow> string \<Rightarrow> string \<Rightarrow> string \<Rightarrow> string option \<Rightarrow> orch_db \<Rightarrow> provider_call list \<times> orch_db" where
  "record_provider_outcome fr now cf adapter call key from_role final_status next_role db =
     (let record = record_transition now key from_role final_status next_role in
      if \<not> cf_apply_transitions cf then ([], record False (Some (disabled_result fr (pc_comment call))) None db)
      else (case adapter of
          None \<Rightarrow> ([], record False None (Some ''provider transition adapter unavailable'') db)
        | Some apply \<Rightarrow>
            (case apply call of
               Inl e \<Rightarrow> ([call], record False None (Some (exn_text e)) db)
             | Inr res \<Rightarrow> ([call], record (pt_applied res) (Some (dumps_spaced fr (JObj (pt_details res)))) None db))))"

definition apply_transition :: "(pyfloat \<Rightarrow> string) \<Rightarrow> int \<Rightarrow> work_item \<Rightarrow> final_response \<Rightarrow> config \<Rightarrow> adapter option
    \<Rightarrow> orch_db \<Rightarrow> provider_call list \<times> orch_db" where
  "apply_transition fr now item r cf adapter db =
     (case resolve_transition (fr_role r) (fr_final_status r) of
        None \<Rightarrow> ([], db)
      | Some spec \<Rightarrow>
          let comment = render_comment spec r;
              call = \<lparr>pc_item = item,
                pc_add_labels = (if cf_transition_comment_only cf then {} else tr_add spec),
                pc_remove_labels = (if cf_transition_comment_only cf then {} else tr_remove spec),
                pc_comment = comment,
                pc_idempotency_key = ''transition:'' @ fr_assignment_key r @ '':'' @ status_value (fr_final_status r)\<rparr>
          in record_provider_outcome fr now cf adapter call (fr_assignment_key r) (fr_role r)
               (status_value (fr_final_status r)) (tr_next_role spec) db)"

definition apply_failure_transition :: "(pyfloat \<Rightarrow> string) \<Rightarrow> int \<Rightarrow> work_item \<Rightarrow> string \<Rightarrow> string \<Rightarrow> string \<Rightarrow> string
    \<Rightarrow> config \<Rightarrow> adapter option \<Rightarrow> orch_db \<Rightarrow> provider_call list \<times> orch_db" where
  "apply_failure_transition fr now item key role failure_status summary cf adapter db =
     (let comment = render_failure_comment key failure_status summary;
          call = \<lparr>pc_item = item,
            pc_add_labels = (if cf_transition_comment_only cf then {} else {''hermes:blocked''}),
            pc_remove_labels = {}, pc_comment = comment,
            pc_idempotency_key = ''transition:'' @ key @ '':'' @ failure_status\<rparr>
      in record_provider_outcome fr now cf adapter call key role failure_status None db)"

section \<open>Facts\<close>

text \<open>Outside the database at most one request is made; inside it at most one row is added to the transitions.\<close>

lemma record_provider_outcome_db:
  "\<exists>applied res err. snd (record_provider_outcome fr now cf adapter call key from st nr db) =
     record_transition now key from st nr applied res err db"
  unfolding record_provider_outcome_def Let_def
  by (auto split: option.split sum.split)

lemma record_provider_outcome_calls:
  "fst (record_provider_outcome fr now cf adapter call key from st nr db) =
     (if cf_apply_transitions cf \<and> adapter \<noteq> None then [call] else [])"
  by (auto simp: record_provider_outcome_def Let_def split: option.split sum.split)

lemma apply_failure_db:
  "\<exists>applied res err. snd (apply_failure_transition fr now item key role st sm cf adapter db) =
     record_transition now key role st None applied res err db"
  by (simp add: apply_failure_transition_def Let_def record_provider_outcome_db)

lemma apply_transition_db:
  "snd (apply_transition fr now item r cf adapter db) = db \<or>
   (\<exists>nr applied res err. snd (apply_transition fr now item r cf adapter db) =
     record_transition now (fr_assignment_key r) (fr_role r) (status_value (fr_final_status r)) nr applied res err db)"
proof (cases "resolve_transition (fr_role r) (fr_final_status r)")
  case None
  then show ?thesis by (simp add: apply_transition_def)
next
  case (Some spec)
  show ?thesis
    unfolding apply_transition_def Some Let_def option.case
    by (rule disjI2, rule exI [of _ "tr_next_role spec"], rule record_provider_outcome_db)
qed

end
