(* ===== verification/Reconciler.thy ===== *)
theory Reconciler
  imports Transitions Repair
begin

text \<open>
  \<open>reconciler.py\<close>: one pass over the active runs. Each run is looked up at the gateway and
  finished, requeued or left alone; the outcome is written to the database and announced through the provider
  adapter. The gateway client, the adapter and the clock belong to the environment of the pass.
\<close>

section \<open>The environment of a pass\<close>

record repair_call =
  rq_model :: string
  rq_session_id :: string
  rq_prompt :: string
  rq_idempotency_key :: string
  rq_timeout_seconds :: int

text \<open>
  \<open>get_run\<close> and the model repair are methods of the client: what the gateway answers for a run id, and
  for a repair request. \<open>ev_clock\<close> is the time at which a run is handled; \<open>CURRENT_TIMESTAMP\<close> has whole
  seconds. \<open>ev_time_text\<close> is the text SQLite stores for a time, \<open>ev_py_str\<close> is \<open>str\<close> on values that
  are neither text nor integers.
\<close>

record recon_env =
  ev_get_run :: "string \<Rightarrow> json result"
  ev_model_repair :: "repair_call \<Rightarrow> pydict result"
  ev_adapter :: "adapter option"
  ev_clock :: "string \<Rightarrow> rat"
  ev_time_text :: "int \<Rightarrow> string"
  ev_loads :: "string \<Rightarrow> json option"
  ev_float_repr :: "pyfloat \<Rightarrow> string"
  ev_py_str :: "json \<Rightarrow> string"
  ev_sha :: "string \<Rightarrow> string"

text \<open>The counters of the summary.\<close>

record recon_summary =
  rs_active :: nat
  rs_completed :: nat
  rs_failed :: nat
  rs_cancelled :: nat
  rs_timeout :: nat
  rs_invalid_output :: nat
  rs_lost :: nat
  rs_requeued :: nat
  rs_blocked_config :: nat
  rs_failed_final :: nat
  rs_repaired_output :: nat
  rs_repair_failed :: nat
  rs_model_repair_attempted :: nat

definition empty_summary :: recon_summary where
  "empty_summary = \<lparr>rs_active = 0, rs_completed = 0, rs_failed = 0, rs_cancelled = 0, rs_timeout = 0,
     rs_invalid_output = 0, rs_lost = 0, rs_requeued = 0, rs_blocked_config = 0, rs_failed_final = 0,
     rs_repaired_output = 0, rs_repair_failed = 0, rs_model_repair_attempted = 0\<rparr>"

section \<open>Reading the answer of the gateway\<close>

definition completed_states :: "string list" where
  "completed_states = [''completed'', ''succeeded'', ''success'', ''done'']"

definition failed_states :: "string list" where
  "failed_states = [''failed'', ''error'']"

definition cancelled_states :: "string list" where
  "cancelled_states = [''cancelled'', ''canceled'']"

definition timeout_states :: "string list" where
  "timeout_states = [''timeout'', ''timed_out'']"

definition forbidden_reasoning_keys :: "string list" where
  "forbidden_reasoning_keys = [''chain_of_thought'', ''chainOfThought'', ''cot'', ''reasoning_trace'',
     ''reasoning_steps'', ''private_reasoning'', ''internal_monologue'']"

fun scrub :: "json \<Rightarrow> json" where
  "scrub (JObj d) = JObj (map (\<lambda>kv. (fst kv, scrub (snd kv))) (filter (\<lambda>kv. fst kv \<notin> set forbidden_reasoning_keys) d))"
| "scrub (JArr xs) = JArr (map scrub xs)"
| "scrub v = v"

definition scrub_dict :: "pydict \<Rightarrow> pydict" where
  "scrub_dict d = (case scrub (JObj d) of JObj e \<Rightarrow> e | _ \<Rightarrow> [])"

text \<open>\<open>str(payload.get(''status'') or payload.get(''state'') or '''').lower()\<close>.\<close>

definition run_status_text :: "(json \<Rightarrow> string) \<Rightarrow> pydict \<Rightarrow> string" where
  "run_status_text py_str payload =
     py_lower (if truthy (dict_get payload ''status'') then json_str py_str (dict_get payload ''status'')
               else if truthy (dict_get payload ''state'') then json_str py_str (dict_get payload ''state'') else [])"

definition timed_out :: "rat \<Rightarrow> int \<Rightarrow> int \<Rightarrow> bool" where
  "timed_out now started_at timeout_seconds \<longleftrightarrow> of_int timeout_seconds < now - of_int started_at"

definition assignment_matches_current_revision :: "string \<Rightarrow> string \<Rightarrow> bool" where
  "assignment_matches_current_revision key current \<longleftrightarrow> after_last_colon key = current"

fun first_error_text :: "(pyfloat \<Rightarrow> string) \<Rightarrow> json list \<Rightarrow> string option" where
  "first_error_text fr [] = None"
| "first_error_text fr (JStr s # cs) = (if py_strip s \<noteq> [] then Some (py_strip s) else first_error_text fr cs)"
| "first_error_text fr (JObj d # cs) = Some (dumps_spaced fr (scrub (JObj d)))"
| "first_error_text fr (_ # cs) = first_error_text fr cs"

definition error_text :: "(pyfloat \<Rightarrow> string) \<Rightarrow> pydict \<Rightarrow> string" where
  "error_text fr payload =
     (case first_error_text fr [dict_get payload ''error'', dict_get payload ''message'', dict_get payload ''detail'',
          dict_get payload ''output''] of
        Some t \<Rightarrow> t | None \<Rightarrow> dumps_spaced fr (scrub (JObj payload)))"

definition is_config_error :: "(pyfloat \<Rightarrow> string) \<Rightarrow> pydict \<Rightarrow> bool" where
  "is_config_error fr payload = list_ex (\<lambda>p. contains_str p (py_lower (error_text fr payload)))
     [''invalid_api_key'', ''incorrect api key'', ''invalid api-key'', ''authenticationerror'', ''unauthorized'',
      ''http 401'', ''api key was rejected'', ''no nous authentication'']"

definition is_transient_error :: "(pyfloat \<Rightarrow> string) \<Rightarrow> pydict \<Rightarrow> bool" where
  "is_transient_error fr payload = list_ex (\<lambda>p. contains_str p (py_lower (error_text fr payload)))
     [''http 408'', ''http 409'', ''http 425'', ''http 429'', ''http 500'', ''http 502'', ''http 503'', ''http 504'',
      ''rate limit'', ''timeout'', ''temporarily unavailable'', ''overloaded'', ''connection reset'', ''connection aborted'']"

definition has_attempts_remaining :: "run_view \<Rightarrow> config \<Rightarrow> bool" where
  "has_attempts_remaining run cf \<longleftrightarrow> int (rv_attempt_number run) < cf_max_attempts_per_assignment cf"

definition retry_timestamp :: "rat \<Rightarrow> int \<Rightarrow> int option" where
  "retry_timestamp now delay = (if delay \<le> 0 then None else Some \<lfloor>now + of_int delay\<rfloor>)"

definition concise_error :: "string \<Rightarrow> string" where
  "concise_error text = take 500 (join_str '' '' (split_ws text))"

section \<open>The final response of a completed run\<close>

text \<open>\<open>repair_info\<close>, and what \<open>_parse_or_repair_final_response\<close> returns.\<close>

record repair_info =
  ri_method :: "string option"
  ri_diagnostics :: "string list"

record parsed_output =
  po_response :: "final_response option"
  po_payload :: pydict
  po_info :: repair_info
  po_error :: "string option"

definition accepted :: "final_response \<Rightarrow> pydict \<Rightarrow> string option \<Rightarrow> string list \<Rightarrow> parsed_output" where
  "accepted r payload method diagnostics = \<lparr>po_response = Some r, po_payload = payload,
     po_info = \<lparr>ri_method = method, ri_diagnostics = diagnostics\<rparr>, po_error = None\<rparr>"

definition model_repair_call :: "recon_env \<Rightarrow> config \<Rightarrow> run_view \<Rightarrow> pydict \<Rightarrow> string \<Rightarrow> repair_call" where
  "model_repair_call ev cf run payload original_error = \<lparr>rq_model = cf_repair_model cf,
     rq_session_id = ''repair:'' @ (case rv_session_id run of Some s \<Rightarrow> (if s \<noteq> [] then s else rv_key run) | None \<Rightarrow> rv_key run),
     rq_prompt = build_model_repair_prompt (ev_float_repr ev) (scrub_dict payload) original_error (cf_repair_max_chars cf),
     rq_idempotency_key = ''repair:'' @ rv_key run @ '':'' @ rv_run_id run,
     rq_timeout_seconds = cf_repair_timeout_seconds cf\<rparr>"

text \<open>The last stage: every exception becomes a diagnostic.\<close>

definition model_repair :: "recon_env \<Rightarrow> config \<Rightarrow> run_view \<Rightarrow> pydict \<Rightarrow> string \<Rightarrow> string list \<Rightarrow> recon_summary
    \<Rightarrow> parsed_output \<times> recon_summary" where
  "model_repair ev cf run payload original_error diagnostics summary =
     (let rejected = (\<lambda>ds. \<lparr>po_response = None, po_payload = payload,
            po_info = \<lparr>ri_method = None, ri_diagnostics = ds\<rparr>, po_error = Some original_error\<rparr>)
      in if \<not> (cf_repair_enabled cf \<and> cf_model_repair_enabled cf) then (rejected diagnostics, summary)
      else let s1 = summary\<lparr>rs_model_repair_attempted := rs_model_repair_attempted summary + 1\<rparr> in
        (case ev_model_repair ev (model_repair_call ev cf run payload original_error) of
           Inl e \<Rightarrow> (rejected (diagnostics @ [''model repair failed: '' @ exn_text e]), s1)
         | Inr model_payload \<Rightarrow>
             let repair = deterministic_repair_payload (ev_loads ev) (cf_repair_max_chars cf) model_payload;
                 ds = diagnostics @ map (\<lambda>d. ''model: '' @ d) (rr_diagnostics repair)
             in (case parse_final_response (ev_loads ev) (rv_role run) (rv_key run) (rr_payload repair) of
                   Inl e \<Rightarrow> (rejected (ds @ [''model repair failed: '' @ exn_text e]), s1)
                 | Inr r \<Rightarrow> (accepted r (rr_payload repair) (Some ''model'') ds,
                             s1\<lparr>rs_repaired_output := rs_repaired_output s1 + 1\<rparr>))))"

definition parse_or_repair :: "recon_env \<Rightarrow> config \<Rightarrow> run_view \<Rightarrow> pydict \<Rightarrow> recon_summary
    \<Rightarrow> (parsed_output \<times> recon_summary) result" where
  "parse_or_repair ev cf run payload summary =
     (let parse = parse_final_response (ev_loads ev) (rv_role run) (rv_key run)
      in (case parse payload of
            Inr r \<Rightarrow> Inr (accepted r payload None [], summary)
          | Inl (FinalResponseError original_error) \<Rightarrow>
              if \<not> cf_repair_enabled cf then Inr (model_repair ev cf run payload original_error [] summary)
              else
                let repair = deterministic_repair_payload (ev_loads ev) (cf_repair_max_chars cf) payload in
                if \<not> rr_repaired repair
                then Inr (model_repair ev cf run payload original_error (rr_diagnostics repair) summary)
                else (case parse (rr_payload repair) of
                    Inr r \<Rightarrow> Inr (accepted r (rr_payload repair) (Some (rr_method repair)) (rr_diagnostics repair),
                                  summary\<lparr>rs_repaired_output := rs_repaired_output summary + 1\<rparr>)
                  | Inl (FinalResponseError m) \<Rightarrow>
                      Inr (model_repair ev cf run payload original_error
                        (rr_diagnostics repair @ [''deterministic parse failed: '' @ m]) summary)
                  | Inl e \<Rightarrow> Inl e)
          | Inl e \<Rightarrow> Inl e))"

definition canonical_completion_payload :: "recon_env \<Rightarrow> pydict \<Rightarrow> final_response \<Rightarrow> pydict result" where
  "canonical_completion_payload ev payload r =
     (let safe = scrub_dict payload in
      (case ev_loads ev (to_json_text (ev_float_repr ev) r) of
         None \<Rightarrow> Inl (ValueError ''JSONDecodeError'')
       | Some canonical \<Rightarrow>
           (case find (\<lambda>k. dict_has safe k) final_response_keys of
              Some key \<Rightarrow> Inr (dict_set safe key canonical)
            | None \<Rightarrow> Inr (dict_set safe ''final_response'' canonical))))"

definition raw_with_repair_info :: "recon_env \<Rightarrow> pydict \<Rightarrow> repair_info \<Rightarrow> string" where
  "raw_with_repair_info ev payload info =
     (case ri_method info of
        None \<Rightarrow> dumps_spaced (ev_float_repr ev) (scrub (JObj payload))
      | Some m \<Rightarrow> dumps_spaced (ev_float_repr ev) (JObj (dict_set (scrub_dict payload) ''final_response_repair''
          (JObj [(''method'', JStr m), (''diagnostics'', JArr (map JStr (ri_diagnostics info)))]))))"

section \<open>One run\<close>

text \<open>
  What a pass does outside the database: requests to the provider, and the report of a completed run to
  the workspace (\<open>maybe_record_self_evolution_result\<close>, which never raises).
\<close>

datatype effect =
    ProviderRequest provider_call
  | EvolutionReport work_item final_response

type_synonym recon_state = "recon_summary \<times> effect list \<times> orch_db"

definition run_now :: "recon_env \<Rightarrow> run_view \<Rightarrow> int" where
  "run_now ev run = \<lfloor>ev_clock ev (rv_run_id run)\<rfloor>"

definition run_item :: "run_view \<Rightarrow> work_item" where
  "run_item run = row_to_work_item (rv_item run)"

text \<open>\<open>mark_run_finished\<close> followed by \<open>apply_failure_transition\<close>.\<close>

definition finish_failed :: "recon_env \<Rightarrow> config \<Rightarrow> run_view \<Rightarrow> run_outcome \<Rightarrow> string \<Rightarrow> string
    \<Rightarrow> effect list \<times> orch_db \<Rightarrow> effect list \<times> orch_db" where
  "finish_failed ev cf run oc failure_status text = (\<lambda>(effects, db).
     (case apply_failure_transition (ev_float_repr ev) (run_now ev run) (run_item run) (rv_key run) (rv_role run)
             failure_status text cf (ev_adapter ev) (mark_run_finished (run_now ev run) (rv_key run) oc db) of
        (calls, db') \<Rightarrow> (effects @ map ProviderRequest calls, db')))"

text \<open>Requeueing: the run is finished, the assignment pending again, and the transition recorded.\<close>

definition finish_requeued :: "recon_env \<Rightarrow> config \<Rightarrow> run_view \<Rightarrow> run_outcome \<Rightarrow> string
    \<Rightarrow> effect list \<times> orch_db \<Rightarrow> effect list \<times> orch_db" where
  "finish_requeued ev cf run oc final_status = (\<lambda>(effects, db).
     (effects, record_transition (run_now ev run) (rv_key run) (rv_role run) final_status None False
        (Some (dumps_spaced (ev_float_repr ev) (JObj [(''mode'', JStr ''local-requeue'')]))) None
        (mark_run_finished (run_now ev run) (rv_key run)
          (oc\<lparr>oc_assignment_status := Some ''PENDING'',
             oc_next_retry_at := retry_timestamp (ev_clock ev (rv_run_id run)) (cf_retry_delay_seconds cf)\<rparr>) db)))"

definition lost_run :: "recon_env \<Rightarrow> config \<Rightarrow> run_view \<Rightarrow> string \<Rightarrow> recon_state \<Rightarrow> recon_state" where
  "lost_run ev cf run message = (\<lambda>(summary, st).
     (let raw = dumps_spaced (ev_float_repr ev) (JObj [(''status'', JStr ''lost''),
            (''run_id'', JStr (rv_run_id run)), (''error'', JStr message)])
      in if cf_retry_lost_runs cf \<and> has_attempts_remaining run cf then
           (summary\<lparr>rs_lost := rs_lost summary + 1, rs_requeued := rs_requeued summary + 1\<rparr>,
            finish_requeued ev cf run
              ((finish_with ''LOST'' None raw)\<lparr>oc_error := Some ''Hermes run disappeared from gateway runtime; requeued locally''\<rparr>)
              ''LOST_REQUEUED'' st)
         else
           (summary\<lparr>rs_lost := rs_lost summary + 1, rs_failed_final := rs_failed_final summary + 1\<rparr>,
            finish_failed ev cf run
              ((finish_with ''LOST'' None raw)\<lparr>oc_assignment_status := Some ''FAILED_FINAL'',
                 oc_error := Some (''Hermes run disappeared from gateway runtime; likely container restart/recreate '' @
                   ''while SQLite persisted ACTIVE run'')\<rparr>)
              ''LOST'' (''Hermes run was not found in the gateway runtime; marked lost locally '' @
                ''so reconciliation can continue'') st)))"

text \<open>A completed run whose response was not accepted.\<close>

definition invalid_output :: "recon_env \<Rightarrow> config \<Rightarrow> run_view \<Rightarrow> string \<Rightarrow> parsed_output \<Rightarrow> recon_state \<Rightarrow> recon_state" where
  "invalid_output ev cf run raw out = (\<lambda>(summary, st).
     (let error = (case po_error out of Some e \<Rightarrow> (if e \<noteq> [] then e else ''final response repair failed'')
            | None \<Rightarrow> ''final response repair failed'');
          ds = ri_diagnostics (po_info out);
          error = (if ds \<noteq> [] then error @ ''; repair diagnostics: '' @ join_str ''; '' ds else error)
      in (summary\<lparr>rs_invalid_output := rs_invalid_output summary + 1,
             rs_repair_failed := rs_repair_failed summary + (if ds \<noteq> [] then 1 else 0)\<rparr>,
          finish_failed ev cf run
            ((finish_with ''INVALID_OUTPUT'' None raw)\<lparr>oc_assignment_status := Some ''FAILED_FINAL'', oc_error := Some error\<rparr>)
            ''INVALID_OUTPUT'' error st)))"

definition completed_run :: "recon_env \<Rightarrow> config \<Rightarrow> run_view \<Rightarrow> pydict \<Rightarrow> string \<Rightarrow> recon_state \<Rightarrow> recon_state result" where
  "completed_run ev cf run payload raw = (\<lambda>(summary, effects, db).
     result_bind (parse_or_repair ev cf run payload summary) (\<lambda>(out, s).
     (case po_response out of
        None \<Rightarrow> Inr (invalid_output ev cf run raw out (s, effects, db))
      | Some r \<Rightarrow>
          result_bind (canonical_completion_payload ev (po_payload out) r) (\<lambda>completion_payload.
          let completion_raw = raw_with_repair_info ev completion_payload (po_info out);
              finished = (finish_with ''COMPLETED'' (Some (status_value (fr_final_status r))) completion_raw)
                \<lparr>oc_final_response_json := Some (to_json_text (ev_float_repr ev) r)\<rparr>
          in if \<not> assignment_matches_current_revision (rv_key run) (revision_key (ev_sha ev) (run_item run)) then
               Inr (s\<lparr>rs_invalid_output := rs_invalid_output s + 1\<rparr>,
                 finish_failed ev cf run
                   (finished\<lparr>oc_run_status := ''STALE_OUTPUT'', oc_assignment_status := Some ''FAILED_FINAL'',
                      oc_error := Some ''Work item revision changed while run was active''\<rparr>)
                   ''STALE_OUTPUT''
                   ''Work item revision changed while run was active; normal downstream transition was not applied''
                   (effects, db))
             else
               (case apply_transition (ev_float_repr ev) (run_now ev run) (run_item run) r cf (ev_adapter ev)
                       (mark_run_finished (run_now ev run) (rv_key run)
                         (finished\<lparr>oc_assignment_status := Some ''COMPLETED''\<rparr>) db) of
                  (calls, db') \<Rightarrow>
                    Inr (s\<lparr>rs_completed := rs_completed s + 1\<rparr>,
                      effects @ EvolutionReport (run_item run) r # map ProviderRequest calls, db'))))))"

definition failed_run :: "recon_env \<Rightarrow> config \<Rightarrow> run_view \<Rightarrow> pydict \<Rightarrow> string \<Rightarrow> recon_state \<Rightarrow> recon_state" where
  "failed_run ev cf run payload raw = (\<lambda>(summary, st).
     (let text = error_text (ev_float_repr ev) payload;
          failed = (finish_with ''FAILED'' None raw)\<lparr>oc_error := Some text\<rparr>;
          summary = summary\<lparr>rs_failed := rs_failed summary + 1\<rparr>
      in if is_config_error (ev_float_repr ev) payload then
           (summary\<lparr>rs_blocked_config := rs_blocked_config summary + 1\<rparr>,
            finish_failed ev cf run
              (failed\<lparr>oc_assignment_status := Some ''BLOCKED_CONFIG'', oc_blocked_reason := Some (concise_error text),
                 oc_last_error_code := Some ''CONFIG_AUTH''\<rparr>)
              ''BLOCKED_CONFIG'' (concise_error text) st)
         else if cf_retry_transient_failures cf \<and> is_transient_error (ev_float_repr ev) payload \<and> has_attempts_remaining run cf then
           (summary\<lparr>rs_requeued := rs_requeued summary + 1\<rparr>, finish_requeued ev cf run failed ''FAILED_REQUEUED'' st)
         else
           (summary\<lparr>rs_failed_final := rs_failed_final summary + 1\<rparr>,
            finish_failed ev cf run (failed\<lparr>oc_assignment_status := Some ''FAILED_FINAL''\<rparr>)
              ''FAILED_FINAL'' (concise_error text) st)))"

text \<open>Both kinds of timeout.\<close>

definition timeout_run :: "recon_env \<Rightarrow> config \<Rightarrow> run_view \<Rightarrow> string \<Rightarrow> string \<Rightarrow> recon_state \<Rightarrow> recon_state" where
  "timeout_run ev cf run raw message = (\<lambda>(summary, st).
     (summary\<lparr>rs_timeout := rs_timeout summary + 1\<rparr>,
      finish_failed ev cf run
        ((finish_with ''TIMEOUT'' (Some ''BLOCKED'') raw)\<lparr>oc_assignment_status := Some ''TIMEOUT'',
           oc_error := Some message, oc_timed_out := True\<rparr>)
        ''TIMEOUT'' message st))"

definition reconcile_run :: "recon_env \<Rightarrow> config \<Rightarrow> run_view \<Rightarrow> recon_state \<Rightarrow> recon_state result" where
  "reconcile_run ev cf run = (\<lambda>(summary0, effects, db).
     (let summary = summary0\<lparr>rs_active := rs_active summary0 + 1\<rparr>; st = (summary, effects, db)
      in if timed_out (ev_clock ev (rv_run_id run)) (rv_started_at run) (cf_run_timeout_seconds cf) then
           Inr (timeout_run ev cf run
             (dumps_spaced (ev_float_repr ev) (JObj [(''status'', JStr ''timeout''),
                (''started_at'', JStr (ev_time_text ev (rv_started_at run)))]))
             ''Run exceeded ORCHESTRATOR_RUN_TIMEOUT_SECONDS'' st)
         else (case ev_get_run ev (rv_run_id run) of
             Inl (HermesRunNotFound message) \<Rightarrow> Inr (lost_run ev cf run message st)
           | Inl e \<Rightarrow> Inl e
           | Inr (JObj payload) \<Rightarrow>
               (let status = run_status_text (ev_py_str ev) payload;
                    raw = dumps_spaced (ev_float_repr ev) (scrub (JObj payload))
                in if status \<in> set completed_states then completed_run ev cf run payload raw st
                   else if status \<in> set failed_states then Inr (failed_run ev cf run payload raw st)
                   else if status \<in> set cancelled_states then
                     Inr (summary\<lparr>rs_cancelled := rs_cancelled summary + 1\<rparr>, effects,
                       mark_run_finished (run_now ev run) (rv_key run)
                         ((finish_with ''CANCELLED'' None raw)\<lparr>oc_assignment_status := Some ''CANCELLED''\<rparr>) db)
                   else if status \<in> set timeout_states then
                     Inr (timeout_run ev cf run raw ''Hermes run reported timeout'' st)
                   else Inr st)
           | Inr _ \<Rightarrow> Inl (AttributeError ''get''))))"

section \<open>The pass\<close>

fun reconcile_runs :: "recon_env \<Rightarrow> config \<Rightarrow> run_view list \<Rightarrow> recon_state \<Rightarrow> recon_state result" where
  "reconcile_runs ev cf [] st = Inr st"
| "reconcile_runs ev cf (run # runs) st = result_bind (reconcile_run ev cf run st) (reconcile_runs ev cf runs)"

definition reconcile :: "recon_env \<Rightarrow> config \<Rightarrow> orch_db \<Rightarrow> recon_state result" where
  "reconcile ev cf db = reconcile_runs ev cf (active_runs db) (empty_summary, [], db)"

end
