(* ===== verification/ReconcileFacts.thy ===== *)
theory ReconcileFacts
  imports Reconciler OrchRuns
begin

text \<open>
  What a pass of the reconciler does to the database. Every run it handles is left alone or finished once by
  an outcome that is justified by the gateway's answer; from this follow the conditions under which a run is
  recorded as completed, the absence of reasoning fields in the stored answers, the bound on automatic
  retries, and that the pass is a sequence of the operations of the database.
\<close>

section \<open>Scrubbing\<close>

text \<open>No forbidden key at any depth.\<close>

fun clean :: "json \<Rightarrow> bool" where
  "clean (JObj d) = (\<forall>kv\<in>set d. fst kv \<notin> set forbidden_reasoning_keys \<and> clean (snd kv))"
| "clean (JArr xs) = (\<forall>x\<in>set xs. clean x)"
| "clean _ = True"

lemma clean_scrub [simp]: "clean (scrub v)"
proof (induction v)
  case (JObj d)
  then show ?case by (auto intro: snds.intros)
qed auto

lemma scrub_id: "clean v \<Longrightarrow> scrub v = v"
proof (induction v)
  case (JArr xs)
  then show ?case by (simp add: map_idI)
next
  case (JObj d)
  have "filter (\<lambda>kv. fst kv \<notin> set forbidden_reasoning_keys) d = d"
    using JObj.prems by (auto simp: filter_id_conv)
  moreover have "map (\<lambda>kv. (fst kv, scrub (snd kv))) d = d"
    using JObj by (intro map_idI) (auto simp: prod_eq_iff intro: snds.intros)
  ultimately show ?case by simp
qed simp_all

lemma JObj_scrub_dict: "JObj (scrub_dict d) = scrub (JObj d)"
  by (simp add: scrub_dict_def)

lemma clean_dict_set:
  assumes "clean (JObj d)" "clean v" "k \<notin> set forbidden_reasoning_keys"
  shows "clean (JObj (dict_set d k v))"
  using assms by (auto dest!: snd_dict_set)

lemma raw_with_repair_info_clean:
  "\<exists>v. raw_with_repair_info ev payload info = dumps_spaced (ev_float_repr ev) v \<and> clean v"
proof (cases "ri_method info")
  case None
  then show ?thesis by (auto simp: raw_with_repair_info_def simp del: dumps_spaced.simps scrub.simps)
next
  case (Some m)
  let ?v = "JObj (dict_set (scrub_dict payload) ''final_response_repair''
      (JObj [(''method'', JStr m), (''diagnostics'', JArr (map JStr (ri_diagnostics info)))]))"
  have "clean (JObj (scrub_dict payload))" unfolding JObj_scrub_dict by (rule clean_scrub)
  then have "clean ?v" by (rule clean_dict_set) (auto simp: forbidden_reasoning_keys_def)
  then show ?thesis using Some by (auto simp: raw_with_repair_info_def simp del: dumps_spaced.simps)
qed

section \<open>Justified outcomes\<close>

definition valid_completion :: "recon_env \<Rightarrow> run_view \<Rightarrow> run_outcome \<Rightarrow> bool" where
  "valid_completion ev run oc \<longleftrightarrow> (\<exists>payload r ss.
     ev_get_run ev (rv_run_id run) = Inr (JObj payload) \<and>
     run_status_text (ev_py_str ev) payload \<in> set completed_states \<and>
     fr_role r = rv_role run \<and> fr_assignment_key r = rv_key run \<and>
     map_of role_final_statuses (rv_role run) = Some ss \<and> fr_final_status r \<in> set ss \<and>
     assignment_matches_current_revision (rv_key run) (revision_key (ev_sha ev) (run_item run)) \<and>
     oc_final_status oc = Some (status_value (fr_final_status r)) \<and>
     oc_final_response_json oc = Some (to_json_text (ev_float_repr ev) r))"

definition justified :: "recon_env \<Rightarrow> config \<Rightarrow> run_view \<Rightarrow> run_outcome \<Rightarrow> bool" where
  "justified ev cf run oc \<longleftrightarrow>
     oc_run_status oc \<in> {''TIMEOUT'', ''LOST'', ''INVALID_OUTPUT'', ''STALE_OUTPUT'', ''FAILED'', ''CANCELLED'', ''COMPLETED''} \<and>
     outcome_assignment_status oc \<in> {''COMPLETED'', ''PENDING'', ''FAILED_FINAL'', ''BLOCKED_CONFIG'', ''TIMEOUT'', ''CANCELLED''} \<and>
     (\<exists>v. oc_raw_status oc = dumps_spaced (ev_float_repr ev) v \<and> clean v) \<and>
     (oc_run_status oc = ''COMPLETED'' \<longleftrightarrow> outcome_assignment_status oc = ''COMPLETED'') \<and>
     (oc_run_status oc = ''COMPLETED'' \<longrightarrow> valid_completion ev run oc) \<and>
     (outcome_assignment_status oc = ''PENDING'' \<longrightarrow> has_attempts_remaining run cf)"

definition finished_by :: "recon_env \<Rightarrow> run_view \<Rightarrow> run_outcome \<Rightarrow> orch_db \<Rightarrow> orch_db \<Rightarrow> bool" where
  "finished_by ev run oc db db' \<longleftrightarrow>
     db' = mark_run_finished (run_now ev run) (rv_key run) oc db \<or>
     (\<exists>key from st nr applied res err.
        db' = record_transition (run_now ev run) key from st nr applied res err
                (mark_run_finished (run_now ev run) (rv_key run) oc db))"

text \<open>The gateway has an answer that ends the run, or the run is too old, or it is gone.\<close>

definition settled :: "recon_env \<Rightarrow> config \<Rightarrow> run_view \<Rightarrow> bool" where
  "settled ev cf run \<longleftrightarrow>
     timed_out (ev_clock ev (rv_run_id run)) (rv_started_at run) (cf_run_timeout_seconds cf) \<or>
     (case ev_get_run ev (rv_run_id run) of
        Inl (HermesRunNotFound _) \<Rightarrow> True
      | Inr (JObj payload) \<Rightarrow> run_status_text (ev_py_str ev) payload
          \<in> set completed_states \<union> set failed_states \<union> set cancelled_states \<union> set timeout_states
      | _ \<Rightarrow> False)"

abbreviation outcome_found :: "recon_env \<Rightarrow> config \<Rightarrow> run_view \<Rightarrow> orch_db \<Rightarrow> orch_db \<Rightarrow> bool" where
  "outcome_found ev cf run db db' \<equiv> \<exists>oc. justified ev cf run oc \<and> finished_by ev run oc db db'"

lemma finish_failed_by: "finished_by ev run oc db (snd (finish_failed ev cf run oc st tx (effs, db)))"
  using apply_failure_db [of "ev_float_repr ev" "run_now ev run" "run_item run" "rv_key run" "rv_role run" st tx cf
      "ev_adapter ev" "mark_run_finished (run_now ev run) (rv_key run) oc db"]
  unfolding finished_by_def finish_failed_def prod.case
  by (simp add: case_prod_unfold) blast

lemma finish_requeued_by:
  "finished_by ev run (oc\<lparr>oc_assignment_status := Some ''PENDING'',
     oc_next_retry_at := retry_timestamp (ev_clock ev (rv_run_id run)) (cf_retry_delay_seconds cf)\<rparr>) db
     (snd (finish_requeued ev cf run oc st (effs, db)))"
  unfolding finished_by_def finish_requeued_def prod.case snd_conv by blast

lemmas outcome_simps = finish_with_def outcome_assignment_status_def justified_def

lemma timeout_run_found:
  assumes "raw = dumps_spaced (ev_float_repr ev) v" "clean v"
  shows "outcome_found ev cf run db (snd (snd (timeout_run ev cf run raw tx (s, effs, db))))"
  unfolding timeout_run_def prod.case snd_conv
  by (rule exI, rule conjI [OF _ finish_failed_by]) (use assms in \<open>auto simp: outcome_simps\<close>)

lemma lost_run_found: "outcome_found ev cf run db (snd (snd (lost_run ev cf run text (s, effs, db))))"
proof -
  let ?v = "JObj [(''status'', JStr ''lost''), (''run_id'', JStr (rv_run_id run)), (''error'', JStr text)]"
  have v: "clean ?v" by (simp add: forbidden_reasoning_keys_def)
  show ?thesis
  proof (cases "cf_retry_lost_runs cf \<and> has_attempts_remaining run cf")
    case True
    show ?thesis
      unfolding lost_run_def prod.case Let_def if_P [OF True] snd_conv
      by (rule exI, rule conjI [OF _ finish_requeued_by])
         (use v True in \<open>auto simp: outcome_simps simp del: dumps_spaced.simps clean.simps\<close>)
  next
    case False
    show ?thesis
      unfolding lost_run_def prod.case Let_def if_not_P [OF False] snd_conv
      by (rule exI, rule conjI [OF _ finish_failed_by])
         (use v in \<open>auto simp: outcome_simps simp del: dumps_spaced.simps clean.simps\<close>)
  qed
qed

lemma failed_run_found:
  assumes "raw = dumps_spaced (ev_float_repr ev) v" "clean v"
  shows "outcome_found ev cf run db (snd (snd (failed_run ev cf run payload raw (s, effs, db))))"
proof -
  let ?t = "cf_retry_transient_failures cf \<and> is_transient_error (ev_float_repr ev) payload \<and> has_attempts_remaining run cf"
  consider "is_config_error (ev_float_repr ev) payload"
    | "\<not> is_config_error (ev_float_repr ev) payload" "?t"
    | "\<not> is_config_error (ev_float_repr ev) payload" "\<not> ?t" by blast
  then show ?thesis
  proof cases
    case 1
    show ?thesis
      unfolding failed_run_def prod.case Let_def if_P [OF 1] snd_conv
      by (rule exI, rule conjI [OF _ finish_failed_by]) (use assms in \<open>auto simp: outcome_simps\<close>)
  next
    case 2
    show ?thesis
      unfolding failed_run_def prod.case Let_def if_not_P [OF 2(1)] if_P [OF 2(2)] snd_conv
      by (rule exI, rule conjI [OF _ finish_requeued_by]) (use assms 2 in \<open>auto simp: outcome_simps\<close>)
  next
    case 3
    show ?thesis
      unfolding failed_run_def prod.case Let_def if_not_P [OF 3(1)] if_not_P [OF 3(2)] snd_conv
      by (rule exI, rule conjI [OF _ finish_failed_by]) (use assms in \<open>auto simp: outcome_simps\<close>)
  qed
qed

lemma invalid_output_found:
  assumes "raw = dumps_spaced (ev_float_repr ev) v" "clean v"
  shows "outcome_found ev cf run db (snd (snd (invalid_output ev cf run raw out (s, effs, db))))"
  unfolding invalid_output_def prod.case Let_def snd_conv
  by (rule exI, rule conjI [OF _ finish_failed_by]) (use assms in \<open>auto simp: outcome_simps\<close>)

lemma model_repair_response:
  assumes "model_repair ev cf run payload err ds s = (out, s')" "po_response out = Some r"
  shows "\<exists>q. parse_final_response (ev_loads ev) (rv_role run) (rv_key run) q = Inr r"
  using assms
  by (auto simp: model_repair_def Let_def accepted_def split: if_splits sum.splits)

lemma parse_or_repair_response:
  assumes "parse_or_repair ev cf run payload s = Inr (out, s')" "po_response out = Some r"
  shows "\<exists>q. parse_final_response (ev_loads ev) (rv_role run) (rv_key run) q = Inr r"
  using assms
  by (auto simp: parse_or_repair_def Let_def accepted_def split: if_splits sum.splits exn.splits
      dest: model_repair_response)

lemma completed_run_found:
  assumes "completed_run ev cf run payload raw (s, effs, db) = Inr (s', effs', db')"
    and raw: "raw = dumps_spaced (ev_float_repr ev) v" "clean v"
    and get: "ev_get_run ev (rv_run_id run) = Inr (JObj payload)"
      "run_status_text (ev_py_str ev) payload \<in> set completed_states"
  shows "outcome_found ev cf run db db'"
proof -
  from assms(1) obtain out s1 where out: "parse_or_repair ev cf run payload s = Inr (out, s1)"
    by (auto simp: completed_run_def)
  show ?thesis
  proof (cases "po_response out")
    case None
    with assms(1) out have "invalid_output ev cf run raw out (s1, effs, db) = (s', effs', db')"
      by (simp add: completed_run_def)
    with invalid_output_found [OF raw, of cf run db out s1 effs] show ?thesis by simp
  next
    case (Some r)
    then obtain q where q: "parse_final_response (ev_loads ev) (rv_role run) (rv_key run) q = Inr r"
      using parse_or_repair_response [OF out] by blast
    from assms(1) out Some obtain cp where cp: "canonical_completion_payload ev (po_payload out) r = Inr cp"
      by (auto simp: completed_run_def)
    let ?raw = "raw_with_repair_info ev cp (po_info out)"
    obtain w where w: "?raw = dumps_spaced (ev_float_repr ev) w" "clean w"
      using raw_with_repair_info_clean by blast
    let ?fin = "(finish_with ''COMPLETED'' (Some (status_value (fr_final_status r))) ?raw)
        \<lparr>oc_final_response_json := Some (to_json_text (ev_float_repr ev) r)\<rparr>"
    let ?cur = "assignment_matches_current_revision (rv_key run) (revision_key (ev_sha ev) (run_item run))"
    show ?thesis
    proof (cases ?cur)
      case False
      let ?oc = "?fin\<lparr>oc_run_status := ''STALE_OUTPUT'', oc_assignment_status := Some ''FAILED_FINAL'',
          oc_error := Some ''Work item revision changed while run was active''\<rparr>"
      have "db' = snd (finish_failed ev cf run ?oc ''STALE_OUTPUT''
          ''Work item revision changed while run was active; normal downstream transition was not applied'' (effs, db))"
        using assms(1) out Some cp False by (auto simp: completed_run_def Let_def)
      then have "finished_by ev run ?oc db db'" using finish_failed_by by simp
      moreover have "justified ev cf run ?oc" using w by (auto simp: outcome_simps)
      ultimately show ?thesis by blast
    next
      case True
      let ?oc = "?fin\<lparr>oc_assignment_status := Some ''COMPLETED''\<rparr>"
      have "db' = snd (apply_transition (ev_float_repr ev) (run_now ev run) (run_item run) r cf (ev_adapter ev)
          (mark_run_finished (run_now ev run) (rv_key run) ?oc db))"
        using assms(1) out Some cp True by (auto simp: completed_run_def Let_def split: prod.splits)
      then have "finished_by ev run ?oc db db'"
        using apply_transition_db unfolding finished_by_def by metis
      moreover have "valid_completion ev run ?oc"
        using get parse_identity [OF q] True by (auto simp: valid_completion_def finish_with_def)
      then have "justified ev cf run ?oc" using w by (auto simp: outcome_simps)
      ultimately show ?thesis by blast
    qed
  qed
qed

text \<open>One run: either nothing ends it and the database is unchanged, or it is finished once.\<close>

lemma reconcile_run_found:
  assumes "reconcile_run ev cf run (s, effs, db) = Inr (s', effs', db')"
  shows "if settled ev cf run then outcome_found ev cf run db db' else db' = db"
proof (cases "timed_out (ev_clock ev (rv_run_id run)) (rv_started_at run) (cf_run_timeout_seconds cf)")
  case True
  let ?v = "JObj [(''status'', JStr ''timeout''), (''started_at'', JStr (ev_time_text ev (rv_started_at run)))]"
  have "clean ?v" by (simp add: forbidden_reasoning_keys_def)
  from timeout_run_found [OF refl this] assms True show ?thesis
    by (simp add: reconcile_run_def settled_def Let_def del: dumps_spaced.simps clean.simps) (metis snd_conv)
next
  case False
  show ?thesis
  proof (cases "ev_get_run ev (rv_run_id run)")
    case (Inl e)
    with assms False obtain m where e: "e = HermesRunNotFound m"
      by (auto simp: reconcile_run_def Let_def split: exn.splits)
    with Inl assms False show ?thesis
      using lost_run_found [of ev cf run db m "s\<lparr>rs_active := rs_active s + 1\<rparr>" effs]
      by (simp add: reconcile_run_def settled_def Let_def)
  next
    case (Inr j)
    with assms False obtain payload where j: "j = JObj payload"
      by (auto simp: reconcile_run_def Let_def split: json.splits)
    note get = Inr [unfolded j]
    let ?st = "run_status_text (ev_py_str ev) payload"
    let ?raw = "dumps_spaced (ev_float_repr ev) (scrub (JObj payload))"
    let ?s = "s\<lparr>rs_active := rs_active s + 1\<rparr>"
    note r = assms [unfolded reconcile_run_def prod.case Let_def if_not_P [OF False] get sum.case json.case]
    consider "?st \<in> set completed_states"
      | "?st \<notin> set completed_states" "?st \<in> set failed_states"
      | "?st \<notin> set completed_states" "?st \<notin> set failed_states" "?st \<in> set cancelled_states"
      | "?st \<notin> set completed_states" "?st \<notin> set failed_states" "?st \<notin> set cancelled_states" "?st \<in> set timeout_states"
      | "?st \<notin> set completed_states" "?st \<notin> set failed_states" "?st \<notin> set cancelled_states" "?st \<notin> set timeout_states"
      by blast
    then show ?thesis
    proof cases
      case 1
      with r have "completed_run ev cf run payload ?raw (?s, effs, db) = Inr (s', effs', db')"
        by (simp only: if_True)
      from completed_run_found [OF this refl clean_scrub get 1] 1 get show ?thesis by (simp add: settled_def)
    next
      case 2
      with r have "failed_run ev cf run payload ?raw (?s, effs, db) = (s', effs', db')"
        by (simp only: if_True if_False sum.inject)
      with failed_run_found [OF refl clean_scrub [of "JObj payload"], where ev = ev and cf = cf and run = run and db = db and payload = payload and s = ?s and effs = effs] 2 get show ?thesis
        by (simp add: settled_def del: dumps_spaced.simps scrub.simps)
    next
      case 3
      let ?oc = "(finish_with ''CANCELLED'' None ?raw)\<lparr>oc_assignment_status := Some ''CANCELLED''\<rparr>"
      from 3 r have "db' = mark_run_finished (run_now ev run) (rv_key run) ?oc db"
        by (simp only: if_True if_False sum.inject prod.inject)
      then have "finished_by ev run ?oc db db'" by (simp add: finished_by_def)
      moreover have "justified ev cf run ?oc"
        unfolding justified_def using clean_scrub [of "JObj payload"]
        by (auto simp: finish_with_def outcome_assignment_status_def simp del: dumps_spaced.simps scrub.simps)
      ultimately show ?thesis using 3 get by (auto simp: settled_def)
    next
      case 4
      with r have "timeout_run ev cf run ?raw ''Hermes run reported timeout'' (?s, effs, db) = (s', effs', db')"
        by (simp only: if_True if_False sum.inject)
      with timeout_run_found [OF refl clean_scrub [of "JObj payload"], where tx = "''Hermes run reported timeout''" and ev = ev and cf = cf and run = run and db = db and s = ?s and effs = effs] 4 get
      show ?thesis by (simp add: settled_def del: dumps_spaced.simps scrub.simps)
    next
      case 5
      from 5 r have "db' = db" by (simp only: if_False sum.inject prod.inject)
      with 5 get False show ?thesis by (simp add: settled_def)
    qed
  qed
qed

section \<open>The whole pass\<close>

lemma sort_by_map_filter_in:
  "run \<in> set (active_runs db) \<Longrightarrow> \<exists>r\<in>set (od_runs db). rn_status r = ACTIVE \<and> rn_key r = rv_key run \<and>
     rn_run_id r = rv_run_id run \<and> rn_attempt_number r = rv_attempt_number run \<and> rn_started_at r = rv_started_at run"
  unfolding active_runs_def map_filter_subset
  by (fastforce split: option.splits)

lemma active_row_unique:
  assumes "orch_wf db" "r \<in> set (od_runs db)" "x \<in> set (od_runs db)" "rn_status r = ACTIVE" "rn_status x = ACTIVE"
    "rn_key x = rn_key r"
  shows "x = r"
proof -
  have d: "distinct (map rn_key (filter (\<lambda>r. rn_status r = ACTIVE) (od_runs db)))"
    using orch_wfD(3) [OF assms(1)] by (simp add: runs_ok_def)
  show ?thesis using assms by (intro distinct_map_eq [OF d]) simp_all
qed

text \<open>A row of the table of runs after some of the \<open>runs\<close> were handled, starting from \<open>db0\<close>.\<close>

definition row_explained :: "recon_env \<Rightarrow> config \<Rightarrow> run_view list \<Rightarrow> orch_db \<Rightarrow> run_row \<Rightarrow> bool" where
  "row_explained ev cf runs db0 r \<longleftrightarrow> r \<in> set (od_runs db0) \<or>
     (\<exists>run\<in>set runs. \<exists>oc. justified ev cf run oc \<and> rn_run_id r = rv_run_id run \<and> rn_key r = rv_key run \<and>
        rn_status r = oc_run_status oc \<and> rn_raw_status r = Some (oc_raw_status oc) \<and>
        rn_final_status r = oc_final_status oc \<and> rn_final_response_json r = oc_final_response_json oc)"

definition assignment_explained :: "recon_env \<Rightarrow> config \<Rightarrow> run_view list \<Rightarrow> orch_db \<Rightarrow> assignment_row \<Rightarrow> bool" where
  "assignment_explained ev cf runs db0 a \<longleftrightarrow> a \<in> set (od_assignments db0) \<or>
     (\<exists>run\<in>set runs. \<exists>oc. justified ev cf run oc \<and> sg_key a = rv_key run \<and> sg_status a = outcome_assignment_status oc \<and>
        (\<exists>a0\<in>set (od_assignments db0). sg_key a0 = sg_key a \<and> sg_attempt_count a0 = sg_attempt_count a))"

definition pass_explained :: "recon_env \<Rightarrow> config \<Rightarrow> run_view list \<Rightarrow> orch_db \<Rightarrow> orch_db \<Rightarrow> bool" where
  "pass_explained ev cf runs db0 db \<longleftrightarrow>
     (\<forall>r\<in>set (od_runs db). row_explained ev cf runs db0 r) \<and>
     (\<forall>a\<in>set (od_assignments db). assignment_explained ev cf runs db0 a) \<and> orch_step\<^sup>*\<^sup>* db0 db"

lemma justified_status: "justified ev cf run oc \<Longrightarrow> oc_run_status oc \<noteq> ACTIVE \<and> outcome_assignment_status oc \<noteq> STARTED"
  unfolding justified_def by auto

lemma finished_by_tables:
  assumes "finished_by ev run oc db db'"
  shows "od_runs db' = od_runs (mark_run_finished (run_now ev run) (rv_key run) oc db)"
    "od_assignments db' = od_assignments (mark_run_finished (run_now ev run) (rv_key run) oc db)"
  using assms by (auto simp: finished_by_def record_transition_def)

lemma finished_by_steps:
  assumes "finished_by ev run oc db db'" "justified ev cf run oc"
  shows "orch_step\<^sup>*\<^sup>* db db'"
proof -
  have "orch_step db (mark_run_finished (run_now ev run) (rv_key run) oc db)"
    using justified_status [OF assms(2)] by (intro orch_step.finish) simp_all
  with assms(1) show ?thesis
    unfolding finished_by_def by (auto intro: orch_step.transition rtranclp.rtrancl_into_rtrancl)
qed

lemma row_explained_step:
  assumes wf: "orch_wf db0" and run: "run \<in> set (active_runs db0)" "run \<in> set runs"
    and old: "row_explained ev cf runs db0 x" and oc: "justified ev cf run oc" and key: "rn_key x = rv_key run" "rn_status x = ACTIVE"
    and new: "rn_run_id y = rn_run_id x" "rn_key y = rn_key x" "rn_status y = oc_run_status oc"
      "rn_raw_status y = Some (oc_raw_status oc)" "rn_final_status y = oc_final_status oc"
      "rn_final_response_json y = oc_final_response_json oc"
  shows "row_explained ev cf runs db0 y"
proof -
  from sort_by_map_filter_in [OF run(1)] obtain r0 where
    r0: "r0 \<in> set (od_runs db0)" "rn_status r0 = ACTIVE" "rn_key r0 = rv_key run" "rn_run_id r0 = rv_run_id run"
    by blast
  have "x \<in> set (od_runs db0)"
    using old key justified_status unfolding row_explained_def by metis
  then have "x = r0" using active_row_unique [OF wf r0(1) _ r0(2)] key r0(3) by simp
  then have "rn_run_id y = rv_run_id run" "rn_key y = rv_key run" using new r0 by simp_all
  with oc new run(2) show ?thesis unfolding row_explained_def by blast
qed

lemma pass_explained_step:
  assumes wf: "orch_wf db0" and run: "run \<in> set (active_runs db0)" "run \<in> set runs"
    and old: "pass_explained ev cf runs db0 db" and oc: "justified ev cf run oc" "finished_by ev run oc db db'"
  shows "pass_explained ev cf runs db0 db'"
  unfolding pass_explained_def
proof (intro conjI)
  show "\<forall>r\<in>set (od_runs db'). row_explained ev cf runs db0 r"
    using old unfolding finished_by_tables(1) [OF oc(2)] pass_explained_def
    by (auto simp: mark_run_finished_def update_assignment_def update_where_ball
        intro: row_explained_step [OF wf run _ oc(1)])
  have "assignment_explained ev cf runs db0 (f a)"
    if "assignment_explained ev cf runs db0 a" "sg_key a = rv_key run" "sg_key (f a) = sg_key a"
      "sg_status (f a) = outcome_assignment_status oc" "sg_attempt_count (f a) = sg_attempt_count a" for a f
    using that oc(1) run(2) unfolding assignment_explained_def by (metis (no_types, lifting))
  then show "\<forall>a\<in>set (od_assignments db'). assignment_explained ev cf runs db0 a"
    using old unfolding finished_by_tables(2) [OF oc(2)] pass_explained_def
    by (auto simp: mark_run_finished_def update_assignment_def update_where_ball)
  show "orch_step\<^sup>*\<^sup>* db0 db'"
    using old finished_by_steps [OF oc(2,1)] unfolding pass_explained_def by (meson rtranclp_trans)
qed

lemma reconcile_runs_explained:
  assumes wf: "orch_wf db0" and sub: "set rest \<subseteq> set (active_runs db0)" "set rest \<subseteq> set runs"
    and old: "pass_explained ev cf runs db0 db"
    and run: "reconcile_runs ev cf rest (s, effs, db) = Inr (s', effs', db')"
  shows "pass_explained ev cf runs db0 db'"
  using sub old run
proof (induction rest arbitrary: s effs db)
  case (Cons run rest)
  then obtain s1 effs1 db1 where one: "reconcile_run ev cf run (s, effs, db) = Inr (s1, effs1, db1)"
    and rest: "reconcile_runs ev cf rest (s1, effs1, db1) = Inr (s', effs', db')"
    by auto
  have "pass_explained ev cf runs db0 db1"
    using reconcile_run_found [OF one] Cons.prems pass_explained_step [OF wf, of run runs ev cf db _ db1]
    by (cases "settled ev cf run") auto
  with Cons.IH [of db1 s1 effs1] rest Cons.prems show ?case by simp
qed simp

lemma pass_explained_refl: "pass_explained ev cf runs db db"
  by (simp add: pass_explained_def row_explained_def assignment_explained_def)

lemma reconcile_explained:
  assumes "orch_wf db" "reconcile ev cf db = Inr (s, effs, db')"
  shows "pass_explained ev cf (active_runs db) db db'"
  using reconcile_runs_explained [OF assms(1) _ _ pass_explained_refl] assms(2)
  unfolding reconcile_def by blast

text \<open>The runs that are still active afterwards.\<close>

definition active_rows :: "orch_db \<Rightarrow> run_row set" where
  "active_rows db = {r \<in> set (od_runs db). rn_status r = ACTIVE}"

lemma finished_by_active:
  assumes "finished_by ev run oc db db'" "justified ev cf run oc"
  shows "active_rows db' = {r \<in> active_rows db. rn_key r \<noteq> rv_key run}"
proof -
  have "{y \<in> set (update_where P f xs). Q y} = {x \<in> set xs. Q x \<and> \<not> P x}" if "\<And>x. P x \<Longrightarrow> \<not> Q (f x)"
    for P Q :: "run_row \<Rightarrow> bool" and f xs
    using that by (induction xs) auto
  note eq = this [where Q = "\<lambda>r. rn_status r = ACTIVE"]
  have "oc_run_status oc \<noteq> ACTIVE" using justified_status [OF assms(2)] by simp
  then show ?thesis
    unfolding active_rows_def finished_by_tables(1) [OF assms(1)]
    by (subst mark_run_finished_def) (simp add: update_assignment_def eq, blast)
qed

lemma reconcile_runs_active:
  assumes "reconcile_runs ev cf runs (s, effs, db) = Inr (s', effs', db')"
  shows "active_rows db' = {r \<in> active_rows db. \<forall>run\<in>set runs. settled ev cf run \<longrightarrow> rn_key r \<noteq> rv_key run}"
  using assms
proof (induction runs arbitrary: s effs db)
  case (Cons run rest)
  then obtain s1 effs1 db1 where one: "reconcile_run ev cf run (s, effs, db) = Inr (s1, effs1, db1)"
    and rest: "reconcile_runs ev cf rest (s1, effs1, db1) = Inr (s', effs', db')"
    by auto
  have "active_rows db1 = {r \<in> active_rows db. settled ev cf run \<longrightarrow> rn_key r \<noteq> rv_key run}"
    using reconcile_run_found [OF one] finished_by_active by (cases "settled ev cf run") auto
  with Cons.IH [OF rest] show ?case by auto
qed simp

lemma settled_cong:
  "rv_run_id a = rv_run_id b \<Longrightarrow> rv_started_at a = rv_started_at b \<Longrightarrow> settled ev cf a = settled ev cf b"
  by (simp add: settled_def)

section \<open>Properties\<close>

text \<open>
  (C19) A run is recorded as completed only with a valid answer. For every row a pass turns
  into \<open>COMPLETED\<close>: the gateway reported the run as completed, and an accepted final response names the role
  and the assignment key of that run, has a status the role may report, and belongs to the revision the work
  item has now; status and response stored in the row are those of that response.
\<close>

theorem completed_only_with_valid_response:
  assumes "orch_wf db" "reconcile ev cf db = Inr (s, effs, db')"
    and "r \<in> set (od_runs db')" "r \<notin> set (od_runs db)" "rn_status r = ''COMPLETED''"
  shows "\<exists>run\<in>set (active_runs db). \<exists>payload resp ss. rn_run_id r = rv_run_id run \<and> rn_key r = rv_key run \<and>
    ev_get_run ev (rv_run_id run) = Inr (JObj payload) \<and>
    run_status_text (ev_py_str ev) payload \<in> set completed_states \<and>
    fr_role resp = rv_role run \<and> fr_assignment_key resp = rv_key run \<and>
    map_of role_final_statuses (rv_role run) = Some ss \<and> fr_final_status resp \<in> set ss \<and>
    after_last_colon (rv_key run) = revision_key (ev_sha ev) (run_item run) \<and>
    rn_final_status r = Some (status_value (fr_final_status resp)) \<and>
    rn_final_response_json r = Some (to_json_text (ev_float_repr ev) resp)"
proof -
  have "row_explained ev cf (active_runs db) db r"
    using reconcile_explained [OF assms(1,2)] assms(3) by (simp add: pass_explained_def)
  then obtain run oc where run: "run \<in> set (active_runs db)" and j: "justified ev cf run oc"
    and r: "rn_run_id r = rv_run_id run" "rn_key r = rv_key run" "rn_status r = oc_run_status oc"
      "rn_final_status r = oc_final_status oc" "rn_final_response_json r = oc_final_response_json oc"
    using assms(4) unfolding row_explained_def by blast
  have "valid_completion ev run oc"
    using j r(3) assms(5) unfolding justified_def by simp
  then obtain payload resp ss where
    v: "ev_get_run ev (rv_run_id run) = Inr (JObj payload)" "run_status_text (ev_py_str ev) payload \<in> set completed_states"
      "fr_role resp = rv_role run" "fr_assignment_key resp = rv_key run"
      "map_of role_final_statuses (rv_role run) = Some ss" "fr_final_status resp \<in> set ss"
      "assignment_matches_current_revision (rv_key run) (revision_key (ev_sha ev) (run_item run))"
      "oc_final_status oc = Some (status_value (fr_final_status resp))"
      "oc_final_response_json oc = Some (to_json_text (ev_float_repr ev) resp)"
    unfolding valid_completion_def by (elim exE conjE)
  show ?thesis
    by (rule bexI [OF _ run], rule exI [of _ payload], rule exI [of _ resp], rule exI [of _ ss])
       (use v r in \<open>simp add: assignment_matches_current_revision_def\<close>)
qed

text \<open>
  (C21) A pass settles what can be settled and touches nothing else. If it succeeds, an
  active run that timed out, is unknown to the gateway or has a final state there is no longer active; every
  other run is, with its row unchanged.
\<close>

theorem reconcile_progress:
  assumes "orch_wf db" "reconcile ev cf db = Inr (s, effs, db')" "run \<in> set (active_runs db)"
  shows "if settled ev cf run then \<not> has_active_run db' (rv_key run)
    else (\<exists>r\<in>set (od_runs db) \<inter> set (od_runs db'). rn_run_id r = rv_run_id run \<and> rn_status r = ACTIVE)"
proof -
  have a: "active_rows db' = {r \<in> active_rows db. \<forall>run\<in>set (active_runs db). settled ev cf run \<longrightarrow> rn_key r \<noteq> rv_key run}"
    using reconcile_runs_active assms(2) unfolding reconcile_def by blast
  show ?thesis
  proof (cases "settled ev cf run")
    case True
    with a assms(3) show ?thesis by (auto simp: has_active_run_iff active_rows_def)
  next
    case False
    from sort_by_map_filter_in [OF assms(3)] obtain r where r: "r \<in> set (od_runs db)" "rn_status r = ACTIVE"
      "rn_key r = rv_key run" "rn_run_id r = rv_run_id run" "rn_started_at r = rv_started_at run" by blast
    have "rn_key r \<noteq> rv_key other" if "other \<in> set (active_runs db)" "settled ev cf other" for other
    proof
      assume eq: "rn_key r = rv_key other"
      from sort_by_map_filter_in [OF that(1)] obtain x where x: "x \<in> set (od_runs db)" "rn_status x = ACTIVE"
        "rn_key x = rv_key other" "rn_run_id x = rv_run_id other" "rn_started_at x = rv_started_at other" by blast
      then have "x = r" using active_row_unique [OF assms(1) r(1) x(1) r(2) x(2)] eq by simp
      then have "settled ev cf run" using settled_cong [of other run] that(2) r x by simp
      with False show False ..
    qed
    then have "r \<in> active_rows db'" using a r by (simp add: active_rows_def)
    with r False show ?thesis by (auto simp: active_rows_def)
  qed
qed

text \<open>
  No reasoning is kept. The gateway's answer that a pass stores with a run is the JSON
  text of a value without any of the forbidden reasoning keys, at any depth and in every branch.
\<close>

theorem no_reasoning_stored:
  assumes "orch_wf db" "reconcile ev cf db = Inr (s, effs, db')" "r \<in> set (od_runs db')" "r \<notin> set (od_runs db)"
  shows "\<exists>v. rn_raw_status r = Some (dumps_spaced (ev_float_repr ev) v) \<and> clean v"
proof -
  have "row_explained ev cf (active_runs db) db r"
    using reconcile_explained [OF assms(1,2)] assms(3) by (simp add: pass_explained_def)
  with assms(4) show ?thesis unfolding row_explained_def justified_def by (metis (no_types, lifting))
qed


section \<open>An example pass\<close>

definition sample_config :: config where
  "sample_config = \<lparr>cf_enabled = True, cf_role = ''planner'', cf_provider = ''github'', cf_repository_id = ''o/r'',
     cf_hermes_url = ''http://127.0.0.1:8642'', cf_api_server_key = ''k'', cf_db_path = ''d'', cf_lock_path = ''l'',
     cf_max_starts_per_tick = 1, cf_run_timeout_seconds = 5400, cf_max_attempts_per_assignment = 3,
     cf_retry_delay_seconds = 300, cf_retry_lost_runs = True, cf_retry_transient_failures = True,
     cf_github_token = None, cf_github_api_base_url = ''a'', cf_github_repository_full_name = None,
     cf_gitlab_token = None, cf_gitlab_api_base_url = ''b'', cf_gitlab_project = None,
     cf_role_labels = {''hermes:planner''}, cf_terminal_labels = {}, cf_role_assignees = {},
     cf_apply_transitions = False, cf_transition_comment_only = True, cf_repair_enabled = True,
     cf_model_repair_enabled = False, cf_repair_model = ''m'', cf_repair_timeout_seconds = 120,
     cf_repair_max_chars = 200000\<rparr>"

definition sample_answer :: json where
  "sample_answer = JObj [(''status'', JStr ''Completed''), (''cot'', JStr ''hidden''), (''output'', JObj
     [(''assignment_key'', JStr ''k''), (''role'', JStr ''planner''), (''final_status'', JStr ''READY_FOR_BUILD''),
      (''summary'', JStr ''plan'')])]"

definition sample_env :: "json result \<Rightarrow> recon_env" where
  "sample_env answer = \<lparr>ev_get_run = (\<lambda>_. answer), ev_model_repair = (\<lambda>_. Inl (RuntimeError ''off'')),
     ev_adapter = None, ev_clock = (\<lambda>_. 10), ev_time_text = (\<lambda>_. ''2026-01-01 00:00:03''), ev_loads = (\<lambda>_. Some (JObj [])),
     ev_float_repr = (\<lambda>_. ''0.5''), ev_py_str = (\<lambda>_. []), ev_sha = (\<lambda>_. ''k'')\<rparr>"

abbreviation sample_pass :: "json result \<Rightarrow> recon_state result" where
  "sample_pass answer \<equiv> reconcile (sample_env answer) sample_config (sample_db ''run-1'')"

lemma sample_wf: "orch_wf (sample_db rid)"
  by (rule orch_wf_steps [OF sample_db_reachable orch_wf_empty])

lemma sample_pass_completes:
  obtains s effs db' r where "sample_pass (Inr sample_answer) = Inr (s, effs, db')" "r \<in> set (od_runs db')"
    "r \<notin> set (od_runs (sample_db ''run-1''))" "rn_status r = ''COMPLETED''"
proof -
  have "case sample_pass (Inr sample_answer) of
      Inr (s, effs, db') \<Rightarrow> list_ex (\<lambda>r. rn_status r = ''COMPLETED'') (od_runs db') | Inl _ \<Rightarrow> False"
    by code_simp
  then obtain s effs db' r where r: "sample_pass (Inr sample_answer) = Inr (s, effs, db')" "r \<in> set (od_runs db')"
    "rn_status r = ''COMPLETED''"
    by (auto simp: list_ex_iff split: sum.splits)
  have "list_all (\<lambda>r. rn_status r \<noteq> ''COMPLETED'') (od_runs (sample_db ''run-1''))" by code_simp
  with r that show ?thesis by (auto simp: list_all_iff)
qed

theorem completed_only_with_valid_response_witness:
  "\<exists>s effs db' r. sample_pass (Inr sample_answer) = Inr (s, effs, db') \<and> r \<in> set (od_runs db') \<and>
     rn_status r = ''COMPLETED'' \<and> (\<exists>resp :: final_response. rn_final_status r = Some (status_value (fr_final_status resp)))"
proof -
  obtain s effs db' r where p: "sample_pass (Inr sample_answer) = Inr (s, effs, db')" "r \<in> set (od_runs db')"
    "r \<notin> set (od_runs (sample_db ''run-1''))" "rn_status r = ''COMPLETED''" by (rule sample_pass_completes)
  have "\<exists>resp :: final_response. rn_final_status r = Some (status_value (fr_final_status resp))"
    using completed_only_with_valid_response [OF sample_wf p]
    by (elim bexE exE conjE) (rule exI, assumption)
  with p show ?thesis by blast
qed

theorem reconcile_progress_witness:
  "\<exists>s effs db'. sample_pass (Inl (HermesRunNotFound ''gone'')) = Inr (s, effs, db') \<and> \<not> has_active_run db' ''k''"
proof -
  let ?p = "sample_pass (Inl (HermesRunNotFound ''gone''))"
  have "case ?p of Inr _ \<Rightarrow> True | Inl _ \<Rightarrow> False" by code_simp
  then obtain s effs db' where p: "?p = Inr (s, effs, db')" by (auto split: sum.splits)
  have "list_ex (\<lambda>run. rv_key run = ''k'' \<and> settled (sample_env (Inl (HermesRunNotFound ''gone''))) sample_config run)
      (active_runs (sample_db ''run-1''))" by code_simp
  then obtain run where run: "run \<in> set (active_runs (sample_db ''run-1''))" "rv_key run = ''k''"
    "settled (sample_env (Inl (HermesRunNotFound ''gone''))) sample_config run"
    by (auto simp: list_ex_iff)
  from reconcile_progress [OF sample_wf p run(1)] run(2,3) p show ?thesis by auto
qed

theorem no_reasoning_stored_witness:
  "\<exists>s effs db' r v. sample_pass (Inr sample_answer) = Inr (s, effs, db') \<and> r \<in> set (od_runs db') \<and>
     rn_raw_status r = Some (dumps_spaced (\<lambda>_. ''0.5'') v) \<and> clean v"
proof -
  obtain s effs db' r where p: "sample_pass (Inr sample_answer) = Inr (s, effs, db')" "r \<in> set (od_runs db')"
    "r \<notin> set (od_runs (sample_db ''run-1''))" "rn_status r = ''COMPLETED''" by (rule sample_pass_completes)
  have "ev_float_repr (sample_env (Inr sample_answer)) = (\<lambda>_. ''0.5'')" by (simp add: sample_env_def)
  with no_reasoning_stored [OF sample_wf p(1-3)] p show ?thesis by auto
qed


end
