(* ===== verification/Providers.thy ===== *)
theory Providers
  imports Transitions
begin

text \<open>
  The HTTP side of \<open>provider_github.py\<close> and \<open>provider_gitlab.py\<close>: discovery of issues and the
  transition adapters. The server is a parameter: a function from the requests made so far and the next request
  to its reply, so that a reply may depend on what was changed before. What an operation returns comes with
  the requests it has made, also when it raises.
\<close>

section \<open>Requests and replies\<close>

record http_request =
  hq_method :: string
  hq_url :: string
  hq_token :: string
  hq_body :: "json option"

text \<open>A decoded body, status 204, an \<open>HTTPError\<close> with code, reason and body, a connection failure, or a body that is no JSON.\<close>

datatype http_reply =
    HttpJson json
  | HttpNoContent
  | HttpStatus nat string string
  | HttpFailure string
  | HttpBadJson

type_synonym http_server = "http_request list \<Rightarrow> http_request \<Rightarrow> http_reply"
type_synonym 'a io = "http_request list \<Rightarrow> http_request list \<times> 'a result"

definition io_return :: "'a \<Rightarrow> 'a io" where
  "io_return x = (\<lambda>h. (h, Inr x))"

definition io_raise :: "exn \<Rightarrow> 'a io" where
  "io_raise e = (\<lambda>h. (h, Inl e))"

definition io_bind :: "'a io \<Rightarrow> ('a \<Rightarrow> 'b io) \<Rightarrow> 'b io" where
  "io_bind m f = (\<lambda>h. case m h of (h', Inl e) \<Rightarrow> (h', Inl e) | (h', Inr x) \<Rightarrow> f x h')"

definition io_result :: "'a result \<Rightarrow> 'a io" where
  "io_result r = (\<lambda>h. (h, r))"

definition send :: "http_server \<Rightarrow> http_request \<Rightarrow> http_reply io" where
  "send server rq = (\<lambda>h. (h @ [rq], Inr (server h rq)))"

lemma io_simps [simp]:
  "io_return x h = (h, Inr x)" "io_raise e h = (h, Inl e)" "io_result r h = (h, r)"
  "send server rq h = (h @ [rq], Inr (server h rq))"
  by (simp_all add: io_return_def io_raise_def io_result_def send_def)

lemma io_bind_simp: "io_bind m f h = (case m h of (h', Inl e) \<Rightarrow> (h', Inl e) | (h', Inr x) \<Rightarrow> f x h')"
  by (simp add: io_bind_def)

section \<open>Discovery\<close>

definition discovery_reply :: "string \<Rightarrow> http_reply \<Rightarrow> json result" where
  "discovery_reply name reply =
     (case reply of
        HttpJson j \<Rightarrow> Inr j
      | HttpNoContent \<Rightarrow> Inl (ValueError ''JSONDecodeError'')
      | HttpBadJson \<Rightarrow> Inl (ValueError ''JSONDecodeError'')
      | HttpStatus code reason _ \<Rightarrow>
          Inl (RuntimeError (name @ '' issue discovery failed: HTTP Error '' @ str_of_int (int code) @ '': '' @ reason))
      | HttpFailure t \<Rightarrow> Inl (RuntimeError (name @ '' issue discovery failed: '' @ t)))"

text \<open>The loop over the payload; the payload must be a list of objects.\<close>

definition each_issue :: "(pydict \<Rightarrow> 'a result) \<Rightarrow> json \<Rightarrow> 'a list result" where
  "each_issue f payload = (case payload of
     JArr xs \<Rightarrow> map_result (\<lambda>x. case x of JObj d \<Rightarrow> f d | _ \<Rightarrow> Inl (TypeError ''issue'')) xs
   | _ \<Rightarrow> Inl (TypeError ''issues''))"

definition github_repository :: "config \<Rightarrow> string" where
  "github_repository cf = (case cf_github_repository_full_name cf of
     Some r \<Rightarrow> (if r \<noteq> [] then r else cf_repository_id cf) | None \<Rightarrow> cf_repository_id cf)"

definition github_fetch_issues :: "http_server \<Rightarrow> (json \<Rightarrow> string) \<Rightarrow> (string \<Rightarrow> string) \<Rightarrow> config \<Rightarrow> work_item list io" where
  "github_fetch_issues server py_str sha cf =
     (case cf_github_token cf of
        None \<Rightarrow> io_raise (ConfigError ''ORCHESTRATOR_GITHUB_TOKEN is required when GitHub discovery is enabled'')
      | Some token \<Rightarrow>
          if token = [] then io_raise (ConfigError ''ORCHESTRATOR_GITHUB_TOKEN is required when GitHub discovery is enabled'')
          else let repository = github_repository cf in
            if CHR ''/'' \<notin> set repository
            then io_raise (ConfigError ''GITHUB_REPOSITORY_FULL_NAME must be owner/repo for GitHub discovery'')
            else io_bind (send server \<lparr>hq_method = ''GET'',
                   hq_url = cf_github_api_base_url cf @ ''/repos/'' @ repository @ ''/issues?state=open&per_page=100'',
                   hq_token = token, hq_body = None\<rparr>) (\<lambda>reply.
              io_result (result_bind (discovery_reply ''GitHub'' reply) (\<lambda>payload.
                result_bind (each_issue (\<lambda>issue. github_normalize_issue py_str sha issue repository) payload) (\<lambda>items.
                Inr (List.map_filter id items))))))"

definition gitlab_fetch_issues :: "http_server \<Rightarrow> (json \<Rightarrow> string) \<Rightarrow> (string \<Rightarrow> string) \<Rightarrow> config \<Rightarrow> work_item list io" where
  "gitlab_fetch_issues server py_str sha cf =
     (case (cf_gitlab_token cf, cf_gitlab_project cf) of
        (Some token, Some project) \<Rightarrow>
          if token = [] \<or> project = [] then io_return []
          else io_bind (send server \<lparr>hq_method = ''GET'',
                 hq_url = cf_gitlab_api_base_url cf @ ''/projects/'' @ url_quote project @ ''/issues?state=opened&per_page=100'',
                 hq_token = token, hq_body = None\<rparr>) (\<lambda>reply.
            io_result (result_bind (discovery_reply ''GitLab'' reply)
              (each_issue (\<lambda>issue. gitlab_normalize_issue py_str sha issue project))))
      | _ \<Rightarrow> io_return [])"

section \<open>The GitHub adapter\<close>

record github_adapter =
  gt_token :: string
  gt_base_url :: string
  gt_repository :: string

definition make_github_adapter :: "config \<Rightarrow> github_adapter result" where
  "make_github_adapter cf =
     (case cf_github_token cf of
        Some token \<Rightarrow>
          if token = [] then Inl (ConfigError ''ORCHESTRATOR_GITHUB_TOKEN is required for GitHub transitions'')
          else Inr \<lparr>gt_token = token, gt_base_url = cf_github_api_base_url cf, gt_repository = github_repository cf\<rparr>
      | None \<Rightarrow> Inl (ConfigError ''ORCHESTRATOR_GITHUB_TOKEN is required for GitHub transitions''))"

definition github_reply :: "bool \<Rightarrow> http_reply \<Rightarrow> json result" where
  "github_reply tolerate_404 reply =
     (case reply of
        HttpNoContent \<Rightarrow> Inr (JObj [])
      | HttpJson j \<Rightarrow> Inr j
      | HttpBadJson \<Rightarrow> Inl (ValueError ''JSONDecodeError'')
      | HttpStatus code _ t \<Rightarrow>
          if tolerate_404 \<and> code = 404 then Inr (JObj [(''not_found'', JBool True)])
          else Inl (RuntimeError (''GitHub transition failed: HTTP '' @ str_of_int (int code) @ '': '' @ t))
      | HttpFailure t \<Rightarrow> Inl (RuntimeError (''GitHub transition failed: '' @ t)))"

definition github_request :: "http_server \<Rightarrow> github_adapter \<Rightarrow> string \<Rightarrow> string \<Rightarrow> json option \<Rightarrow> bool \<Rightarrow> json io" where
  "github_request server gt path method body tolerate_404 =
     io_bind (send server \<lparr>hq_method = method, hq_url = gt_base_url gt @ path, hq_token = gt_token gt, hq_body = body\<rparr>)
       (\<lambda>reply. io_result (github_reply tolerate_404 reply))"

definition issue_path :: "github_adapter \<Rightarrow> work_item \<Rightarrow> string" where
  "issue_path gt item = ''/repos/'' @ gt_repository gt @ ''/issues/'' @ url_quote (wi_external_id item)"

definition comment_exists :: "(json \<Rightarrow> string) \<Rightarrow> http_server \<Rightarrow> github_adapter \<Rightarrow> work_item \<Rightarrow> string \<Rightarrow> bool io" where
  "comment_exists py_str server gt item marker =
     io_bind (github_request server gt (issue_path gt item @ ''/comments?per_page=100'') ''GET'' None False) (\<lambda>comments.
       io_return (case comments of
         JArr xs \<Rightarrow> list_ex (\<lambda>x. case x of
             JObj d \<Rightarrow> contains_str marker (if truthy (dict_get d ''body'') then json_str py_str (dict_get d ''body'') else [])
           | _ \<Rightarrow> False) xs
       | _ \<Rightarrow> False))"

text \<open>The loop over the labels to remove; a reply that is no object has no \<open>get\<close>.\<close>

fun remove_labels :: "http_server \<Rightarrow> github_adapter \<Rightarrow> work_item \<Rightarrow> string list \<Rightarrow> json list io" where
  "remove_labels server gt item [] = io_return []"
| "remove_labels server gt item (label # labels) =
     io_bind (github_request server gt (issue_path gt item @ ''/labels/'' @ url_quote label) ''DELETE'' None True) (\<lambda>res.
       case res of
         JObj d \<Rightarrow>
           io_bind (remove_labels server gt item labels) (\<lambda>removed.
             io_return (JObj [(''label'', JStr label), (''status'',
               JStr (if truthy (dict_get d ''not_found'') then ''already_absent'' else ''removed''))] # removed))
       | _ \<Rightarrow> io_raise (AttributeError ''get''))"

definition transition_marker :: "string \<Rightarrow> string" where
  "transition_marker key = ''<!-- hermes-transition:'' @ key @ '' -->''"

definition github_apply :: "(json \<Rightarrow> string) \<Rightarrow> http_server \<Rightarrow> github_adapter \<Rightarrow> provider_call
    \<Rightarrow> provider_transition_result io" where
  "github_apply py_str server gt call =
     (let item = pc_item call;
          marker = transition_marker (pc_idempotency_key call);
          marked_comment = pc_comment call @ newline # newline # marker;
          add = sorted_list_of_set (pc_add_labels call);
          labels_of = (\<lambda>ls. JArr (map JStr ls))
      in if wi_kind item \<noteq> ''issue'' then io_raise (RuntimeError ''GitHub transitions currently support issue work items only'')
         else
           io_bind (if pc_add_labels call = {} then io_return JNull
                    else github_request server gt (issue_path gt item @ ''/labels'') ''POST''
                      (Some (JObj [(''labels'', labels_of add)])) False) (\<lambda>_.
           io_bind (remove_labels server gt item (sorted_list_of_set (pc_remove_labels call))) (\<lambda>removed.
           io_bind (comment_exists py_str server gt item marker) (\<lambda>already.
           io_bind (if already then io_return JNull
                    else github_request server gt (issue_path gt item @ ''/comments'') ''POST''
                      (Some (JObj [(''body'', JStr marked_comment)])) False) (\<lambda>_.
           io_return \<lparr>pt_applied = True, pt_details =
             [(''idempotency_key'', JStr (pc_idempotency_key call)),
              (''comment'', JStr (if already then ''already_exists'' else ''created'')),
              (''added_labels'', labels_of add), (''removed_labels'', JArr removed)]\<rparr>)))))"

section \<open>The GitLab adapter\<close>

definition gitlab_apply :: "provider_call \<Rightarrow> provider_transition_result result" where
  "gitlab_apply call = Inr \<lparr>pt_applied = False, pt_details =
     [(''mode'', JStr ''unsupported''), (''provider'', JStr (wi_provider (pc_item call))),
      (''idempotency_key'', JStr (pc_idempotency_key call)), (''comment'', JStr (pc_comment call)),
      (''add_labels'', JArr (map JStr (sorted_list_of_set (pc_add_labels call)))),
      (''remove_labels'', JArr (map JStr (sorted_list_of_set (pc_remove_labels call))))]\<rparr>"

section \<open>Facts\<close>

lemma github_request_simp:
  "github_request server gt path method body tol h =
     (let rq = \<lparr>hq_method = method, hq_url = gt_base_url gt @ path, hq_token = gt_token gt, hq_body = body\<rparr>
      in (h @ [rq], github_reply tol (server h rq)))"
  by (simp add: github_request_def io_bind_simp Let_def)

definition comment_post :: "github_adapter \<Rightarrow> work_item \<Rightarrow> string \<Rightarrow> http_request" where
  "comment_post gt item t = \<lparr>hq_method = ''POST'', hq_url = gt_base_url gt @ issue_path gt item @ ''/comments'',
     hq_token = gt_token gt, hq_body = Some (JObj [(''body'', JStr t)])\<rparr>"

definition comment_list :: "github_adapter \<Rightarrow> work_item \<Rightarrow> http_request" where
  "comment_list gt item = \<lparr>hq_method = ''GET'', hq_url = gt_base_url gt @ issue_path gt item @ ''/comments?per_page=100'',
     hq_token = gt_token gt, hq_body = None\<rparr>"

text \<open>The last step of the adapter, once labels are settled.\<close>

definition comment_once :: "(json \<Rightarrow> string) \<Rightarrow> http_server \<Rightarrow> github_adapter \<Rightarrow> work_item \<Rightarrow> string \<Rightarrow> string \<Rightarrow> bool io" where
  "comment_once py_str server gt item marker t =
     io_bind (comment_exists py_str server gt item marker) (\<lambda>already.
     io_bind (if already then io_return JNull
              else github_request server gt (issue_path gt item @ ''/comments'') ''POST'' (Some (JObj [(''body'', JStr t)])) False)
       (\<lambda>_. io_return already))"

definition label_steps :: "http_server \<Rightarrow> github_adapter \<Rightarrow> provider_call \<Rightarrow> json list io" where
  "label_steps server gt call =
     io_bind (if pc_add_labels call = {} then io_return JNull
              else github_request server gt (issue_path gt (pc_item call) @ ''/labels'') ''POST''
                (Some (JObj [(''labels'', JArr (map JStr (sorted_list_of_set (pc_add_labels call))))])) False)
       (\<lambda>_. remove_labels server gt (pc_item call) (sorted_list_of_set (pc_remove_labels call)))"

definition marked_comment :: "provider_call \<Rightarrow> string" where
  "marked_comment call = pc_comment call @ newline # newline # transition_marker (pc_idempotency_key call)"

lemma io_bind_assoc: "io_bind (io_bind m f) g = io_bind m (\<lambda>x. io_bind (f x) g)"
  by (rule ext) (simp add: io_bind_simp split: prod.split sum.split)

lemma io_bind_return [simp]: "io_bind (io_return x) f = f x"
  by (rule ext) (simp add: io_bind_simp)

lemma github_apply_steps:
  assumes "wi_kind (pc_item call) = ''issue''"
  shows "github_apply py_str server gt call =
    io_bind (label_steps server gt call) (\<lambda>removed.
    io_bind (comment_once py_str server gt (pc_item call) (transition_marker (pc_idempotency_key call)) (marked_comment call)) (\<lambda>already.
    io_return \<lparr>pt_applied = True, pt_details =
      [(''idempotency_key'', JStr (pc_idempotency_key call)),
       (''comment'', JStr (if already then ''already_exists'' else ''created'')),
       (''added_labels'', JArr (map JStr (sorted_list_of_set (pc_add_labels call)))), (''removed_labels'', JArr removed)]\<rparr>))"
  using assms
  by (simp add: github_apply_def label_steps_def comment_once_def marked_comment_def Let_def io_bind_assoc del: io_simps)

definition label_delete :: "github_adapter \<Rightarrow> work_item \<Rightarrow> string \<Rightarrow> http_request" where
  "label_delete gt item label = \<lparr>hq_method = ''DELETE'',
     hq_url = gt_base_url gt @ issue_path gt item @ ''/labels/'' @ url_quote label, hq_token = gt_token gt, hq_body = None\<rparr>"

lemma io_bind_return_fst: "fst (io_bind m (\<lambda>x. io_return (f x)) h) = fst (m h)"
  by (simp add: io_bind_simp split: prod.split sum.split)

lemma remove_labels_Cons:
  "remove_labels server gt item (label # labels) h =
    (case github_reply True (server h (label_delete gt item label)) of
       Inl e \<Rightarrow> (h @ [label_delete gt item label], Inl e)
     | Inr (JObj d) \<Rightarrow> io_bind (remove_labels server gt item labels) (\<lambda>removed.
             io_return (JObj [(''label'', JStr label), (''status'',
               JStr (if truthy (dict_get d ''not_found'') then ''already_absent'' else ''removed''))] # removed))
             (h @ [label_delete gt item label])
     | Inr _ \<Rightarrow> (h @ [label_delete gt item label], Inl (AttributeError ''get'')))"
  by (simp add: io_bind_simp [of "github_request _ _ _ _ _ _"] github_request_simp label_delete_def Let_def
      split: sum.split json.split)

declare remove_labels.simps(2) [simp del]

lemma remove_labels_requests:
  "\<exists>rs. fst (remove_labels server gt item labels h) = h @ rs \<and>
     (\<forall>r\<in>set rs. \<exists>l. hq_url r = gt_base_url gt @ issue_path gt item @ ''/labels/'' @ url_quote l)"
proof (induction labels arbitrary: h)
  case (Cons label labels)
  let ?rq = "label_delete gt item label"
  obtain rs where rs: "fst (remove_labels server gt item labels (h @ [?rq])) = (h @ [?rq]) @ rs"
    "\<forall>r\<in>set rs. \<exists>l. hq_url r = gt_base_url gt @ issue_path gt item @ ''/labels/'' @ url_quote l"
    using Cons.IH [of "h @ [?rq]"] by blast
  have "fst (remove_labels server gt item (label # labels) h) = h @ [?rq] \<or>
      fst (remove_labels server gt item (label # labels) h) = h @ ?rq # rs"
    using rs(1) by (simp add: remove_labels_Cons io_bind_return_fst split: sum.split json.split)
  moreover have "hq_url ?rq = gt_base_url gt @ issue_path gt item @ ''/labels/'' @ url_quote label"
    by (simp add: label_delete_def)
  ultimately show ?case using rs(2) by (elim disjE) (intro exI conjI, assumption, fastforce)+
qed simp

lemma label_urls:
  "gt_base_url gt @ issue_path gt item @ ''/labels'' \<noteq> gt_base_url gt @ issue_path gt item @ ''/comments''"
  "gt_base_url gt @ issue_path gt item @ ''/labels/'' @ q \<noteq> gt_base_url gt @ issue_path gt item @ ''/comments''"
  by simp_all

text \<open>
  GitHub answers the removal of a label with the list of the labels that remain. With such replies the
  adapter raises after its first removal: the labels are changed but no comment is posted.
\<close>

lemma label_removal_list_reply:
  assumes "wi_kind (pc_item call) = ''issue''" "pc_add_labels call = {}" "finite (pc_remove_labels call)" "pc_remove_labels call \<noteq> {}"
    and "\<And>h rq. hq_method rq = ''DELETE'' \<Longrightarrow> \<exists>ls. server h rq = HttpJson (JArr ls)"
  shows "\<exists>rq. github_apply py_str server gt call h = (h @ [rq], Inl (AttributeError ''get'')) \<and> hq_method rq = ''DELETE''"
proof -
  obtain l ls where l: "sorted_list_of_set (pc_remove_labels call) = l # ls"
    using assms(3,4) by (metis list.exhaust sorted_list_of_set_eq_Nil_iff)
  let ?rq = "label_delete gt (pc_item call) l"
  have d: "hq_method ?rq = ''DELETE''" by (simp add: label_delete_def)
  obtain xs where "server h ?rq = HttpJson (JArr xs)" using assms(5) [OF d] by blast
  then have "github_apply py_str server gt call h = (h @ [?rq], Inl (AttributeError ''get''))"
    using assms(1,2) l
    by (simp add: github_apply_steps label_steps_def io_bind_simp remove_labels_Cons github_reply_def)
  with d show ?thesis by blast
qed

lemma label_steps_requests:
  "\<exists>rs. fst (label_steps server gt call h) = h @ rs \<and>
     (\<forall>rq\<in>set rs. hq_url rq \<noteq> gt_base_url gt @ issue_path gt (pc_item call) @ ''/comments'')"
proof -
  let ?rm = "remove_labels server gt (pc_item call) (sorted_list_of_set (pc_remove_labels call))"
  have rm: "\<exists>rs. fst (?rm g) = g @ rs \<and>
      (\<forall>rq\<in>set rs. hq_url rq \<noteq> gt_base_url gt @ issue_path gt (pc_item call) @ ''/comments'')" for g
    using remove_labels_requests [of server gt "pc_item call" _ g] label_urls(2) by (metis (no_types, lifting))
  show ?thesis
  proof (cases "pc_add_labels call = {}")
    case True
    then show ?thesis using rm [of h] by (simp add: label_steps_def)
  next
    case False
    let ?rq = "\<lparr>hq_method = ''POST'', hq_url = gt_base_url gt @ issue_path gt (pc_item call) @ ''/labels'', hq_token = gt_token gt,
        hq_body = Some (JObj [(''labels'', JArr (map JStr (sorted_list_of_set (pc_add_labels call))))])\<rparr>"
    have "fst (label_steps server gt call h) = h @ [?rq] \<or> fst (label_steps server gt call h) = fst (?rm (h @ [?rq]))"
      using False by (simp add: label_steps_def io_bind_simp github_request_simp Let_def split: sum.split)
    then show ?thesis
    proof
      assume "fst (label_steps server gt call h) = fst (?rm (h @ [?rq]))"
      moreover obtain rs where "fst (?rm (h @ [?rq])) = (h @ [?rq]) @ rs"
        "\<forall>rq\<in>set rs. hq_url rq \<noteq> gt_base_url gt @ issue_path gt (pc_item call) @ ''/comments''"
        using rm by blast
      ultimately show ?thesis by (intro exI [of _ "?rq # rs"]) simp
    qed (intro exI [of _ "[?rq]"], simp)
  qed
qed

section \<open>Properties\<close>

text \<open>
  What is assumed of the server: a comment it has accepted is in every later list of the comments of its
  issue, with its text.
\<close>

definition keeps_comments :: "http_server \<Rightarrow> github_adapter \<Rightarrow> work_item \<Rightarrow> bool" where
  "keeps_comments server gt item \<longleftrightarrow>
     (\<forall>before later t j. github_reply False (server before (comment_post gt item t)) = Inr j \<longrightarrow>
        (\<exists>cs d. server (before @ comment_post gt item t # later) (comment_list gt item) = HttpJson (JArr cs) \<and>
           JObj d \<in> set cs \<and> dict_get d ''body'' = JStr t))"

lemma comment_once_created:
  assumes "comment_once py_str server gt item marker t h = (h1, Inr False)"
  obtains before j where "h1 = before @ [comment_post gt item t]" "github_reply False (server before (comment_post gt item t)) = Inr j"
  using assms
  by (auto simp: comment_once_def io_bind_simp comment_exists_def github_request_simp comment_post_def Let_def
      split: sum.splits prod.splits if_splits)

lemma comment_once_known:
  assumes "server h (comment_list gt item) = HttpJson (JArr cs)" "JObj d \<in> set cs" "dict_get d ''body'' = JStr (t @ marker)" "marker \<noteq> []"
  shows "comment_once py_str server gt item marker t' h = (h @ [comment_list gt item], Inr True)"
proof -
  have "list_ex (\<lambda>x. case x of
      JObj d \<Rightarrow> contains_str marker (if truthy (dict_get d ''body'') then json_str py_str (dict_get d ''body'') else [])
    | _ \<Rightarrow> False) cs"
  proof -
    have "contains_str marker (t @ marker)"
      unfolding contains_str_iff by (rule exI [of _ t], rule exI [of _ "[]"]) simp
    then show ?thesis
      unfolding list_ex_iff using assms(3,4) by (intro bexI [OF _ assms(2)]) simp
  qed
  then show ?thesis
    using assms(1)
    by (simp add: comment_once_def comment_exists_def io_bind_simp github_request_simp comment_list_def Let_def github_reply_def)
qed

text \<open>
  A transition comments once. After a call of the GitHub adapter that created its
  comment, a later call with the same idempotency key, whatever requests were made in between, posts no
  comment: the only requests it makes are for labels and the list of comments, and it reports the comment as
  already there. The server is only assumed to list the comments it has accepted.
\<close>

theorem github_comment_once:
  assumes "wi_kind (pc_item call) = ''issue''" "keeps_comments server gt (pc_item call)"
    and "github_apply py_str server gt call h = (h1, Inr res)" "dict_get (pt_details res) ''comment'' = JStr ''created''"
    and "github_apply py_str server gt call (h1 @ between) = (h2, res2)"
  shows "\<exists>made. h2 = h1 @ between @ made \<and>
    (\<forall>rq\<in>set made. hq_url rq \<noteq> gt_base_url gt @ issue_path gt (pc_item call) @ ''/comments'') \<and>
    (\<forall>r. res2 = Inr r \<longrightarrow> dict_get (pt_details r) ''comment'' = JStr ''already_exists'')"
proof -
  let ?item = "pc_item call" and ?m = "transition_marker (pc_idempotency_key call)" and ?t = "marked_comment call"
  have t: "?t = (pc_comment call @ [newline, newline]) @ ?m" by (simp add: marked_comment_def)
  from assms(3,4) obtain g where "comment_once py_str server gt ?item ?m ?t g = (h1, Inr False)"
    by (auto simp: github_apply_steps [OF assms(1)] io_bind_simp split: prod.splits sum.splits if_splits)
  then obtain before j where b: "h1 = before @ [comment_post gt ?item ?t]"
    "github_reply False (server before (comment_post gt ?item ?t)) = Inr j"
    by (rule comment_once_created)
  obtain ls where ls: "fst (label_steps server gt call (h1 @ between)) = h1 @ between @ ls"
    "\<forall>rq\<in>set ls. hq_url rq \<noteq> gt_base_url gt @ issue_path gt ?item @ ''/comments''"
    using label_steps_requests [of server gt call "h1 @ between"] by auto
  have known: "comment_once py_str server gt ?item ?m ?t (h1 @ between @ ls) = (h1 @ between @ ls @ [comment_list gt ?item], Inr True)"
  proof -
    obtain cs d where "server (before @ comment_post gt ?item ?t # between @ ls) (comment_list gt ?item) = HttpJson (JArr cs)"
      "JObj d \<in> set cs" "dict_get d ''body'' = JStr ?t"
      using assms(2) b(2) unfolding keeps_comments_def by blast
    then show ?thesis
      using comment_once_known [where h = "h1 @ between @ ls" and t = "pc_comment call @ [newline, newline]" and marker = ?m] b(1) t
      by (simp add: transition_marker_def)
  qed
  have l: "hq_url (comment_list gt ?item) \<noteq> gt_base_url gt @ issue_path gt ?item @ ''/comments''"
    by (simp add: comment_list_def)
  show ?thesis
  proof (cases "snd (label_steps server gt call (h1 @ between))")
    case (Inl e)
    with ls(1) assms(5) have "h2 = h1 @ between @ ls \<and> res2 = Inl e"
      by (auto simp: github_apply_steps [OF assms(1)] io_bind_simp split: prod.splits)
    with ls(2) show ?thesis by auto
  next
    case (Inr removed)
    with ls(1) assms(5) known have "h2 = h1 @ between @ ls @ [comment_list gt ?item] \<and>
        (\<exists>r. res2 = Inr r \<and> dict_get (pt_details r) ''comment'' = JStr ''already_exists'')"
      by (auto simp: github_apply_steps [OF assms(1)] io_bind_simp split: prod.splits)
    with ls(2) l show ?thesis by auto
  qed
qed

text \<open>A server that keeps the bodies posted to it.\<close>

definition memory_server :: http_server where
  "memory_server h rq = (if hq_method rq = ''GET'' then
     HttpJson (JArr (List.map_filter hq_body (filter (\<lambda>r. hq_method r = ''POST'') h))) else HttpJson (JObj []))"

lemma memory_server_keeps: "keeps_comments memory_server gt item"
  unfolding keeps_comments_def
proof (intro allI impI)
  fix before later t j
  let ?h = "before @ comment_post gt item t # later"
  have "memory_server ?h (comment_list gt item) =
      HttpJson (JArr (List.map_filter hq_body (filter (\<lambda>r. hq_method r = ''POST'') ?h)))"
    by (simp add: memory_server_def comment_list_def)
  moreover have "JObj [(''body'', JStr t)] \<in> set (List.map_filter hq_body (filter (\<lambda>r. hq_method r = ''POST'') ?h))"
    by (simp add: List.map_filter_def comment_post_def)
  moreover have "dict_get [(''body'', JStr t)] ''body'' = JStr t" by simp
  ultimately show "\<exists>cs d. memory_server ?h (comment_list gt item) = HttpJson (JArr cs) \<and>
      JObj d \<in> set cs \<and> dict_get d ''body'' = JStr t" by blast
qed

definition sample_call :: provider_call where
  "sample_call = \<lparr>pc_item = \<lparr>wi_provider = ''github'', wi_repository_id = ''o/r'', wi_kind = ''issue'', wi_external_id = ''7'',
     wi_title = ''t'', wi_body = ''b'', wi_body_hash = ''h'', wi_url = ''u'', wi_labels = [], wi_assignees = [], wi_updated_at = None\<rparr>,
     pc_add_labels = {''hermes:builder''}, pc_remove_labels = {''hermes:planner''}, pc_comment = ''done'', pc_idempotency_key = ''k''\<rparr>"

theorem github_comment_once_witness:
  "\<exists>h1 res h2 res2. github_apply (\<lambda>_. []) memory_server \<lparr>gt_token = ''t'', gt_base_url = ''b'', gt_repository = ''o/r''\<rparr> sample_call []
       = (h1, Inr res) \<and> dict_get (pt_details res) ''comment'' = JStr ''created'' \<and>
     github_apply (\<lambda>_. []) memory_server \<lparr>gt_token = ''t'', gt_base_url = ''b'', gt_repository = ''o/r''\<rparr> sample_call h1
       = (h2, Inr res2) \<and> dict_get (pt_details res2) ''comment'' = JStr ''already_exists''"
proof -
  let ?gt = "\<lparr>gt_token = ''t'', gt_base_url = ''b'', gt_repository = ''o/r''\<rparr>"
  let ?a = "github_apply (\<lambda>_. []) memory_server ?gt sample_call"
  have "case ?a [] of (h1, Inr res) \<Rightarrow> (case dict_get (pt_details res) ''comment'' of JStr s \<Rightarrow> s = ''created'' | _ \<Rightarrow> False) \<and>
      (case ?a (h1 @ []) of (_, Inr _) \<Rightarrow> True | _ \<Rightarrow> False) | _ \<Rightarrow> False" by code_simp
  then obtain h1 res h2 res2 where r: "?a [] = (h1, Inr res)" "dict_get (pt_details res) ''comment'' = JStr ''created''"
    "?a (h1 @ []) = (h2, Inr res2)"
    by (auto split: prod.splits sum.splits json.splits)
  have "wi_kind (pc_item sample_call) = ''issue''" by (simp add: sample_call_def)
  from github_comment_once [OF this memory_server_keeps r] r show ?thesis by auto
qed

end
