(* ===== verification/HermesClient.thy ===== *)
theory HermesClient
  imports Providers
begin

text \<open>
  \<open>hermes_client.py\<close>: what the orchestrator sends to its Hermes gateway and how it reads the replies,
  and the loop that waits for a repair run. Replies are parameters; the clock of the loop is a function of the
  number of polls made.
\<close>

record submit_call =
  sb_model :: string
  sb_session_id :: string
  sb_prompt :: string
  sb_idempotency_key :: string

text \<open>The body and headers that matter of \<open>POST /v1/runs\<close>.\<close>

record hermes_request =
  hm_method :: string
  hm_url :: string
  hm_api_key :: string
  hm_idempotency_key :: "string option"
  hm_body :: "json option"

definition submit_request :: "config \<Rightarrow> submit_call \<Rightarrow> hermes_request" where
  "submit_request cf call = \<lparr>hm_method = ''POST'', hm_url = cf_hermes_url cf @ ''/v1/runs'', hm_api_key = cf_api_server_key cf,
     hm_idempotency_key = Some (sb_idempotency_key call),
     hm_body = Some (JObj [(''model'', JStr (sb_model call)), (''session_id'', JStr (sb_session_id call)),
       (''input'', JStr (sb_prompt call))])\<rparr>"

definition get_request :: "config \<Rightarrow> string \<Rightarrow> hermes_request" where
  "get_request cf run_id = \<lparr>hm_method = ''GET'', hm_url = cf_hermes_url cf @ ''/v1/runs/'' @ run_id,
     hm_api_key = cf_api_server_key cf, hm_idempotency_key = None, hm_body = None\<rparr>"

text \<open>\<open>_json\<close>: the reply of a request, for a run id if a missing run has an exception of its own.\<close>

definition hermes_json :: "string option \<Rightarrow> http_reply \<Rightarrow> json result" where
  "hermes_json missing_run_id reply =
     (case reply of
        HttpNoContent \<Rightarrow> Inr (JObj [])
      | HttpJson j \<Rightarrow> Inr j
      | HttpBadJson \<Rightarrow> Inl (ValueError ''JSONDecodeError'')
      | HttpStatus code _ detail \<Rightarrow>
          (case missing_run_id of
             Some run_id \<Rightarrow>
               if code = 404 \<and> contains_str ''run_not_found'' detail
               then Inl (HermesRunNotFound (''Hermes run not found: '' @ run_id @ '': '' @ detail))
               else Inl (RuntimeError (''Hermes API request failed: HTTP '' @ str_of_int (int code) @ '': '' @ detail))
           | None \<Rightarrow> Inl (RuntimeError (''Hermes API request failed: HTTP '' @ str_of_int (int code) @ '': '' @ detail)))
      | HttpFailure t \<Rightarrow> Inl (RuntimeError (''Hermes API request failed: '' @ t)))"

definition get_run :: "(hermes_request \<Rightarrow> http_reply) \<Rightarrow> config \<Rightarrow> string \<Rightarrow> json result" where
  "get_run server cf run_id = hermes_json (Some run_id) (server (get_request cf run_id))"

definition submit_run :: "(hermes_request \<Rightarrow> http_reply) \<Rightarrow> config \<Rightarrow> submit_call \<Rightarrow> json result" where
  "submit_run server cf call = hermes_json None (server (submit_request cf call))"

definition extract_run_id :: "(json \<Rightarrow> string) \<Rightarrow> json \<Rightarrow> string result" where
  "extract_run_id py_str response = (case response of
     JObj d \<Rightarrow>
       if truthy (dict_get d ''id'') then Inr (json_str py_str (dict_get d ''id''))
       else if truthy (dict_get d ''run_id'') then Inr (json_str py_str (dict_get d ''run_id''))
       else Inl (RuntimeError ''Hermes /v1/runs response did not contain id or run_id'')
   | _ \<Rightarrow> Inl (AttributeError ''get''))"

section \<open>Waiting for a repair run\<close>

text \<open>\<open>str(payload.get(''status'') or payload.get(''state'') or '''').lower()\<close>.\<close>

definition repair_status :: "(json \<Rightarrow> string) \<Rightarrow> pydict \<Rightarrow> string" where
  "repair_status py_str payload =
     py_lower (if truthy (dict_get payload ''status'') then json_str py_str (dict_get payload ''status'')
               else if truthy (dict_get payload ''state'') then json_str py_str (dict_get payload ''state'') else [])"

text \<open>
  The loop. \<open>clock n\<close> is \<open>time.monotonic()\<close> when its condition is tested for the \<open>n\<close>-th time,
  \<open>poll n\<close> the reply to the \<open>n\<close>-th request. Whether it returns is to be proved.
\<close>

partial_function (option) await_repair ::
  "(pyfloat \<Rightarrow> string) \<Rightarrow> (json \<Rightarrow> string) \<Rightarrow> (nat \<Rightarrow> rat) \<Rightarrow> (nat \<Rightarrow> http_reply) \<Rightarrow> string \<Rightarrow> rat \<Rightarrow> int \<Rightarrow> nat
    \<Rightarrow> pydict result option" where
  "await_repair fr py_str clock poll run_id deadline timeout_seconds n =
     (if clock n \<le> deadline then
        (case hermes_json (Some run_id) (poll n) of
           Inl e \<Rightarrow> Some (Inl e)
         | Inr j \<Rightarrow>
             (case j of
                JObj payload \<Rightarrow>
                  let status = repair_status py_str payload in
                  if status \<in> {''completed'', ''succeeded'', ''success'', ''done''} then Some (Inr payload)
                  else if status \<in> {''failed'', ''error'', ''cancelled'', ''canceled''}
                  then Some (Inl (RuntimeError (''Repair run ended with status '' @ status @ '': '' @ dumps_spaced fr (JObj payload))))
                  else await_repair fr py_str clock poll run_id deadline timeout_seconds (n + 1)
              | _ \<Rightarrow> Some (Inl (AttributeError ''get''))))
      else Some (Inl (TimeoutError (''Repair run timed out after '' @ str_of_int timeout_seconds @ '' seconds''))))"

definition repair_final_response ::
  "(pyfloat \<Rightarrow> string) \<Rightarrow> (json \<Rightarrow> string) \<Rightarrow> (hermes_request \<Rightarrow> http_reply) \<Rightarrow> config \<Rightarrow> submit_call \<Rightarrow> int
    \<Rightarrow> rat \<Rightarrow> (nat \<Rightarrow> rat) \<Rightarrow> (nat \<Rightarrow> http_reply) \<Rightarrow> pydict result option" where
  "repair_final_response fr py_str server cf call timeout_seconds start clock poll =
     (case result_bind (submit_run server cf call) (extract_run_id py_str) of
        Inl e \<Rightarrow> Some (Inl e)
      | Inr run_id \<Rightarrow> await_repair fr py_str clock poll run_id (start + of_int timeout_seconds) timeout_seconds 0)"

lemma await_repair_returns:
  assumes sleep: "\<And>n. clock n + 2 \<le> clock (n + 1)"
  shows "\<exists>r. await_repair fr py_str clock poll run_id deadline t n = Some r \<and>
    (\<forall>p. r = Inr p \<longrightarrow> repair_status py_str p \<in> {''completed'', ''succeeded'', ''success'', ''done''})"
proof (induction "nat \<lceil>deadline - clock n\<rceil> + (if clock n \<le> deadline then 1 else 0)" arbitrary: n rule: less_induct)
  case less
  show ?case
  proof (cases "clock n \<le> deadline")
    case False
    then show ?thesis by (simp add: await_repair.simps)
  next
    case True
    have step: "clock n + 2 \<le> clock (n + 1)" by (rule sleep)
    then have "\<lceil>deadline - clock (n + 1)\<rceil> \<le> \<lceil>deadline - clock n - 2\<rceil>" by (intro ceiling_mono) simp
    also have "\<dots> = \<lceil>deadline - clock n\<rceil> - 2" by (metis ceiling_diff_numeral)
    finally have "nat \<lceil>deadline - clock (n + 1)\<rceil> + (if clock (n + 1) \<le> deadline then 1 else 0)
        < nat \<lceil>deadline - clock n\<rceil> + (if clock n \<le> deadline then 1 else 0)"
      using True step by (auto simp: not_le split: if_splits)
    note ih = less.hyps [OF this]
    show ?thesis
      using True ih
      by (subst (1) await_repair.simps) (auto simp: Let_def split: sum.split json.split)
  qed
qed

section \<open>Properties\<close>

text \<open>
  (C38) Waiting for a repair ends. Because every round of the loop sleeps two seconds, the
  call returns or raises after finitely many polls, whatever the gateway replies; if it returns a payload, the
  gateway reported that repair run as completed.
\<close>

theorem repair_wait_terminates:
  assumes "\<And>n. clock n + 2 \<le> clock (n + 1)"
  shows "\<exists>r. repair_final_response fr py_str server cf call timeout_seconds start clock poll = Some r \<and>
    (\<forall>p. r = Inr p \<longrightarrow> repair_status py_str p \<in> {''completed'', ''succeeded'', ''success'', ''done''})"
  using await_repair_returns [of clock fr py_str poll _ _ timeout_seconds 0, OF assms]
  by (auto simp: repair_final_response_def split: sum.split)

theorem repair_wait_terminates_witness:
  "\<forall>cf call. \<exists>r. repair_final_response (\<lambda>_. ''0.5'') (\<lambda>_. []) (\<lambda>_. HttpJson (JObj [(''id'', JStr ''r1'')])) cf call 120 0
     (\<lambda>n. 2 * of_nat n) (\<lambda>_. HttpJson (JObj [(''status'', JStr ''running'')])) = Some r"
proof (intro allI)
  fix cf call
  have clock: "2 * of_nat n + 2 \<le> (2 * of_nat (n + 1) :: rat)" for n by simp
  show "\<exists>r. repair_final_response (\<lambda>_. ''0.5'') (\<lambda>_. []) (\<lambda>_. HttpJson (JObj [(''id'', JStr ''r1'')])) cf call 120 0
     (\<lambda>n. 2 * of_nat n) (\<lambda>_. HttpJson (JObj [(''status'', JStr ''running'')])) = Some r"
    by (rule ex_forward [OF repair_wait_terminates [where clock = "\<lambda>n. 2 * of_nat n", OF clock]]) (erule conjunct1)
qed

end
