(* ===== verification/Tick.thy ===== *)
theory Tick
  imports ReconcileFacts HermesClient Prompts
begin

text \<open>
  \<open>cli.py\<close>: the commands of the orchestrator. \<open>run_once\<close> is one tick: under the lock and inside one
  transaction it reconciles the active runs, stores the issues that match the role, and starts pending
  assignments. An exception anywhere rolls the transaction back, which is the result \<open>Inl\<close>.
\<close>

section \<open>The environment of a tick\<close>

text \<open>
  \<open>tv_recon\<close> is the environment of the pass but for the gateway and the adapter, which come from the
  configuration. \<open>tv_history\<close> are the provider requests made before a call of the adapter, \<open>tv_now\<close> is the
  time of the operations after the pass.
\<close>

record tick_env =
  tv_recon :: recon_env
  tv_hermes :: "hermes_request \<Rightarrow> http_reply"
  tv_provider :: http_server
  tv_history :: "provider_call \<Rightarrow> http_request list"
  tv_now :: int

definition transition_adapter :: "tick_env \<Rightarrow> config \<Rightarrow> adapter option result" where
  "transition_adapter env cf =
     (if \<not> cf_apply_transitions cf then Inr None
      else if cf_provider cf = ''github'' then
        result_bind (make_github_adapter cf) (\<lambda>gt.
          Inr (Some (\<lambda>call. snd (github_apply (ev_py_str (tv_recon env)) (tv_provider env) gt call (tv_history env call)))))
      else if cf_provider cf = ''gitlab'' then Inr (Some gitlab_apply)
      else Inr None)"

definition fetch_items :: "tick_env \<Rightarrow> config \<Rightarrow> work_item list result" where
  "fetch_items env cf =
     (let py_str = ev_py_str (tv_recon env); sha = ev_sha (tv_recon env) in
      if cf_provider cf = ''github'' then snd (github_fetch_issues (tv_provider env) py_str sha cf [])
      else if cf_provider cf = ''gitlab'' then snd (gitlab_fetch_issues (tv_provider env) py_str sha cf [])
      else Inr [])"

definition pass_env :: "tick_env \<Rightarrow> config \<Rightarrow> adapter option \<Rightarrow> recon_env" where
  "pass_env env cf adapter = (tv_recon env)\<lparr>ev_get_run := get_run (tv_hermes env) cf, ev_adapter := adapter\<rparr>"

section \<open>The steps of a tick\<close>

text \<open>Counters \<open>matched\<close> and \<open>created\<close> of the loop over the fetched items.\<close>

fun store_items :: "(string \<Rightarrow> string) \<Rightarrow> int \<Rightarrow> config \<Rightarrow> work_item list \<Rightarrow> nat \<times> nat \<times> orch_db \<Rightarrow> nat \<times> nat \<times> orch_db" where
  "store_items sha now cf [] st = st"
| "store_items sha now cf (item # items) (matched, created, db) =
     (if \<not> matches_role item cf then store_items sha now cf items (matched, created, db)
      else
        (case upsert_work_item now item db of (work_item_id, db1) \<Rightarrow>
         (case ensure_assignment now (assignment_key sha item (cf_role cf)) work_item_id (cf_role cf) db1 of (new, db2) \<Rightarrow>
            store_items sha now cf items (matched + 1, created + (if new then 1 else 0), db2))))"

definition start_assignment :: "tick_env \<Rightarrow> config \<Rightarrow> assignment_row \<times> work_row \<Rightarrow> orch_db \<Rightarrow> (submit_call \<times> orch_db) result" where
  "start_assignment env cf row db =
     (let item = row_to_work_item (snd row);
          key = sg_key (fst row);
          sid = session_id item (cf_role cf)
      in result_bind (build_prompt item (cf_role cf) key) (\<lambda>prompt.
         let call = \<lparr>sb_model = ''hermes-'' @ cf_role cf, sb_session_id = sid, sb_prompt = prompt, sb_idempotency_key = key\<rparr>
         in result_bind (submit_run (tv_hermes env) cf call) (\<lambda>response.
            result_bind (extract_run_id (ev_py_str (tv_recon env)) response) (\<lambda>run_id.
            result_bind (mark_assignment_started (tv_now env) key run_id (Some sid) db) (\<lambda>db'.
            Inr (call, db'))))))"

fun start_rows :: "tick_env \<Rightarrow> config \<Rightarrow> (assignment_row \<times> work_row) list \<Rightarrow> submit_call list \<times> orch_db
    \<Rightarrow> (submit_call list \<times> orch_db) result" where
  "start_rows env cf [] st = Inr st"
| "start_rows env cf (row # rows) (calls, db) =
     result_bind (start_assignment env cf row db) (\<lambda>(call, db'). start_rows env cf rows (calls @ [call], db'))"

definition start_pending :: "tick_env \<Rightarrow> config \<Rightarrow> orch_db \<Rightarrow> (submit_call list \<times> orch_db) result" where
  "start_pending env cf db =
     start_rows env cf (pending_assignments (tv_now env) (cf_role cf) (cf_max_starts_per_tick cf) db) ([], db)"

text \<open>What \<open>run_once\<close> reports; the requests made stand for \<open>started_runs\<close> and the effects of the pass.\<close>

record tick_report =
  tk_fetched :: nat
  tk_matched :: nat
  tk_created :: nat
  tk_started :: "submit_call list"
  tk_summary :: recon_summary
  tk_effects :: "effect list"

datatype tick_result = NoOp string | Ticked tick_report

definition run_once :: "tick_env \<Rightarrow> config \<Rightarrow> bool \<Rightarrow> db_schema \<Rightarrow> orch_db \<Rightarrow> (tick_result \<times> orch_db) result" where
  "run_once env cf lock_acquired sch db =
     (if \<not> cf_enabled cf then Inr (NoOp ''orchestrator disabled'', db)
      else if \<not> lock_acquired then Inr (NoOp ''lock held'', db)
      else
        result_bind (init_db sch db) (\<lambda>db0.
        result_bind (transition_adapter env cf) (\<lambda>adapter.
        result_bind (reconcile (pass_env env cf adapter) cf db0) (\<lambda>(summary, effects, db1).
        result_bind (fetch_items env cf) (\<lambda>items.
        case store_items (ev_sha (tv_recon env)) (tv_now env) cf items (0, 0, db1) of (matched, created, db2) \<Rightarrow>
        result_bind (start_pending env cf db2) (\<lambda>(started, db3).
        Inr (Ticked \<lparr>tk_fetched = length items, tk_matched = matched, tk_created = created, tk_started = started,
               tk_summary = summary, tk_effects = effects\<rparr>, db3)))))))"

text \<open>What is left in the file afterwards.\<close>

definition tick_db :: "tick_env \<Rightarrow> config \<Rightarrow> bool \<Rightarrow> db_schema \<Rightarrow> orch_db \<Rightarrow> orch_db" where
  "tick_db env cf lock_acquired sch db =
     (case run_once env cf lock_acquired sch db of Inl _ \<Rightarrow> db | Inr (_, db') \<Rightarrow> db')"

definition reconcile_only :: "tick_env \<Rightarrow> config \<Rightarrow> db_schema \<Rightarrow> orch_db \<Rightarrow> recon_state result" where
  "reconcile_only env cf sch db =
     result_bind (init_db sch db) (\<lambda>db0.
     result_bind (transition_adapter env cf) (\<lambda>adapter. reconcile (pass_env env cf adapter) cf db0))"

section \<open>Operator commands\<close>

record status_report =
  sp_role :: string
  sp_enabled :: bool
  sp_apply_transitions :: bool
  sp_transition_comment_only :: bool
  sp_counts :: "(string \<times> nat) list"
  sp_assignment_statuses :: "(string \<times> nat) list"
  sp_run_statuses :: "(string \<times> nat) list"
  sp_queue :: "nat \<times> nat \<times> nat"

definition status_command :: "int \<Rightarrow> config \<Rightarrow> db_schema \<Rightarrow> orch_db \<Rightarrow> (status_report \<times> orch_db) result" where
  "status_command now cf sch db0 =
     result_bind (init_db sch db0) (\<lambda>db.
     Inr (\<lparr>sp_role = cf_role cf, sp_enabled = cf_enabled cf, sp_apply_transitions = cf_apply_transitions cf,
        sp_transition_comment_only = cf_transition_comment_only cf, sp_counts = table_counts db,
        sp_assignment_statuses = assignment_status_counts (Some (cf_role cf)) db,
        sp_run_statuses = run_status_counts (Some (cf_role cf)) db, sp_queue = queue_counts now (cf_role cf) db\<rparr>, db))"

definition safe_statuses :: "string set" where
  "safe_statuses = {''BLOCKED_CONFIG'', ''FAILED_FINAL'', ''LOST'', ''FAILED''}"

text \<open>\<open>Inl\<close> of the report: the rows a dry run shows; \<open>Inr\<close>: how many were requeued.\<close>

definition requeue_command :: "int \<Rightarrow> config \<Rightarrow> string option \<Rightarrow> string list \<Rightarrow> int option \<Rightarrow> bool \<Rightarrow> db_schema \<Rightarrow> orch_db
    \<Rightarrow> (nat \<times> (assignment_row list + nat) \<times> orch_db) result" where
  "requeue_command now cf key statuses limit dry_run sch db0 =
     (let selected = (if statuses \<noteq> [] then (\<lambda>s. py_upper (py_strip s)) ` set statuses else safe_statuses)
      in result_bind (init_db sch db0) (\<lambda>db.
         let matches = matching_requeue_assignments (cf_role cf) selected key limit db
         in if dry_run then Inr (length matches, Inl matches, db)
            else (case requeue_assignments now (cf_role cf) selected key limit db of
              (requeued, db') \<Rightarrow> Inr (length matches, Inr requeued, db'))))"

section \<open>Attempts\<close>

text \<open>The attempts used never exceed the limit, a pending assignment has one left, and the attempts
  counted are the runs recorded.\<close>

definition runs_of :: "string \<Rightarrow> orch_db \<Rightarrow> nat" where
  "runs_of key db = count_list (map rn_key (od_runs db)) key"

definition attempts_within :: "config \<Rightarrow> orch_db \<Rightarrow> bool" where
  "attempts_within cf db \<longleftrightarrow>
     (\<forall>a\<in>set (od_assignments db). int (sg_attempt_count a) \<le> cf_max_attempts_per_assignment cf \<and>
        (sg_status a = ''PENDING'' \<longrightarrow> int (sg_attempt_count a) < cf_max_attempts_per_assignment cf)) \<and>
     (\<forall>r\<in>active_rows db. \<forall>a\<in>set (od_assignments db). sg_key a = rn_key r \<longrightarrow> rn_attempt_number r = sg_attempt_count a) \<and>
     (\<forall>a\<in>set (od_assignments db). runs_of (sg_key a) db = sg_attempt_count a)"

lemma same_assignment:
  "orch_wf db \<Longrightarrow> a \<in> set (od_assignments db) \<Longrightarrow> b \<in> set (od_assignments db) \<Longrightarrow> sg_key a = sg_key b \<Longrightarrow> a = b"
  by (drule orch_wfD(2)) (rule distinct_map_eq)

lemma reconcile_wf:
  assumes "orch_wf db" "reconcile ev cf db = Inr (s, effs, db')"
  shows "orch_wf db'"
  using reconcile_explained [OF assms] orch_wf_steps [OF _ assms(1)] by (simp add: pass_explained_def)

lemma reconcile_run_keys:
  assumes "reconcile ev cf db = Inr (s, effs, db')"
  shows "map rn_key (od_runs db') = map rn_key (od_runs db)"
proof -
  have one: "map rn_key (od_runs db') = map rn_key (od_runs db)"
    if run: "reconcile_run ev cf run (s, effs, db) = Inr (s', effs', db')" for run s effs db s' effs' db'
  proof (cases "settled ev cf run")
    case True
    with reconcile_run_found [OF run] obtain oc where "finished_by ev run oc db db'"
      by auto
    from finished_by_tables(1) [OF this] show ?thesis
      by (simp add: mark_run_finished_def update_assignment_def map_update_where)
  qed (use reconcile_run_found [OF run] in simp)
  have "reconcile_runs ev cf runs (s, effs, db) = Inr (s', effs', db') \<Longrightarrow> map rn_key (od_runs db') = map rn_key (od_runs db)"
    for runs s effs db s' effs' db'
  proof (induction runs arbitrary: s effs db)
    case (Cons run runs)
    then obtain s1 e1 d1 where "reconcile_run ev cf run (s, effs, db) = Inr (s1, e1, d1)"
      "reconcile_runs ev cf runs (s1, e1, d1) = Inr (s', effs', db')" by auto
    with Cons.IH one show ?case by simp
  qed simp
  then show ?thesis using assms unfolding reconcile_def by blast
qed

lemma reconcile_attempts:
  assumes wf: "orch_wf db" and run: "reconcile ev cf db = Inr (s, effs, db')" and old: "attempts_within cf db"
  shows "attempts_within cf db'"
proof -
  note e = reconcile_explained [OF wf run]
  have active: "active_rows db' \<subseteq> active_rows db"
    using reconcile_runs_active run unfolding reconcile_def by blast
  have count: "\<exists>a0\<in>set (od_assignments db). sg_key a0 = sg_key a \<and> sg_attempt_count a0 = sg_attempt_count a \<and>
      (sg_status a = ''PENDING'' \<longrightarrow> int (sg_attempt_count a) < cf_max_attempts_per_assignment cf)"
    if "a \<in> set (od_assignments db')" for a
  proof (cases "a \<in> set (od_assignments db)")
    case True
    then show ?thesis using old by (auto simp: attempts_within_def)
  next
    case False
    from e that False obtain pass oc a0 where pass: "pass \<in> set (active_runs db)" and j: "justified ev cf pass oc"
      and a: "sg_key a = rv_key pass" "sg_status a = outcome_assignment_status oc"
      and a0: "a0 \<in> set (od_assignments db)" "sg_key a0 = sg_key a" "sg_attempt_count a0 = sg_attempt_count a"
      unfolding pass_explained_def assignment_explained_def by blast
    from sort_by_map_filter_in [OF pass] obtain r where r: "r \<in> active_rows db" "rn_key r = rv_key pass"
      "rn_attempt_number r = rv_attempt_number pass"
      by (auto simp: active_rows_def)
    have "rv_attempt_number pass = sg_attempt_count a"
      using old r a0 a(1) by (auto simp: attempts_within_def)
    moreover have "has_attempts_remaining pass cf" if "sg_status a = ''PENDING''"
      using j that a(2) by (simp add: justified_def)
    ultimately show ?thesis using a0 by (auto simp: has_attempts_remaining_def)
  qed
  show ?thesis
    unfolding attempts_within_def
  proof (intro conjI ballI impI)
    fix a assume a: "a \<in> set (od_assignments db')"
    from count [OF a] obtain a0 where a0: "a0 \<in> set (od_assignments db)" "sg_attempt_count a0 = sg_attempt_count a"
      "sg_status a = ''PENDING'' \<longrightarrow> int (sg_attempt_count a) < cf_max_attempts_per_assignment cf" by blast
    then show "int (sg_attempt_count a) \<le> cf_max_attempts_per_assignment cf"
      using old unfolding attempts_within_def by metis
    show "int (sg_attempt_count a) < cf_max_attempts_per_assignment cf" if "sg_status a = ''PENDING''"
      using a0 that by blast
  next
    fix r a assume r: "r \<in> active_rows db'" and a: "a \<in> set (od_assignments db')" "sg_key a = rn_key r"
    from count [OF a(1)] obtain a0 where "a0 \<in> set (od_assignments db)" "sg_key a0 = rn_key r" "sg_attempt_count a0 = sg_attempt_count a"
      using a(2) by auto
    then show "rn_attempt_number r = sg_attempt_count a"
      using old r active unfolding attempts_within_def by (metis subsetD)
  next
    fix a assume "a \<in> set (od_assignments db')"
    from count [OF this] obtain a0 where "a0 \<in> set (od_assignments db)" "sg_key a0 = sg_key a" "sg_attempt_count a0 = sg_attempt_count a"
      by blast
    then show "runs_of (sg_key a) db' = sg_attempt_count a"
      using old reconcile_run_keys [OF run] unfolding attempts_within_def runs_of_def by metis
  qed
qed

subsection \<open>Storing items\<close>

lemma upsert_id_in:
  assumes "orch_wf db" "upsert_work_item now w db = (i, db')"
  shows "i \<in> wr_id ` set (od_items db')"
proof -
  let ?new = "new_item_row now (next_item_id (od_items db)) w"
  obtain r where r: "find (\<lambda>r. item_key r = item_key ?new) (upsert item_key ?new (refresh_item_row ?new) (od_items db)) = Some r"
    using find_item_after_upsert [OF orch_wfD(1) [OF assms(1)]] by blast
  then show ?thesis
    using assms(2) find_Some_in [OF r] by (auto simp: upsert_work_item_def Let_def)
qed

lemma upsert_attempts: "attempts_within cf (snd (upsert_work_item now w db)) = attempts_within cf db"
  by (simp add: upsert_work_item_def Let_def attempts_within_def active_rows_def runs_of_def)

lemma ensure_attempts:
  assumes "orch_wf db" "attempts_within cf db" "1 \<le> cf_max_attempts_per_assignment cf"
  shows "attempts_within cf (snd (ensure_assignment now key i role db))"
proof (cases "key \<in> set (map sg_key (od_assignments db))")
  case True
  then show ?thesis using assms by (simp add: ensure_assignment_def)
next
  case False
  then have none: "key \<notin> rn_key ` set (od_runs db)"
    using orch_wfD(4) [OF assms(1)] unfolding attempts_ok_def by force
  then have "rn_key r \<noteq> key" if "r \<in> active_rows db" for r
    using that by (auto simp: active_rows_def)
  then show ?thesis
    using False none assms
    by (auto simp: ensure_assignment_def attempts_within_def new_assignment_def active_rows_def runs_of_def count_list_0_iff)
qed

lemma store_items_keeps:
  assumes "store_items sha now cf items (m, c, db) = (m', c', db')" "orch_wf db" "attempts_within cf db"
    "1 \<le> cf_max_attempts_per_assignment cf"
  shows "orch_wf db' \<and> attempts_within cf db' \<and> od_runs db' = od_runs db"
  using assms
proof (induction items arbitrary: m c db)
  case (Cons item items)
  show ?case
  proof (cases "matches_role item cf")
    case False
    then show ?thesis using Cons by simp
  next
    case True
    obtain i db1 where 1: "upsert_work_item now item db = (i, db1)" by fastforce
    obtain new db2 where 2: "ensure_assignment now (assignment_key sha item (cf_role cf)) i (cf_role cf) db1 = (new, db2)"
      by fastforce
    have wf1: "orch_wf db1" using orch_wf_upsert [OF Cons.prems(2), of now item] 1 by simp
    have "orch_wf db2" using orch_wf_ensure [OF wf1 upsert_id_in [OF Cons.prems(2) 1]] 2 by (metis snd_conv)
    moreover have "attempts_within cf db2"
      using ensure_attempts [OF wf1 _ Cons.prems(4)] upsert_attempts [of cf now item db] Cons.prems(3) 1 2 by (metis snd_conv)
    moreover have "od_runs db2 = od_runs db"
      using 1 2 by (auto simp: upsert_work_item_def ensure_assignment_def Let_def split: if_splits)
    ultimately show ?thesis
      using Cons.IH [of "m + 1" "c + (if new then 1 else 0)" db2] Cons.prems(1,4) True 1 2 by simp
  qed
qed simp

subsection \<open>Starting\<close>

lemma started_attempts:
  assumes wf: "orch_wf db" and old: "attempts_within cf db" and a: "a \<in> set (od_assignments db)" "sg_status a = ''PENDING''"
    and start: "mark_assignment_started now (sg_key a) rid sid db = Inr db'"
  shows "attempts_within cf db'" and "od_runs db' = od_runs db @ [new_run now (sg_key a) rid sid (sg_attempt_count a + 1)]"
    and "\<And>b. b \<in> set (od_assignments db) \<Longrightarrow> sg_key b \<noteq> sg_key a \<Longrightarrow> b \<in> set (od_assignments db')"
proof -
  from start obtain a' where a': "find_assignment db (sg_key a) = Some a'" "\<not> has_active_run db (sg_key a)" and
    db': "db' = db\<lparr>od_assignments := update_where (\<lambda>x. sg_key x = sg_key a)
        (\<lambda>x. x\<lparr>sg_status := STARTED, sg_attempt_count := sg_attempt_count a' + 1, sg_next_retry_at := None,
               sg_blocked_reason := None, sg_last_error_code := None, sg_updated_at := now\<rparr>) (od_assignments db),
      od_runs := od_runs db @ [new_run now (sg_key a) rid sid (sg_attempt_count a' + 1)]\<rparr>"
    by (rule mark_started_Inr)
  have eq: "a' = a"
    using a' a same_assignment [OF wf] find_assignment_Some [OF orch_wfD(2) [OF wf]] by metis
  have lt: "int (sg_attempt_count a) < cf_max_attempts_per_assignment cf"
    using old a by (simp add: attempts_within_def)
  have other: "\<forall>r\<in>active_rows db. rn_key r \<noteq> sg_key a"
    using a'(2) by (auto simp: has_active_run_iff active_rows_def)
  have rows: "active_rows db' = insert (new_run now (sg_key a) rid sid (sg_attempt_count a + 1)) (active_rows db)"
    by (auto simp: active_rows_def db' eq new_run_def)
  show "attempts_within cf db'"
    using old lt other a(1) unfolding attempts_within_def rows
    by (auto simp: db' eq update_where_ball new_run_def runs_of_def)
  show "od_runs db' = od_runs db @ [new_run now (sg_key a) rid sid (sg_attempt_count a + 1)]" by (simp add: db' eq)
  show "b \<in> set (od_assignments db')" if "b \<in> set (od_assignments db)" "sg_key b \<noteq> sg_key a" for b
    using that by (auto simp: db' update_where_in_iff intro: bexI [of _ b])
qed

lemma start_assignment_Inr:
  assumes "start_assignment env cf row db = Inr (call, db')"
  obtains rid sid where "mark_assignment_started (tv_now env) (sg_key (fst row)) rid (Some sid) db = Inr db'"
    "sb_idempotency_key call = sg_key (fst row)"
  using assms by (auto simp: start_assignment_def Let_def)

lemma start_rows_keeps:
  assumes "start_rows env cf rows (calls, db) = Inr (calls', db')" "orch_wf db" "attempts_within cf db"
    and "\<And>row. row \<in> set rows \<Longrightarrow> fst row \<in> set (od_assignments db) \<and> sg_status (fst row) = ''PENDING''"
    and "distinct (map (\<lambda>row. sg_key (fst row)) rows)"
  shows "orch_wf db' \<and> attempts_within cf db' \<and>
    map sb_idempotency_key calls' = map sb_idempotency_key calls @ map (\<lambda>row. sg_key (fst row)) rows \<and>
    (\<exists>new. od_runs db' = od_runs db @ new \<and> map rn_key new = map (\<lambda>row. sg_key (fst row)) rows)"
  using assms
proof (induction rows arbitrary: calls db)
  case (Cons row rows)
  from Cons.prems(1) obtain call db1 where one: "start_assignment env cf row db = Inr (call, db1)"
    and rest: "start_rows env cf rows (calls @ [call], db1) = Inr (calls', db')" by auto
  from one obtain rid sid where m: "mark_assignment_started (tv_now env) (sg_key (fst row)) rid (Some sid) db = Inr db1"
    and key: "sb_idempotency_key call = sg_key (fst row)" by (rule start_assignment_Inr)
  have row: "fst row \<in> set (od_assignments db)" "sg_status (fst row) = ''PENDING''" using Cons.prems(4) by simp_all
  note st = started_attempts [OF Cons.prems(2,3) row m]
  have later: "fst r \<in> set (od_assignments db1) \<and> sg_status (fst r) = ''PENDING''" if "r \<in> set rows" for r
    using that Cons.prems(4) [of r] Cons.prems(5) st(3) [of "fst r"] by (auto simp: image_iff)
  have "orch_wf db' \<and> attempts_within cf db' \<and>
    map sb_idempotency_key calls' = map sb_idempotency_key (calls @ [call]) @ map (\<lambda>row. sg_key (fst row)) rows \<and>
    (\<exists>new. od_runs db' = od_runs db1 @ new \<and> map rn_key new = map (\<lambda>row. sg_key (fst row)) rows)"
    using Cons.IH [OF rest orch_wf_started [OF Cons.prems(2) m] st(1) later] Cons.prems(5) by simp
  then show ?case using st(2) key by (auto simp: new_run_def)
qed simp

lemma pending_rows:
  assumes "orch_wf db"
  shows "row \<in> set (pending_assignments now role n db) \<Longrightarrow>
      fst row \<in> set (od_assignments db) \<and> sg_status (fst row) = ''PENDING'' \<and> sg_role (fst row) = role \<and> due now (fst row)"
    and "distinct (map (\<lambda>row. sg_key (fst row)) (pending_assignments now role n db))"
    and "0 \<le> n \<Longrightarrow> int (length (pending_assignments now role n db)) \<le> n"
proof -
  let ?cand = "filter (\<lambda>a. sg_status a = ''PENDING'' \<and> sg_role a = role \<and> due now a) (od_assignments db)"
  let ?join = "List.map_filter (\<lambda>a. map_option (Pair a) (find_item db (sg_work_item_id a))) ?cand"
  have limit: "set (limit_rows n xs) \<subseteq> set xs" "distinct (map f xs) \<Longrightarrow> distinct (map f (limit_rows n xs))" for n xs f
    by (auto simp: limit_rows_def take_map [symmetric] dest: in_set_takeD)
  show "row \<in> set (pending_assignments now role n db) \<Longrightarrow>
      fst row \<in> set (od_assignments db) \<and> sg_status (fst row) = ''PENDING'' \<and> sg_role (fst row) = role \<and> due now (fst row)"
    unfolding pending_assignments_def by (drule subsetD [OF limit(1)]) (auto simp: map_filter_subset)
  have "distinct (map sg_key as) \<Longrightarrow> distinct (map (\<lambda>row. sg_key (fst row)) (List.map_filter (\<lambda>a. map_option (Pair a) (f a)) as))"
    for as and f :: "assignment_row \<Rightarrow> work_row option"
    by (induction as) (auto simp: List.map_filter_simps map_filter_subset split: option.split)
  then have "distinct (map (\<lambda>row. sg_key (fst row)) ?join)"
    using orch_wfD(2) [OF assms] by (simp add: distinct_map_filter)
  then have "distinct (map (\<lambda>row. sg_key (fst row)) (sort_by (\<lambda>x y. pending_before (fst x) (fst y)) ?join))"
    by (simp add: distinct_map)
  then show "distinct (map (\<lambda>row. sg_key (fst row)) (pending_assignments now role n db))"
    unfolding pending_assignments_def by (rule limit(2))
  show "0 \<le> n \<Longrightarrow> int (length (pending_assignments now role n db)) \<le> n"
    by (simp add: pending_assignments_def limit_rows_def)
qed

text \<open>One successful tick on a well-formed database.\<close>

lemma run_once_keeps:
  assumes wf: "orch_wf db" and old: "attempts_within cf db" "1 \<le> cf_max_attempts_per_assignment cf"
    and run: "run_once env cf lock current_schema db = Inr (Ticked rep, db')"
  shows "orch_wf db' \<and> attempts_within cf db' \<and>
    (\<exists>db2. orch_wf db2 \<and> map rn_key (od_runs db') = map rn_key (od_runs db) @ map sb_idempotency_key (tk_started rep) \<and>
       map sb_idempotency_key (tk_started rep)
         = map (\<lambda>row. sg_key (fst row)) (pending_assignments (tv_now env) (cf_role cf) (cf_max_starts_per_tick cf) db2))"
proof -
  from run obtain adapter s effs db1 items where
    r: "reconcile (pass_env env cf adapter) cf db = Inr (s, effs, db1)"
    and rest: "(case store_items (ev_sha (tv_recon env)) (tv_now env) cf items (0, 0, db1) of (m, c, db2) \<Rightarrow>
        result_bind (start_pending env cf db2) (\<lambda>(started, db3).
        Inr (Ticked \<lparr>tk_fetched = length items, tk_matched = m, tk_created = c, tk_started = started,
               tk_summary = s, tk_effects = effs\<rparr>, db3))) = Inr (Ticked rep, db')"
    by (auto simp: run_once_def init_db_current [OF wf] split: if_splits)
  obtain m c db2 where st: "store_items (ev_sha (tv_recon env)) (tv_now env) cf items (0, 0, db1) = (m, c, db2)"
    by (metis prod_cases3)
  from rest st obtain started where sp: "start_pending env cf db2 = Inr (started, db')" and rep: "tk_started rep = started"
    by auto
  have wf1: "orch_wf db1" by (rule reconcile_wf [OF wf r])
  have at1: "attempts_within cf db1" by (rule reconcile_attempts [OF wf r old(1)])
  have 2: "orch_wf db2" "attempts_within cf db2" "od_runs db2 = od_runs db1"
    using store_items_keeps [OF st wf1 at1 old(2)] by simp_all
  let ?rows = "pending_assignments (tv_now env) (cf_role cf) (cf_max_starts_per_tick cf) db2"
  have "orch_wf db' \<and> attempts_within cf db' \<and>
    map sb_idempotency_key started = map sb_idempotency_key ([] :: submit_call list) @ map (\<lambda>row. sg_key (fst row)) ?rows \<and>
    (\<exists>new. od_runs db' = od_runs db2 @ new \<and> map rn_key new = map (\<lambda>row. sg_key (fst row)) ?rows)"
  proof (rule start_rows_keeps)
    show "start_rows env cf ?rows ([], db2) = Inr (started, db')" using sp by (simp add: start_pending_def)
    show "fst row \<in> set (od_assignments db2) \<and> sg_status (fst row) = ''PENDING''" if "row \<in> set ?rows" for row
      using pending_rows(1) [OF 2(1) that] by simp
  qed (rule 2 pending_rows(2))+
  then obtain new where n: "orch_wf db'" "attempts_within cf db'" "map sb_idempotency_key started = map (\<lambda>row. sg_key (fst row)) ?rows"
    "od_runs db' = od_runs db2 @ new" "map rn_key new = map (\<lambda>row. sg_key (fst row)) ?rows"
    by auto
  have "map rn_key (od_runs db2) = map rn_key (od_runs db)" using reconcile_run_keys [OF r] 2(3) by simp
  then show ?thesis using n rep 2(1) by (intro conjI exI [of _ db2]) simp_all
qed

lemma tick_db_keeps:
  assumes "orch_wf db" "attempts_within cf db" "1 \<le> cf_max_attempts_per_assignment cf"
  shows "orch_wf (tick_db env cf lock current_schema db) \<and> attempts_within cf (tick_db env cf lock current_schema db)"
proof (cases "run_once env cf lock current_schema db")
  case (Inr r)
  show ?thesis
  proof (cases "fst r")
    case (NoOp w)
    with Inr have "run_once env cf lock current_schema db = Inr (NoOp w, snd r)" by (metis prod.collapse)
    then have "snd r = db" by (auto simp: run_once_def split_beta split: if_splits)
    then show ?thesis using Inr assms by (simp add: tick_db_def split_beta)
  next
    case (Ticked rep)
    with Inr show ?thesis using run_once_keeps [OF assms, of env lock rep "snd r"] by (cases r) (simp add: tick_db_def)
  qed
qed (simp add: tick_db_def assms)

text \<open>Databases a role's orchestrator can reach by ticks alone, whatever the gateway and the provider answer.\<close>

inductive ticks :: "config \<Rightarrow> orch_db \<Rightarrow> bool" for cf where
  fresh: "ticks cf empty_orch_db"
| tick: "ticks cf db \<Longrightarrow> ticks cf (tick_db env cf lock current_schema db)"

lemma ticks_keep:
  assumes "ticks cf db" "1 \<le> cf_max_attempts_per_assignment cf"
  shows "orch_wf db \<and> attempts_within cf db"
  using assms
proof (induction rule: ticks.induct)
  case fresh
  then show ?case by (simp add: orch_wf_empty) (simp add: attempts_within_def active_rows_def empty_orch_db_def)
next
  case (tick db env lock)
  then show ?case by (simp add: tick_db_keeps)
qed

section \<open>Properties\<close>

lemma runs_of_length: "runs_of key db = length (filter (\<lambda>r. rn_key r = key) (od_runs db))"
proof -
  have "count_list (map rn_key rs) key = length (filter (\<lambda>r. rn_key r = key) rs)" for rs :: "run_row list"
    by (induction rs) auto
  then show ?thesis by (simp add: runs_of_def)
qed

text \<open>
  (C22) However many ticks run and whatever the gateway and the provider answer, no assignment ever has more
  runs recorded than \<open>max_attempts_per_assignment\<close>, its attempt counter is that number of runs, and none has
  two runs in progress.
\<close>

theorem attempts_bounded:
  assumes "ticks cf db" "1 \<le> cf_max_attempts_per_assignment cf" "a \<in> set (od_assignments db)"
  shows "length (filter (\<lambda>r. rn_key r = sg_key a) (od_runs db)) = sg_attempt_count a \<and>
    int (sg_attempt_count a) \<le> cf_max_attempts_per_assignment cf \<and>
    length (filter (\<lambda>r. rn_key r = sg_key a \<and> rn_status r = ACTIVE) (od_runs db)) \<le> 1"
proof -
  have wf: "orch_wf db" and within: "attempts_within cf db" using ticks_keep [OF assms(1,2)] by simp_all
  have "distinct (map rn_key (filter (\<lambda>r. rn_status r = ACTIVE) (od_runs db)))"
    using orch_wfD(3) [OF wf] by (simp add: runs_ok_def)
  from count_where_le_1 [OF this, of "sg_key a"] within assms(3) show ?thesis
    unfolding attempts_within_def by (simp add: runs_of_length count_where_def)
qed

text \<open>
  (C23) A successful tick starts at most \<open>max_starts_per_tick\<close> runs, each for an assignment of its own, and
  appends exactly one run row per request it submitted, under the key it sent as the idempotency key.
\<close>

theorem tick_starts:
  assumes "ticks cf db" "1 \<le> cf_max_attempts_per_assignment cf" "0 \<le> cf_max_starts_per_tick cf"
    and "run_once env cf lock current_schema db = Inr (Ticked rep, db')"
  shows "int (length (tk_started rep)) \<le> cf_max_starts_per_tick cf \<and>
    distinct (map sb_idempotency_key (tk_started rep)) \<and>
    map rn_key (od_runs db') = map rn_key (od_runs db) @ map sb_idempotency_key (tk_started rep)"
proof -
  have "orch_wf db" "attempts_within cf db" using ticks_keep [OF assms(1,2)] by simp_all
  from run_once_keeps [OF this assms(2,4)] obtain db2 where 2: "orch_wf db2"
    "map rn_key (od_runs db') = map rn_key (od_runs db) @ map sb_idempotency_key (tk_started rep)"
    "map sb_idempotency_key (tk_started rep)
      = map (\<lambda>row. sg_key (fst row)) (pending_assignments (tv_now env) (cf_role cf) (cf_max_starts_per_tick cf) db2)"
    by blast
  then have "length (tk_started rep) = length (pending_assignments (tv_now env) (cf_role cf) (cf_max_starts_per_tick cf) db2)"
    by (metis length_map)
  then show ?thesis using pending_rows(2,3) [OF 2(1)] assms(3) 2(2,3) by simp
qed

text \<open>A tick that finds one issue and starts the planner on it.\<close>

definition tick_config :: config where
  "tick_config = sample_config\<lparr>cf_github_token := Some ''t''\<rparr>"

definition tick_issue :: json where
  "tick_issue = JObj [(''number'', JInt 7), (''title'', JStr ''T''), (''body'', JStr ''B''), (''url'', JStr ''u''),
     (''labels'', JArr [JObj [(''name'', JStr ''hermes:planner'')]])]"

definition sample_tick_env :: tick_env where
  "sample_tick_env = \<lparr>tv_recon = sample_env (Inr JNull), tv_hermes = (\<lambda>_. HttpJson (JObj [(''id'', JStr ''run-1'')])),
     tv_provider = (\<lambda>_ _. HttpJson (JArr [tick_issue])), tv_history = (\<lambda>_. []), tv_now = 10\<rparr>"

lemma sample_tick:
  "case run_once sample_tick_env tick_config True current_schema empty_orch_db of
     Inr (Ticked rep, db') \<Rightarrow> length (tk_started rep) = 1 \<and> map sg_attempt_count (od_assignments db') = [1]
   | _ \<Rightarrow> False"
  by code_simp

lemma sample_tick_starts:
  obtains rep db' where "run_once sample_tick_env tick_config True current_schema empty_orch_db = Inr (Ticked rep, db')"
    "length (tk_started rep) = 1" "map sg_attempt_count (od_assignments db') = [1]"
  using sample_tick by (auto split: sum.split_asm prod.split_asm tick_result.split_asm)

theorem attempts_bounded_witness:
  "\<exists>a. od_assignments (tick_db sample_tick_env tick_config True current_schema empty_orch_db) = [a] \<and> sg_attempt_count a = 1 \<and>
     length (filter (\<lambda>r. rn_key r = sg_key a)
       (od_runs (tick_db sample_tick_env tick_config True current_schema empty_orch_db))) = 1"
proof -
  let ?db = "tick_db sample_tick_env tick_config True current_schema empty_orch_db"
  have "map sg_attempt_count (od_assignments ?db) = [1]"
    by (rule sample_tick_starts) (simp add: tick_db_def)
  then obtain a where a: "od_assignments ?db = [a]" "sg_attempt_count a = 1" by auto
  have "1 \<le> cf_max_attempts_per_assignment tick_config" by code_simp
  from attempts_bounded [OF ticks.tick [OF ticks.fresh] this, of a] a show ?thesis by auto
qed

theorem tick_starts_witness:
  "\<exists>rep db'. run_once sample_tick_env tick_config True current_schema empty_orch_db = Inr (Ticked rep, db') \<and>
     length (tk_started rep) = 1 \<and> map rn_key (od_runs db') = map sb_idempotency_key (tk_started rep)"
proof -
  obtain rep db' where run: "run_once sample_tick_env tick_config True current_schema empty_orch_db = Inr (Ticked rep, db')"
    "length (tk_started rep) = 1" by (rule sample_tick_starts)
  have "1 \<le> cf_max_attempts_per_assignment tick_config" "0 \<le> cf_max_starts_per_tick tick_config" by code_simp+
  from tick_starts [OF ticks.fresh this run(1)] run show ?thesis by (auto simp: empty_orch_db_def)
qed

end
