(* ===== verification/Catalogs.thy ===== *)
theory Catalogs
  imports Models PyText
begin

text \<open>
  \<open>capability_gateway/catalogs.py\<close>: the discovery of tools in public catalogs. What a catalog answers
  is the parameter \<open>fetch\<close>, from the address to the decoded body; any failure of the request or of the
  decoding is \<open>None\<close>.
\<close>

section \<open>Requests\<close>

record server_candidate =
  sv_source :: string
  sv_server_id :: string
  sv_description :: string
  sv_version :: "string option"
  sv_raw :: pydict

text \<open>\<open>_get_json\<close>; the message names the host, \<open>url.split(''/'')[2]\<close>.\<close>

definition catalog_get :: "(string \<Rightarrow> json option) \<Rightarrow> string \<Rightarrow> json result" where
  "catalog_get fetch url =
     (case fetch url of
        Some j \<Rightarrow> Inr j
      | None \<Rightarrow> (case split_char (CHR ''/'') url of
            _ # _ # host # _ \<Rightarrow> Inl (CatalogUnavailable (''catalog request failed for '' @ host))
          | _ \<Rightarrow> Inl (IndexError ''list index out of range'')))"

text \<open>Iterating over a decoded value: a string yields its characters, an object its keys.\<close>

definition iterate :: "json \<Rightarrow> json list result" where
  "iterate v = (case v of
     JArr xs \<Rightarrow> Inr xs
   | JObj d \<Rightarrow> Inr (map (\<lambda>(k, _). JStr k) d)
   | JStr s \<Rightarrow> Inr (map (\<lambda>c. JStr [c]) s)
   | _ \<Rightarrow> Inl (TypeError ''object is not iterable''))"

text \<open>\<open>d.get(k) if isinstance(d.get(k), str) else \<dots>\<close>.\<close>

definition text_field :: "pydict \<Rightarrow> string \<Rightarrow> string option" where
  "text_field d k = (case dict_get d k of JStr s \<Rightarrow> Some s | _ \<Rightarrow> None)"

definition text_field_or_empty :: "pydict \<Rightarrow> string \<Rightarrow> string" where
  "text_field_or_empty d k = (case text_field d k of Some s \<Rightarrow> s | None \<Rightarrow> [])"

text \<open>\<open>d.get(a) or d.get(b)\<close>.\<close>

definition either_field :: "pydict \<Rightarrow> string \<Rightarrow> string \<Rightarrow> json" where
  "either_field d a b = (if truthy (dict_get d a) then dict_get d a else dict_get d b)"

section \<open>The official registry\<close>

definition official_base_url :: string where
  "official_base_url = ''https://registry.modelcontextprotocol.io''"

definition official_server :: "json \<Rightarrow> server_candidate option" where
  "official_server item =
     (case item of
        JObj d \<Rightarrow>
          (case (if dict_has d ''server'' then dict_get d ''server'' else item) of
             JObj server \<Rightarrow>
               (case dict_get server ''name'' of
                  JStr name \<Rightarrow> if name = [] then None else Some \<lparr>sv_source = ''official'', sv_server_id = name,
                    sv_description = text_field_or_empty server ''description'',
                    sv_version = text_field server ''version'', sv_raw = d\<rparr>
                | _ \<Rightarrow> None)
           | _ \<Rightarrow> None)
      | _ \<Rightarrow> None)"

definition official_search_servers :: "(string \<Rightarrow> json option) \<Rightarrow> string \<Rightarrow> int \<Rightarrow> server_candidate list result" where
  "official_search_servers fetch query limit =
     result_bind (catalog_get fetch (official_base_url @ ''/v0.1/servers?'' @
        urlencode [(''search'', query), (''version'', ''latest''), (''limit'', str_of_int (min limit 100))])) (\<lambda>payload.
     result_bind (iterate (case payload of
          JObj d \<Rightarrow> (if dict_has d ''servers'' then dict_get d ''servers'' else JArr [])
        | _ \<Rightarrow> JArr [])) (\<lambda>servers.
     Inr (List.map_filter official_server servers)))"

section \<open>The Glama directory\<close>

definition glama_base_url :: string where
  "glama_base_url = ''https://glama.ai/api/mcp/v1''"

definition array_from :: "json \<Rightarrow> string list \<Rightarrow> json list" where
  "array_from payload keys =
     (case payload of
        JArr xs \<Rightarrow> xs
      | JObj d \<Rightarrow> (case List.map_filter (\<lambda>k. case dict_get d k of JArr xs \<Rightarrow> Some xs | _ \<Rightarrow> None) keys of
            xs # _ \<Rightarrow> xs | [] \<Rightarrow> [])
      | _ \<Rightarrow> [])"

definition glama_server :: "json \<Rightarrow> server_candidate option" where
  "glama_server item =
     (case item of
        JObj d \<Rightarrow>
          (case either_field d ''slug'' ''name'' of
             JStr slug \<Rightarrow>
               if slug = [] then None
               else Some \<lparr>sv_source = ''glama'',
                 sv_server_id = (case either_field d ''namespace'' ''owner'' of
                     JStr ns \<Rightarrow> (if ns \<noteq> [] then ns @ ''/'' @ slug else slug) | _ \<Rightarrow> slug),
                 sv_description = text_field_or_empty d ''description'',
                 sv_version = text_field d ''version'', sv_raw = d\<rparr>
           | _ \<Rightarrow> None)
      | _ \<Rightarrow> None)"

definition glama_search_servers :: "(string \<Rightarrow> json option) \<Rightarrow> string \<Rightarrow> int \<Rightarrow> server_candidate list result" where
  "glama_search_servers fetch query limit =
     result_bind (catalog_get fetch (glama_base_url @ ''/servers?'' @
        urlencode [(''query'', query), (''limit'', str_of_int (min limit 50))])) (\<lambda>payload.
     Inr (List.map_filter glama_server (array_from payload [''servers'', ''data'', ''results''])))"

lemma size_dict_get:
  assumes "dict_get d k \<noteq> JNull"
  shows "size (dict_get d k) < Suc (size_list (size_prod (\<lambda>_. 0) size) d)"
proof -
  obtain v where v: "map_of d k = Some v" "dict_get d k = v"
    using assms by (auto simp: dict_get_def split: option.splits)
  from map_of_SomeD [OF v(1)] have "size v < Suc (size_list (size_prod (\<lambda>_. 0) size) d)"
    by (induction d) auto
  then show ?thesis using v(2) by simp
qed

text \<open>
  \<open>_find_tools\<close>: the list under \<open>tools\<close>, or the first non-empty one found below four
  keys. The recursion descends into the payload.
\<close>

function find_tools :: "json \<Rightarrow> pydict list" where
  "find_tools payload =
     (case payload of
        JObj d \<Rightarrow>
          (case dict_get d ''tools'' of
             JArr xs \<Rightarrow> List.map_filter (\<lambda>x. case x of JObj t \<Rightarrow> Some t | _ \<Rightarrow> None) xs
           | _ \<Rightarrow>
             (let below = (\<lambda>k. if dict_get d k = JNull then [] else find_tools (dict_get d k));
                  server = below ''server'' in
              if server \<noteq> [] then server
              else let schema = below ''schema'' in if schema \<noteq> [] then schema
              else let capabilities = below ''capabilities'' in if capabilities \<noteq> [] then capabilities
              else below ''data''))
      | _ \<Rightarrow> [])"
  by pat_completeness auto

termination
  by (relation "measure size") (auto intro: size_dict_get)

declare find_tools.simps [simp del]

definition glama_tool :: "server_candidate \<Rightarrow> pydict \<Rightarrow> tool_descriptor option" where
  "glama_tool candidate item =
     (case dict_get item ''name'' of
        JStr name \<Rightarrow>
          if name = [] then None
          else
            let as_object = (\<lambda>v. case v of JObj d \<Rightarrow> d | _ \<Rightarrow> []) in
            Some \<lparr>td_server_id = sv_server_id candidate, td_tool_name = name,
              td_description = text_field_or_empty item ''description'',
              td_input_schema = as_object (either_field item ''inputSchema'' ''input_schema''),
              td_annotations = as_object (dict_get item ''annotations''),
              td_source = ''glama'', td_version = sv_version candidate\<rparr>
      | _ \<Rightarrow> None)"

definition glama_inspect_tools :: "(string \<Rightarrow> json option) \<Rightarrow> server_candidate \<Rightarrow> tool_descriptor list result" where
  "glama_inspect_tools fetch candidate =
     (if sv_source candidate \<noteq> ''glama'' then Inr []
      else
        let namespace = takeWhile (\<lambda>c. c \<noteq> CHR ''/'') (sv_server_id candidate);
            rest = dropWhile (\<lambda>c. c \<noteq> CHR ''/'') (sv_server_id candidate) in
        (case rest of
           [] \<Rightarrow> Inr []
         | _ # slug \<Rightarrow>
             result_bind (catalog_get fetch (glama_base_url @ ''/servers/'' @ url_quote namespace @ ''/'' @ url_quote slug))
               (\<lambda>payload. Inr (List.map_filter (glama_tool candidate) (find_tools payload)))))"

section \<open>Discovery\<close>

definition max_servers :: int where
  "max_servers = 8"

fun inspect_all :: "(string \<Rightarrow> json option) \<Rightarrow> server_candidate list \<Rightarrow> tool_descriptor list result" where
  "inspect_all fetch [] = Inr []"
| "inspect_all fetch (c # cs) =
     result_bind (glama_inspect_tools fetch c) (\<lambda>ts. result_bind (inspect_all fetch cs) (\<lambda>rest. Inr (ts @ rest)))"

definition discover_tools :: "(string \<Rightarrow> json option) \<Rightarrow> string \<Rightarrow> tool_descriptor list result" where
  "discover_tools fetch query =
     result_bind (glama_search_servers fetch query max_servers) (inspect_all fetch)"

section \<open>Facts\<close>

text \<open>Every discovered tool has a server with a namespace, a name, and the catalog as its source.\<close>

lemma glama_server_id: "glama_server item = Some c \<Longrightarrow> sv_server_id c \<noteq> [] \<and> sv_source c = ''glama''"
  by (auto simp: glama_server_def split: json.splits if_splits)

lemma glama_tool_shape:
  "glama_tool c item = Some t \<Longrightarrow> td_server_id t = sv_server_id c \<and> td_tool_name t \<noteq> [] \<and> td_source t = ''glama''"
  by (auto simp: glama_tool_def Let_def split: json.splits if_splits)

lemma inspect_tools_shape:
  assumes "glama_inspect_tools fetch c = Inr ts" "t \<in> set ts"
  shows "CHR ''/'' \<in> set (td_server_id t) \<and> td_tool_name t \<noteq> [] \<and> td_source t = ''glama''"
proof (cases "dropWhile (\<lambda>x. x \<noteq> CHR ''/'') (sv_server_id c)")
  case Nil
  then have "ts = []" using assms(1) unfolding glama_inspect_tools_def Let_def Nil list.case by (simp split: if_splits)
  then show ?thesis using assms(2) by simp
next
  case (Cons x slug)
  then have slash: "CHR ''/'' \<in> set (sv_server_id c)"
    using dropWhile_eq_Nil_conv [of "\<lambda>x. x \<noteq> CHR ''/''" "sv_server_id c"] by auto
  from assms(1) Cons have "ts = [] \<or> (\<exists>items. ts = List.map_filter (glama_tool c) items)"
    unfolding glama_inspect_tools_def Let_def Cons list.case by (auto simp only: result_bind_Inr_iff sum.inject split: if_splits)
  with assms(2) obtain items where "ts = List.map_filter (glama_tool c) items" by auto
  with assms(2) obtain item where "glama_tool c item = Some t"
    by (auto simp: List.map_filter_def)
  from glama_tool_shape [OF this] slash show ?thesis by simp
qed

lemma discovered_shape:
  assumes "discover_tools fetch query = Inr ts" "t \<in> set ts"
  shows "CHR ''/'' \<in> set (td_server_id t) \<and> td_tool_name t \<noteq> [] \<and> td_source t = ''glama''"
proof -
  have "inspect_all fetch cs = Inr ts \<Longrightarrow> t \<in> set ts \<Longrightarrow> ?thesis" for cs ts
    by (induction cs arbitrary: ts) (auto dest: inspect_tools_shape)
  then show ?thesis using assms by (auto simp: discover_tools_def)
qed

lemma catalog_get_exn:
  "catalog_get fetch (''https://'' @ rest) = Inl e \<Longrightarrow> \<exists>m. e = CatalogUnavailable m"
  by (auto simp: catalog_get_def split: option.splits list.splits)

end
