(* ===== verification/Service.thy ===== *)
theory Service
  imports Core Proxy Catalogs
begin

text \<open>
  \<open>capability_gateway/service.py\<close>: the gateway as a whole. \<open>resolve_intent\<close> composes the catalogs,
  the judge, the resolution core and the store; the handlers map requests to operations and exceptions to
  replies. Requests run in threads of their own: what others do to the store between two transactions of a
  request is given by the functions of a schedule, as in the proxy. A reply is its status and JSON value.
\<close>

section \<open>The gateway and what it calls\<close>

record gateway =
  gw_max_auto :: risk_category
  gw_judge :: judge
  gw_admin_key :: string
  gw_ttl :: int
  gw_mode :: string
  gw_proxy :: "proxy option"

text \<open>\<open>xe_post\<close>, \<open>xe_loadb\<close> and \<open>xe_loads\<close> serve the judge, \<open>xe_fetch\<close> the catalogs, \<open>xe_body\<close> decodes
  request bodies; \<open>xe_time_text\<close> is the text of a stored time.\<close>

record gateway_env =
  xe_float_repr :: "pyfloat \<Rightarrow> string"
  xe_prompt :: string
  xe_post :: "string \<Rightarrow> json \<Rightarrow> string option"
  xe_loadb :: "string \<Rightarrow> json result"
  xe_loads :: "json \<Rightarrow> json result"
  xe_fetch :: "string \<Rightarrow> json option"
  xe_body :: "string \<Rightarrow> json option"
  xe_sha :: "string \<Rightarrow> string"
  xe_time_text :: "int \<Rightarrow> string"

text \<open>\<open>CapabilityGateway.__init__\<close>; \<open>make_proxy\<close> is \<open>DynamicAuthorityProxy.from_environment\<close>.\<close>

definition gateway_init :: "(string \<rightharpoonup> string) \<Rightarrow> (risk_category \<Rightarrow> proxy result) \<Rightarrow> gateway result" where
  "gateway_init environ make_proxy =
     (let get = (\<lambda>k d. case environ k of Some v \<Rightarrow> v | None \<Rightarrow> d) in
      result_bind (parse_category (get ''CAPABILITY_MAX_AUTO_RISK'' ''MEDIUM'')) (\<lambda>max_auto.
      result_bind (judge_from_environment environ) (\<lambda>j.
      let admin_key = py_strip (get ''CAPABILITY_ADMIN_KEY'' []) in
      if length admin_key < 24 then Inl (RuntimeError ''CAPABILITY_ADMIN_KEY must contain at least 24 characters'')
      else (case py_int (get ''CAPABILITY_EXECUTION_GRANT_TTL_SECONDS'' ''60'') of
          None \<Rightarrow> Inl (ValueError ''invalid literal for int() with base 10'')
        | Some ttl \<Rightarrow>
            let mode = py_lower (py_strip (get ''CAPABILITY_EXECUTION_MODE'' ''resolver'')) in
            if mode \<notin> {''resolver'', ''dynamic''} then Inl (RuntimeError ''CAPABILITY_EXECUTION_MODE must be resolver or dynamic'')
            else result_bind (if mode = ''dynamic'' then result_bind (make_proxy max_auto) (\<lambda>px. Inr (Some px)) else Inr None) (\<lambda>px.
              Inr \<lparr>gw_max_auto = max_auto, gw_judge = j, gw_admin_key = admin_key, gw_ttl = clamp_ttl ttl,
                   gw_mode = mode, gw_proxy = px\<rparr>)))))"

section \<open>Validation of request fields\<close>

text \<open>\<open>_text\<close>: tab, line feed and carriage return are the control characters allowed.\<close>

definition bounded_string :: "json \<Rightarrow> string \<Rightarrow> nat \<Rightarrow> bool \<Rightarrow> string result" where
  "bounded_string v name limit allow_empty =
     (case v of
        JStr s \<Rightarrow>
          if limit < length s \<or> \<not> allow_empty \<and> py_strip s = [] then Inl (ValueError (name @ '' must be a bounded string''))
          else if list_ex (\<lambda>c. is_control c \<and> ord_of c \<notin> {9, 10, 13}) s
          then Inl (ValueError (name @ '' contains control characters''))
          else Inr (py_strip s)
      | _ \<Rightarrow> Inl (ValueError (name @ '' must be a bounded string'')))"

definition optional_text :: "json \<Rightarrow> nat \<Rightarrow> string option result" where
  "optional_text v limit =
     (if v = JNull then Inr None else result_bind (bounded_string v ''value'' limit False) (\<lambda>s. Inr (Some s)))"

definition object_or_empty :: "json \<Rightarrow> pydict" where
  "object_or_empty v = (case v of JObj d \<Rightarrow> d | _ \<Rightarrow> [])"

definition parse_tool :: "json \<Rightarrow> tool_descriptor result" where
  "parse_tool item =
     (case item of
        JObj d \<Rightarrow>
          result_bind (bounded_string (dict_get d ''server_id'') ''server_id'' 200 False) (\<lambda>server_id.
          result_bind (bounded_string (dict_get d ''tool_name'') ''tool_name'' 200 False) (\<lambda>tool_name.
          result_bind (bounded_string (if dict_has d ''description'' then dict_get d ''description'' else JStr [])
            ''description'' 4000 True) (\<lambda>description.
          result_bind (optional_text (dict_get d ''source'') 100) (\<lambda>source.
          result_bind (optional_text (dict_get d ''version'') 100) (\<lambda>version.
          Inr \<lparr>td_server_id = server_id, td_tool_name = tool_name, td_description = description,
            td_input_schema = object_or_empty (dict_get d ''input_schema''),
            td_annotations = object_or_empty (dict_get d ''annotations''),
            td_source = (case source of Some s \<Rightarrow> s | None \<Rightarrow> ''request''), td_version = version\<rparr>)))))
      | _ \<Rightarrow> Inl (ValueError ''each tool must be an object''))"

definition parse_tools :: "json \<Rightarrow> tool_descriptor list result" where
  "parse_tools v =
     (case v of
        JNull \<Rightarrow> Inr []
      | JArr xs \<Rightarrow> map_result parse_tool xs
      | _ \<Rightarrow> Inl (ValueError ''tools must be an array''))"

section \<open>Resolving an intent\<close>

definition max_tools :: nat where
  "max_tools = 80"

text \<open>The intent, the tool asked for by name, and the candidates of the request or of the catalogs.\<close>

definition read_request :: "gateway_env \<Rightarrow> pydict \<Rightarrow> (string \<times> string option \<times> tool_descriptor list) result" where
  "read_request xe body =
     result_bind (bounded_string (dict_get body ''intent'') ''intent'' 2000 False) (\<lambda>intent.
     result_bind (optional_text (dict_get body ''requested_tool_id'') 300) (\<lambda>requested.
     result_bind (parse_tools (dict_get body ''tools'')) (\<lambda>tools.
     if tools \<noteq> [] then Inr (intent, requested, tools)
     else
       result_bind (optional_text (dict_get body ''catalog_query'') 300) (\<lambda>query.
       result_bind (discover_tools (xe_fetch xe) (case query of Some q \<Rightarrow> q | None \<Rightarrow> intent)) (\<lambda>found.
       Inr (intent, requested, found))))))"

definition classify_tool :: "gateway_env \<Rightarrow> gateway \<Rightarrow> string \<Rightarrow> tool_descriptor \<Rightarrow> ranked_tool result" where
  "classify_tool xe gw intent t =
     result_bind (judge_classify (xe_float_repr xe) (xe_prompt xe) (xe_post xe) (xe_loadb xe) (xe_loads xe) (gw_judge gw) intent t)
       (\<lambda>(semantics, fit).
         Inr \<lparr>rt_tool = t, rt_assessment = assess_risk t semantics, rt_intent_fit = fit, rt_dominated = False,
              rt_dominance_reason = None\<rparr>)"

datatype resolve_outcome = NoTools string | AlreadyConsumed string | Resolved resolution

text \<open>What others do to the store before the one-shot approval is looked up, and before it is used or a request recorded.\<close>

record resolve_schedule =
  rx_before_check :: "governance \<Rightarrow> governance"
  rx_before_act :: "governance \<Rightarrow> governance"
  rx_time :: int

definition snapshot_resolve :: "gateway_env \<Rightarrow> gateway \<Rightarrow> snapshot \<Rightarrow> string \<Rightarrow> string option \<Rightarrow> ranked_tool list \<Rightarrow> string set
    \<Rightarrow> resolution" where
  "snapshot_resolve xe gw sn intent requested ranked once =
     resolve (xe_sha xe) intent ranked (gw_max_auto gw) requested once (set (sn_exceptions sn)) (map_of (sn_overrides sn))
       (sn_emergency_stop sn)"

text \<open>From the snapshot on. The store is \<open>g\<close> when the snapshot is taken.\<close>

definition decide_resolution :: "gateway_env \<Rightarrow> gateway \<Rightarrow> resolve_schedule \<Rightarrow> string \<Rightarrow> string option \<Rightarrow> ranked_tool list
    \<Rightarrow> governance \<Rightarrow> resolve_outcome result \<times> governance" where
  "decide_resolution xe gw rx intent requested ranked g =
     (case gov_snapshot g of
        Inl e \<Rightarrow> (Inl e, g)
      | Inr sn \<Rightarrow>
          (let first = snapshot_resolve xe gw sn intent requested ranked {} in
           case rs_approval_required first of
             None \<Rightarrow> (Inr (Resolved first), g)
           | Some rq \<Rightarrow>
               (case find (\<lambda>r. rt_id r = ar_requested_tool_id rq) ranked of
                  None \<Rightarrow> (Inl (RuntimeError ''StopIteration''), g)
                | Some wanted \<Rightarrow>
                    (let g1 = rx_before_check rx g in
                     if has_unconsumed_once (ar_request_id rq) (ar_requested_tool_id rq) g1 then
                       (let second = snapshot_resolve xe gw sn intent requested ranked {ar_requested_tool_id rq} in
                        if map_option rt_id (rs_selected second) = Some (ar_requested_tool_id rq) then
                          (case consume_once (rx_time rx) (ar_request_id rq) (ar_requested_tool_id rq) (rx_before_act rx g1) of
                             (ok, g2) \<Rightarrow> (Inr (if ok then Resolved second else AlreadyConsumed intent), g2))
                        else (Inr (Resolved second), g1))
                     else
                       (let g2 = rx_before_act rx g1 in
                        case record_pending_approval (rx_time rx) (ar_request_id rq) (ar_intent rq) (ar_requested_tool_id rq)
                            (ra_canonical_capability (rt_assessment wanted)) (ar_requested_category rq) (ar_allowed_category rq)
                            (ar_recommended_tool_id rq) (ar_reason rq) g2 of
                          Inl e \<Rightarrow> (Inl e, g2)
                        | Inr g3 \<Rightarrow> (Inr (Resolved first), g3))))))"

definition resolve_intent :: "gateway_env \<Rightarrow> gateway \<Rightarrow> resolve_schedule \<Rightarrow> pydict \<Rightarrow> governance
    \<Rightarrow> resolve_outcome result \<times> governance" where
  "resolve_intent xe gw rx body g =
     (case read_request xe body of
        Inl e \<Rightarrow> (Inl e, g)
      | Inr (intent, requested, tools) \<Rightarrow>
          if tools = [] then (Inr (NoTools intent), g)
          else (case map_result (classify_tool xe gw intent) (take max_tools tools) of
              Inl e \<Rightarrow> (Inl e, g)
            | Inr ranked \<Rightarrow> decide_resolution xe gw rx intent requested ranked g))"

section \<open>Replies\<close>

definition json_option :: "string option \<Rightarrow> json" where
  "json_option x = (case x of Some s \<Rightarrow> JStr s | None \<Rightarrow> JNull)"

definition semantics_json :: "tool_semantics \<Rightarrow> json" where
  "semantics_json s = JObj
     [(''canonical_capability'', JStr (ts_canonical_capability s)), (''read'', JBool (ts_read s)),
      (''write'', JBool (ts_write s)), (''destructive'', JBool (ts_destructive s)), (''egress'', JBool (ts_egress s)),
      (''credential_access'', JBool (ts_credential_access s)), (''arbitrary_execution'', JBool (ts_arbitrary_execution s)),
      (''open_world'', JBool (ts_open_world s)), (''rationale'', JStr (ts_rationale s)),
      (''confidence'', JFloat (ts_confidence s))]"

definition ranked_json :: "ranked_tool \<Rightarrow> json" where
  "ranked_json r = (let a = rt_assessment r in JObj
     [(''tool'', asdict_tool (rt_tool r)),
      (''assessment'', JObj
        [(''tool_id'', JStr (ra_tool_id a)), (''canonical_capability'', JStr (ra_canonical_capability a)),
         (''score'', JInt (ra_score a)), (''category'', JStr (category_name (ra_category a))),
         (''properties'', semantics_json (ra_properties a)), (''reasons'', JArr (map JStr (ra_reasons a))),
         (''judge_confidence'', JFloat (ra_judge_confidence a))]),
      (''intent_fit'', JFloat (rt_intent_fit r)), (''dominated'', JBool (rt_dominated r)),
      (''dominance_reason'', json_option (rt_dominance_reason r))])"

definition approval_json :: "approval_request \<Rightarrow> json" where
  "approval_json a = JObj
     [(''request_id'', JStr (ar_request_id a)), (''intent'', JStr (ar_intent a)),
      (''requested_tool_id'', JStr (ar_requested_tool_id a)),
      (''requested_category'', JStr (category_name (ar_requested_category a))),
      (''allowed_category'', JStr (category_name (ar_allowed_category a))),
      (''recommended_tool_id'', json_option (ar_recommended_tool_id a)), (''reason'', JStr (ar_reason a))]"

definition resolution_json :: "resolution \<Rightarrow> pydict" where
  "resolution_json r =
     [(''intent'', JStr (rs_intent r)),
      (''selected'', (case rs_selected r of Some s \<Rightarrow> ranked_json s | None \<Rightarrow> JNull)),
      (''visible_tools'', JArr (map ranked_json (rs_visible_tools r))),
      (''filtered_tools'', JArr (map ranked_json (rs_filtered_tools r))),
      (''approval_required'', (case rs_approval_required r of Some a \<Rightarrow> approval_json a | None \<Rightarrow> JNull)),
      (''emergency_stop'', JBool (rs_emergency_stop r))]"

definition empty_resolution :: "string \<Rightarrow> string \<Rightarrow> pydict" where
  "empty_resolution intent status =
     [(''intent'', JStr intent), (''selected'', JNull), (''visible_tools'', JArr []), (''filtered_tools'', JArr []),
      (''status'', JStr status)]"

fun outcome_json :: "resolve_outcome \<Rightarrow> pydict" where
  "outcome_json (NoTools intent) = empty_resolution intent ''no_tools''"
| "outcome_json (AlreadyConsumed intent) = empty_resolution intent ''one_shot_grant_already_consumed''"
| "outcome_json (Resolved r) = resolution_json r"

definition pending_json :: "(int \<Rightarrow> string) \<Rightarrow> pending_view \<Rightarrow> json" where
  "pending_json time_text p = JObj
     [(''request_id'', JStr (pv_request_id p)), (''intent'', JStr (pv_intent p)), (''tool_id'', JStr (pv_tool_id p)),
      (''capability'', JStr (pv_capability p)),
      (''requested_category'', JStr (category_name (pv_requested_category p))),
      (''allowed_category'', JStr (category_name (pv_allowed_category p))),
      (''recommended_tool_id'', json_option (pv_recommended p)), (''reason'', JStr (pv_reason p)),
      (''created_at'', JStr (time_text (pv_created_at p))), (''agent_id'', json_option (pv_agent_id p)),
      (''run_id'', json_option (pv_run_id p)), (''repository'', json_option (pv_repository p)),
      (''branch'', json_option (pv_branch p)), (''args_hash'', json_option (pv_args_hash p))]"

definition governance_state :: "gateway_env \<Rightarrow> gateway \<Rightarrow> governance \<Rightarrow> json result" where
  "governance_state xe gw g =
     result_bind (gov_snapshot g) (\<lambda>sn. Inr (JObj
       [(''emergency_stop'', JBool (sn_emergency_stop sn)), (''max_auto_category'', JStr (category_name (gw_max_auto gw))),
        (''execution_mode'', JStr (gw_mode gw)),
        (''tool_exceptions'', JArr (map JStr (sort_by (<) (nub_first (sn_exceptions sn))))),
        (''capability_overrides'', JObj (map (\<lambda>(k, c). (k, JStr (category_name c)))
           (sort_by (\<lambda>a b. fst a < fst b) (sn_overrides sn)))),
        (''pending_approvals'', JArr (map (pending_json (xe_time_text xe)) (sn_pending sn)))]))"

section \<open>The handlers\<close>

text \<open>A request, with the bytes \<open>read n\<close> gets from the socket. A reply, or an exception no handler catches.\<close>

record http_in =
  hi_path :: string
  hi_headers :: headers
  hi_read :: "int \<Rightarrow> string"

datatype reply = Reply int json | Dropped exn

text \<open>What others do to the store before an operation of the operator and before its result is shown, and the time and fresh identifier used.\<close>

record admin_schedule =
  ax_before_act :: "governance \<Rightarrow> governance"
  ax_before_view :: "governance \<Rightarrow> governance"
  ax_time :: int
  ax_gid :: string

definition is_mcp_path :: "string \<Rightarrow> bool" where
  "is_mcp_path path \<longleftrightarrow> path = ''/mcp'' \<or> starts_with ''/mcp?'' path \<or> path = ''/mcp/''"

definition is_admin :: "gateway \<Rightarrow> http_in \<Rightarrow> bool" where
  "is_admin gw rq \<longleftrightarrow> hi_headers rq ''Authorization'' = Some (''Bearer '' @ gw_admin_key gw)"

definition max_body :: int where
  "max_body = 64 * 1024"

definition request_body :: "gateway_env \<Rightarrow> http_in \<Rightarrow> pydict result" where
  "request_body xe rq =
     (case py_int (case hi_headers rq ''Content-Length'' of Some v \<Rightarrow> v | None \<Rightarrow> ''0'') of
        None \<Rightarrow> Inl (ValueError ''invalid content length'')
      | Some n \<Rightarrow>
          if n \<le> 0 \<or> max_body < n then Inl (ValueError ''invalid request body length'')
          else (case xe_body xe (hi_read rq n) of
              None \<Rightarrow> Inl (ValueError ''JSONDecodeError'')
            | Some (JObj d) \<Rightarrow> Inr d
            | Some _ \<Rightarrow> Inl (ValueError ''request body must be an object'')))"

definition error_json :: "string \<Rightarrow> json" where
  "error_json code = JObj [(''error'', JStr code)]"

text \<open>The \<open>except\<close> clauses of \<open>do_POST\<close>.\<close>

fun error_reply :: "exn \<Rightarrow> reply" where
  "error_reply (ValueError m) = Reply 400 (JObj [(''error'', JStr ''invalid_request''), (''message'', JStr m)])"
| "error_reply (TypeError m) = Reply 400 (JObj [(''error'', JStr ''invalid_request''), (''message'', JStr m)])"
| "error_reply (JudgeUnavailable m) = Reply 503 (error_json ''judge_unavailable'')"
| "error_reply (CatalogUnavailable m) = Reply 503 (error_json ''catalog_unavailable'')"
| "error_reply e = Dropped e"

definition reply_of :: "json result \<Rightarrow> reply" where
  "reply_of r = (case r of Inl e \<Rightarrow> error_reply e | Inr j \<Rightarrow> Reply 200 j)"

text \<open>One operation of the operator: the paths below \<open>/v1/governance\<close>, \<open>None\<close> for any other path.\<close>

definition admin_operation :: "gateway \<Rightarrow> admin_schedule \<Rightarrow> string \<Rightarrow> pydict \<Rightarrow> governance \<Rightarrow> governance result option" where
  "admin_operation gw ax path body g =
     (if path = ''/v1/governance/allow-once'' then Some
        (result_bind (bounded_string (dict_get body ''request_id'') ''request_id'' 100 False) (\<lambda>request_id.
         result_bind (bounded_string (dict_get body ''tool_id'') ''tool_id'' 300 False) (\<lambda>tool.
         result_bind (grant_once (ax_time ax) (ax_gid ax) request_id tool (gw_ttl gw) g) (\<lambda>(_, g'). Inr g'))))
      else if path = ''/v1/governance/tool-exception'' then Some
        (result_bind (bounded_string (dict_get body ''tool_id'') ''tool_id'' 300 False) (\<lambda>tool.
         add_tool_exception (ax_time ax) tool g))
      else if path = ''/v1/governance/capability-risk'' then Some
        (result_bind (bounded_string (dict_get body ''capability'') ''capability'' 160 False) (\<lambda>capability.
         result_bind (bounded_string (dict_get body ''category'') ''category'' 20 False) (\<lambda>name.
         result_bind (parse_category name) (\<lambda>category.
         set_capability_override (ax_time ax) capability category g))))
      else None)"

text \<open>The part of \<open>do_POST\<close> for the operator, after \<open>_admin\<close>.\<close>

definition handle_admin :: "gateway_env \<Rightarrow> gateway \<Rightarrow> admin_schedule \<Rightarrow> string \<Rightarrow> pydict \<Rightarrow> governance \<Rightarrow> reply \<times> governance" where
  "handle_admin xe gw ax path body g =
     (let g1 = ax_before_act ax g; view = (\<lambda>g'. (reply_of (governance_state xe gw g'), g')) in
      if path = ''/v1/governance/emergency-stop'' then
        (case dict_get body ''enabled'' of
           JBool enabled \<Rightarrow> view (ax_before_view ax (set_emergency_stop enabled g1))
         | _ \<Rightarrow> (Reply 400 (error_json ''enabled_must_be_boolean''), g))
      else (case admin_operation gw ax path body g1 of
          None \<Rightarrow> (Reply 404 (error_json ''not_found''), g)
        | Some (Inl e) \<Rightarrow> (error_reply e, g1)
        | Some (Inr g2) \<Rightarrow> view (ax_before_view ax g2)))"

definition resolve_reply :: "resolve_outcome result \<Rightarrow> reply" where
  "resolve_reply r = (case r of
     Inl e \<Rightarrow> error_reply e
   | Inr outcome \<Rightarrow> let d = outcome_json outcome in Reply (if truthy (dict_get d ''emergency_stop'') then 423 else 200) (JObj d))"

text \<open>\<open>do_POST\<close> and \<open>do_GET\<close> for the paths that are not the proxy's.\<close>

definition handle_post :: "gateway_env \<Rightarrow> gateway \<Rightarrow> resolve_schedule \<Rightarrow> admin_schedule \<Rightarrow> http_in \<Rightarrow> governance
    \<Rightarrow> reply \<times> governance" where
  "handle_post xe gw rx ax rq g =
     (case request_body xe rq of
        Inl e \<Rightarrow> (error_reply e, g)
      | Inr body \<Rightarrow>
          if hi_path rq = ''/v1/resolve'' then
            (case resolve_intent xe gw rx body g of (r, g') \<Rightarrow> (resolve_reply r, g'))
          else if \<not> is_admin gw rq then (Reply 401 (error_json ''unauthorized''), g)
          else handle_admin xe gw ax (hi_path rq) body g)"

definition handle_get :: "gateway_env \<Rightarrow> gateway \<Rightarrow> http_in \<Rightarrow> governance \<Rightarrow> reply" where
  "handle_get xe gw rq g =
     (if hi_path rq = ''/health'' then Reply 200 (JObj [(''status'', JStr ''ok''), (''execution_mode'', JStr (gw_mode gw))])
      else if hi_path rq = ''/v1/governance'' then
        (if \<not> is_admin gw rq then Reply 401 (error_json ''unauthorized'')
         else (case governance_state xe gw g of Inl e \<Rightarrow> Dropped e | Inr j \<Rightarrow> Reply 200 j))
      else Reply 404 (error_json ''not_found''))"

definition handle_delete :: "http_in \<Rightarrow> reply" where
  "handle_delete rq = Reply 404 (error_json ''not_found'')"

section \<open>The proxy's path\<close>

text \<open>
  A refusal with its HTTP status, code, message, data and JSON-RPC id, or a request that is forwarded with its
  permit; \<open>forward\<close> raises an exception, or returns after the answer was relayed.
\<close>

datatype mcp_reply = McpUnconfigured | McpError int string string refusal_data json | McpForwarded permit "string option"

text \<open>The \<open>except\<close> clauses of \<open>_mcp\<close>.\<close>

fun mcp_failure :: "(string \<Rightarrow> json option) \<Rightarrow> string option \<Rightarrow> exn \<Rightarrow> mcp_reply result" where
  "mcp_failure loads body (MCPAuthorityBlocked code message details) =
     Inr (McpError (if code = ''unauthorized_agent'' then 401 else 200) code message details (rpc_request_id loads body))"
| "mcp_failure loads body (GitHubAppUnavailable m) =
     Inr (McpError 503 ''provider_authority_unavailable'' ''dynamic provider authority is temporarily unavailable'' []
       (rpc_request_id loads body))"
| "mcp_failure loads body (MCPProxyUnavailable m) =
     Inr (McpError 503 ''provider_authority_unavailable'' ''dynamic provider authority is temporarily unavailable'' []
       (rpc_request_id loads body))"
| "mcp_failure loads body e = Inl e"

definition handle_mcp :: "gateway_env \<Rightarrow> gateway \<Rightarrow> 'b issuer \<Rightarrow> (permit \<Rightarrow> string option \<Rightarrow> exn option) \<Rightarrow> schedule
    \<Rightarrow> string \<Rightarrow> http_in \<Rightarrow> governance \<Rightarrow> 'b \<Rightarrow> mcp_reply result \<times> governance \<times> 'b" where
  "handle_mcp xe gw issue forward sc command rq g b =
     (case gw_proxy gw of
        None \<Rightarrow> (Inr McpUnconfigured, g, b)
      | Some px \<Rightarrow>
          (case read_mcp_body (hi_read rq) command (hi_headers rq ''Content-Length'') of
             Inl e \<Rightarrow> (mcp_failure (xe_body xe) None e, g, b)
           | Inr body \<Rightarrow>
               (case proxy_permit (xe_float_repr xe) (xe_sha xe) (xe_body xe) issue px sc (hi_headers rq) body g b of
                  (Inl e, g', b') \<Rightarrow> (mcp_failure (xe_body xe) body e, g', b')
                | (Inr p, g', b') \<Rightarrow>
                    ((case forward p body of Some e \<Rightarrow> mcp_failure (xe_body xe) body e | None \<Rightarrow> Inr (McpForwarded p body)), g', b'))))"

text \<open>One request, of any method the handler has.\<close>

definition serve :: "gateway_env \<Rightarrow> gateway \<Rightarrow> 'b issuer \<Rightarrow> (permit \<Rightarrow> string option \<Rightarrow> exn option) \<Rightarrow> schedule
    \<Rightarrow> resolve_schedule \<Rightarrow> admin_schedule \<Rightarrow> string \<Rightarrow> http_in \<Rightarrow> governance \<Rightarrow> 'b
    \<Rightarrow> (reply + mcp_reply result) \<times> governance \<times> 'b" where
  "serve xe gw issue forward sc rx ax command rq g b =
     (if is_mcp_path (hi_path rq) then
        (case handle_mcp xe gw issue forward sc command rq g b of (r, g', b') \<Rightarrow> (Inr r, g', b'))
      else if command = ''POST'' then (case handle_post xe gw rx ax rq g of (r, g') \<Rightarrow> (Inl r, g', b))
      else if command = ''GET'' then (Inl (handle_get xe gw rq g), g, b)
      else (Inl (handle_delete rq), g, b))"

end
