(* ===== verification/ServiceFacts.thy ===== *)
theory ServiceFacts
  imports Service
begin

text \<open>
  What the gateway promises across its components: on what ground a tool is selected, that one approval
  serves one resolution, and that no request without the operator's key extends authority.
\<close>

section \<open>Undisturbed requests\<close>

definition quiet_resolve :: "int \<Rightarrow> resolve_schedule" where
  "quiet_resolve t = \<lparr>rx_before_check = id, rx_before_act = id, rx_time = t\<rparr>"

definition quiet_admin :: "int \<Rightarrow> string \<Rightarrow> admin_schedule" where
  "quiet_admin t gid = \<lparr>ax_before_act = id, ax_before_view = id, ax_time = t, ax_gid = gid\<rparr>"

text \<open>Other requests keep the store well formed.\<close>

definition keeps_wf :: "resolve_schedule \<Rightarrow> bool" where
  "keeps_wf rx \<longleftrightarrow> (\<forall>g. gov_wf g \<longrightarrow> gov_wf (rx_before_check rx g) \<and> gov_wf (rx_before_act rx g))"

lemma keeps_wf_quiet: "keeps_wf (quiet_resolve t)"
  by (simp add: keeps_wf_def quiet_resolve_def)

section \<open>Resolving against a snapshot\<close>

lemma snapshot_resolve_stop:
  "sn_emergency_stop sn \<Longrightarrow> rs_selected (snapshot_resolve xe gw sn i q cs once) = None \<and>
     rs_approval_required (snapshot_resolve xe gw sn i q cs once) = None"
  by (simp add: snapshot_resolve_def resolve_def)

lemma snapshot_resolve_run:
  "\<not> sn_emergency_stop sn \<Longrightarrow> snapshot_resolve xe gw sn i q cs once =
     resolve (xe_sha xe) i cs (gw_max_auto gw) q once (set (sn_exceptions sn)) (map_of (sn_overrides sn)) False"
  by (simp add: snapshot_resolve_def)

text \<open>The request an approval is asked for, and what is selected once it is given.\<close>

lemma approval_shape:
  assumes "rs_approval_required (snapshot_resolve xe gw sn i q cs {}) = Some rq"
  shows "\<not> sn_emergency_stop sn \<and> q = Some (ar_requested_tool_id rq) \<and>
    ar_request_id rq = request_id (xe_sha xe) i (ar_requested_tool_id rq) \<and> ar_intent rq = i \<and>
    ar_allowed_category rq = gw_max_auto gw \<and>
    ar_reason rq = ''requested tool exceeds configured risk ceiling; explicit human authority is required'' \<and>
    rs_selected (snapshot_resolve xe gw sn i q cs {}) = None \<and>
    rs_emergency_stop (snapshot_resolve xe gw sn i q cs {}) = False \<and>
    map_option rt_id (rs_selected (snapshot_resolve xe gw sn i q cs {ar_requested_tool_id rq})) = Some (ar_requested_tool_id rq)"
proof -
  have stop: "\<not> sn_emergency_stop sn" using assms snapshot_resolve_stop by fastforce
  note run = snapshot_resolve_run [OF stop]
  from assms show ?thesis
    unfolding run by (auto simp: stop resolve_def Let_def split: option.splits if_splits dest!: find_Some_in)
qed

lemma selected_grounds:
  assumes "rs_selected (snapshot_resolve xe gw sn i q cs once) = Some r"
  shows "\<not> sn_emergency_stop sn \<and>
    (effective_category (map_of (sn_overrides sn)) r \<le> gw_max_auto gw \<or> rt_id r \<in> set (sn_exceptions sn) \<or>
     q = Some (rt_id r) \<and> rt_id r \<in> once)"
proof -
  have stop: "\<not> sn_emergency_stop sn" using assms snapshot_resolve_stop by fastforce
  from selected_visible [OF assms [unfolded snapshot_resolve_run [OF stop]]] show ?thesis
    using stop by (auto simp: visible_eligible is_eligible_def Let_def)
qed

section \<open>The decision\<close>

lemma decide_cases:
  assumes "decide_resolution xe gw rx i q cs g = (Inr (Resolved res), g')"
  obtains (plain) sn where "gov_snapshot g = Inr sn" "res = snapshot_resolve xe gw sn i q cs {}"
      "rs_approval_required res = None" "g' = g"
  | (approved) sn tid where "gov_snapshot g = Inr sn" "q = Some tid" "res = snapshot_resolve xe gw sn i q cs {tid}"
      "map_option rt_id (rs_selected res) = Some tid"
      "consume_once (rx_time rx) (request_id (xe_sha xe) i tid) tid (rx_before_act rx (rx_before_check rx g)) = (True, g')"
  | (asked) sn rq where "gov_snapshot g = Inr sn" "res = snapshot_resolve xe gw sn i q cs {}"
      "rs_approval_required res = Some rq" "rs_selected res = None"
proof -
  from assms obtain sn where sn: "gov_snapshot g = Inr sn"
    by (auto simp: decide_resolution_def split: sum.splits)
  let ?first = "snapshot_resolve xe gw sn i q cs {}"
  show thesis
  proof (cases "rs_approval_required ?first")
    case None
    with assms sn have "res = ?first" "g' = g" by (simp_all add: decide_resolution_def)
    with None sn show thesis by (intro plain) simp_all
  next
    case (Some rq)
    let ?tid = "ar_requested_tool_id rq" and ?g1 = "rx_before_check rx g"
    note shape = approval_shape [OF Some]
    obtain w where w: "find (\<lambda>r. rt_id r = ?tid) cs = Some w"
      using assms sn Some by (auto simp: decide_resolution_def split: option.splits)
    show thesis
    proof (cases "has_unconsumed_once (ar_request_id rq) ?tid ?g1")
      case True
      obtain ok g2 where c: "consume_once (rx_time rx) (ar_request_id rq) ?tid (rx_before_act rx ?g1) = (ok, g2)" by fastforce
      have f: "ok" "g' = g2" "res = snapshot_resolve xe gw sn i q cs {?tid}"
        using assms sn Some w True shape c by (auto simp: decide_resolution_def Let_def split: if_splits)
      have q: "q = Some ?tid" using shape by blast
      have sel: "map_option rt_id (rs_selected res) = Some ?tid" using shape unfolding f(3) by blast
      have "consume_once (rx_time rx) (request_id (xe_sha xe) i ?tid) ?tid (rx_before_act rx (rx_before_check rx g)) = (True, g')"
        using c f shape by simp
      from approved [OF sn q f(3) sel this] show thesis .
    next
      case False
      then have "res = ?first"
        using assms sn Some w by (auto simp: decide_resolution_def Let_def split: sum.splits)
      note first = this
      have "rs_selected res = None" using shape unfolding first by blast
      with asked [OF sn first] Some show thesis unfolding first .
    qed
  qed
qed

lemma resolve_intent_Resolved:
  assumes "resolve_intent xe gw rx body g = (Inr (Resolved res), g')"
  obtains i q tools cs where "read_request xe body = Inr (i, q, tools)" "tools \<noteq> []"
    "map_result (classify_tool xe gw i) (take max_tools tools) = Inr cs"
    "decide_resolution xe gw rx i q cs g = (Inr (Resolved res), g')"
  using assms by (auto simp: resolve_intent_def split: sum.splits if_splits)

lemma consume_once_True:
  assumes "gov_wf g" "consume_once now rid t g = (True, g')"
  shows "has_unconsumed_once rid t g \<and> \<not> has_unconsumed_once rid t g'"
proof -
  have "fst (consume_once now rid t g) = has_unconsumed_once rid t g" by (rule fst_consume_once [OF assms(1)])
  moreover have "\<not> has_unconsumed_once rid t (snd (consume_once now rid t g))"
    by (auto simp: has_once_eq consume_once_eq update_where_bex once_hit_def)
  ultimately show ?thesis using assms(2) by simp
qed

section \<open>What a request changes\<close>

text \<open>The tables that carry authority, all but the one-shot approvals.\<close>

definition authority :: "governance \<Rightarrow> (string \<times> string) list \<times> exception_row list \<times> override_row list \<times> exec_row list \<times> grant_row list" where
  "authority g = (gv_global g, gv_exceptions g, gv_overrides g, gv_exec g, gv_grants g)"

text \<open>One-shot approvals may be spent but none is added, reopened or moved to another tool.\<close>

definition only_spends :: "governance \<Rightarrow> governance \<Rightarrow> bool" where
  "only_spends g g' \<longleftrightarrow> list_all2 (\<lambda>r r'. on_request_id r' = on_request_id r \<and> on_tool_id r' = on_tool_id r \<and>
     (on_consumed r \<longrightarrow> on_consumed r')) (gv_once g) (gv_once g')"

lemma only_spends_refl: "gv_once g' = gv_once g \<Longrightarrow> only_spends g g'"
  by (simp add: only_spends_def list.rel_refl)

lemma consume_once_effect: "authority (snd (consume_once t rid tid g)) = authority g \<and> only_spends g (snd (consume_once t rid tid g))"
  by (auto simp: consume_once_eq authority_def only_spends_def update_where_def list_all2_conv_all_nth)

lemma record_pending_effect:
  "record_pending_approval t rid i tid cap c a rec rsn g = Inr g' \<Longrightarrow> authority g' = authority g \<and> only_spends g g'"
  by (auto simp: record_pending_approval_def authority_def intro: only_spends_refl split: if_splits)

lemma resolve_not_stopped:
  "\<not> sn_emergency_stop sn \<Longrightarrow> rs_emergency_stop (snapshot_resolve xe gw sn i q cs once) = False"
  by (simp add: snapshot_resolve_def resolve_def Let_def case_prod_unfold)

lemma decide_effect:
  assumes wf: "gov_wf g" and run: "decide_resolution xe gw (quiet_resolve t) i q cs g = (r, g')"
  shows "gov_wf g' \<and> authority g' = authority g \<and> only_spends g g' \<and>
    (g' \<noteq> g \<longrightarrow> (\<exists>res. r = Inr (Resolved res) \<and> \<not> rs_emergency_stop res))"
proof (cases "g' = g")
  case True
  then show ?thesis using wf by (simp add: only_spends_refl)
next
  case False
  obtain sn where sn: "gov_snapshot g = Inr sn" by (rule snapshot_exists [OF wf])
  let ?first = "snapshot_resolve xe gw sn i q cs {}"
  from False run sn obtain rq where rq: "rs_approval_required ?first = Some rq"
    by (cases "rs_approval_required ?first") (simp_all add: decide_resolution_def)
  let ?tid = "ar_requested_tool_id rq" and ?second = "snapshot_resolve xe gw sn i q cs {ar_requested_tool_id rq}"
  have stop: "\<not> sn_emergency_stop sn" and sel: "map_option rt_id (rs_selected ?second) = Some ?tid"
    using approval_shape [OF rq] by blast+
  obtain w where w: "find (\<lambda>r. rt_id r = ?tid) cs = Some w"
    using False run sn rq by (cases "find (\<lambda>r. rt_id r = ?tid) cs") (simp_all add: decide_resolution_def)
  show ?thesis
  proof (cases "has_unconsumed_once (ar_request_id rq) ?tid g")
    case True
    obtain ok g2 where c: "consume_once t (ar_request_id rq) ?tid g = (ok, g2)" by fastforce
    have "ok" using fst_consume_once [OF wf, of t] True c by (metis fst_conv)
    then have "r = Inr (Resolved ?second)" "g' = g2"
      using run sn rq w True sel c unfolding decide_resolution_def Let_def
      by (simp_all add: quiet_resolve_def)
    then show ?thesis
      using consume_once_effect [of t "ar_request_id rq" ?tid g] wf_consume_once [OF wf, of t "ar_request_id rq" ?tid] c
        resolve_not_stopped [OF stop] by simp
  next
    case none: False
    from False run sn rq w none have rec: "record_pending_approval t (ar_request_id rq) (ar_intent rq) ?tid
        (ra_canonical_capability (rt_assessment w)) (ar_requested_category rq) (ar_allowed_category rq)
        (ar_recommended_tool_id rq) (ar_reason rq) g = Inr g'" and r: "r = Inr (Resolved ?first)"
      unfolding decide_resolution_def Let_def by (auto simp: quiet_resolve_def split: sum.splits)
    show ?thesis
      using record_pending_effect [OF rec] wf_record_pending [OF wf rec] resolve_not_stopped [OF stop] unfolding r by simp
  qed
qed

lemma resolve_intent_effect:
  assumes wf: "gov_wf g" and run: "resolve_intent xe gw (quiet_resolve t) body g = (r, g')"
  shows "gov_wf g' \<and> authority g' = authority g \<and> only_spends g g' \<and>
    (g' \<noteq> g \<longrightarrow> (\<exists>res. r = Inr (Resolved res) \<and> \<not> rs_emergency_stop res))"
proof (cases "g' = g")
  case True
  then show ?thesis using wf by (simp add: only_spends_refl)
next
  case False
  with run obtain i q cs where "decide_resolution xe gw (quiet_resolve t) i q cs g = (r, g')"
    by (auto simp: resolve_intent_def split: sum.splits prod.splits if_splits)
  from decide_effect [OF wf this] show ?thesis .
qed

lemma admin_operation_wf:
  assumes "gov_wf g" "admin_operation gw ax path body g = Some (Inr g')"
  shows "gov_wf g'"
  using assms(2) wf_grant_once [OF assms(1)] wf_add_exception [OF assms(1)] wf_set_override [OF assms(1)]
  by (auto simp: admin_operation_def split: if_splits)

lemma governance_state_total:
  assumes "gov_wf g"
  shows "\<exists>j. governance_state xe gw g = Inr j"
  by (rule snapshot_exists [OF assms]) (simp add: governance_state_def)

lemma handle_admin_effect:
  assumes wf: "gov_wf g" and run: "handle_admin xe gw (quiet_admin t gid) path body g = (r, g')"
  shows "gov_wf g' \<and> (g' \<noteq> g \<longrightarrow> (\<exists>j. r = Reply 200 j))"
proof -
  have view: "\<exists>j. reply_of (governance_state xe gw g2) = Reply 200 j" if "gov_wf g2" for g2
    using governance_state_total [OF that, of xe gw] by (auto simp: reply_of_def)
  show ?thesis
  proof (cases "path = ''/v1/governance/emergency-stop''")
    case True
    then show ?thesis
      using run wf view [OF wf_emergency_stop [OF wf]] wf_emergency_stop [OF wf]
      by (auto simp: handle_admin_def quiet_admin_def split: json.splits)
  next
    case False
    show ?thesis
    proof (cases "admin_operation gw (quiet_admin t gid) path body g")
      case None
      then show ?thesis using run wf False by (simp add: handle_admin_def quiet_admin_def)
    next
      case (Some res)
      show ?thesis
      proof (cases res)
        case (Inl e)
        then show ?thesis using run wf False Some by (simp add: handle_admin_def quiet_admin_def)
      next
        case (Inr g2)
        with Some have wf2: "gov_wf g2" using admin_operation_wf [OF wf] by blast
        have "r = reply_of (governance_state xe gw g2)" "g' = g2"
          using run False Some Inr by (auto simp: handle_admin_def quiet_admin_def)
        then show ?thesis using view [OF wf2] wf2 by simp
      qed
    qed
  qed
qed

section \<open>A tool above the ceiling\<close>

text \<open>The body asks by name for a candidate above the ceiling that no exception covers.\<close>

definition needs_approval :: "gateway_env \<Rightarrow> gateway \<Rightarrow> pydict \<Rightarrow> string \<Rightarrow> string \<Rightarrow> governance \<Rightarrow> bool" where
  "needs_approval xe gw body i tid g \<longleftrightarrow> gov_wf g \<and>
     (\<exists>tools cs w sn. read_request xe body = Inr (i, Some tid, tools) \<and> tools \<noteq> [] \<and>
        map_result (classify_tool xe gw i) (take max_tools tools) = Inr cs \<and> find (\<lambda>r. rt_id r = tid) cs = Some w \<and>
        gov_snapshot g = Inr sn \<and> \<not> sn_emergency_stop sn \<and>
        gw_max_auto gw < effective_category (map_of (sn_overrides sn)) w \<and> tid \<notin> set (sn_exceptions sn))"

text \<open>The hash yields text the store accepts as an identifier, as hexadecimal digits are.\<close>

definition names_requests :: "(string \<Rightarrow> string) \<Rightarrow> bool" where
  "names_requests sha \<longleftrightarrow> (\<forall>s. validate_identifier (take 24 (sha s)) 100 = Inr ())"

lemma snapshot_settings:
  assumes "gov_snapshot g = Inr sn"
  shows "sn_emergency_stop sn = (map_of (gv_global g) ''emergency_stop'' = Some ''1'')"
    "sn_exceptions sn = map xr_tool_id (gv_exceptions g)"
    "map_result override_view (gv_overrides g) = Inr (sn_overrides sn)"
  using assms by (auto simp: gov_snapshot_def)

lemma needs_approval_cong:
  assumes "needs_approval xe gw body i tid g" "gov_wf g'" "gv_global g' = gv_global g" "gv_exceptions g' = gv_exceptions g"
    "gv_overrides g' = gv_overrides g"
  shows "needs_approval xe gw body i tid g'"
proof -
  from assms(1) obtain tools cs w sn where
    n: "read_request xe body = Inr (i, Some tid, tools)" "tools \<noteq> []"
      "map_result (classify_tool xe gw i) (take max_tools tools) = Inr cs" "find (\<lambda>r. rt_id r = tid) cs = Some w"
      "\<not> sn_emergency_stop sn" "gw_max_auto gw < effective_category (map_of (sn_overrides sn)) w" "tid \<notin> set (sn_exceptions sn)"
    and sn: "gov_snapshot g = Inr sn" unfolding needs_approval_def by (elim conjE exE) (rule that)
  obtain sn' where sn': "gov_snapshot g' = Inr sn'" by (rule snapshot_exists [OF assms(2)])
  have "sn_emergency_stop sn' = sn_emergency_stop sn" "sn_exceptions sn' = sn_exceptions sn" "sn_overrides sn' = sn_overrides sn"
    using snapshot_settings [OF sn] snapshot_settings [OF sn'] assms(3-5) by auto
  with n sn' assms(2) show ?thesis
    unfolding needs_approval_def by (intro conjI exI [of _ tools] exI [of _ cs] exI [of _ w] exI [of _ sn']) simp_all
qed

lemma find_map: "find P (map f xs) = map_option f (find (\<lambda>x. P (f x)) xs)"
  by (induction xs) auto

lemma first_asks:
  assumes "find (\<lambda>r. rt_id r = tid) cs = Some w" "\<not> sn_emergency_stop sn"
    "gw_max_auto gw < effective_category (map_of (sn_overrides sn)) w" "tid \<notin> set (sn_exceptions sn)"
  shows "\<exists>rq. rs_approval_required (snapshot_resolve xe gw sn i (Some tid) cs {}) = Some rq \<and> ar_requested_tool_id rq = tid"
proof -
  have "rt_id w = tid" using find_Some_in [OF assms(1)] by simp
  then have "requested_in (Some tid) cs = Some (mark_one cs w)"
    using assms(1) by (simp add: requested_in_def mark_dominated_def find_map)
  then have "rs_approval_required (snapshot_resolve xe gw sn i (Some tid) cs {}) \<noteq> None"
    unfolding snapshot_resolve_run [OF assms(2)] approval_eq using assms(3,4) \<open>rt_id w = tid\<close> by auto
  then obtain rq where rq: "rs_approval_required (snapshot_resolve xe gw sn i (Some tid) cs {}) = Some rq" by blast
  then have "Some tid = Some (ar_requested_tool_id rq)" using approval_shape [OF rq] by blast
  with rq show ?thesis by simp
qed

lemma dotted_valid:
  assumes "dotted_identifier c"
  shows "validate_identifier c 160 = Inr ()"
proof -
  have alphabet: "list_all (\<lambda>x. \<not> is_control x \<and> \<not> is_space x) capability_alphabet" by code_simp
  have plain: "\<not> is_control x \<and> \<not> is_space x" if "x \<in> set c" for x
    using assms that alphabet by (auto simp: dotted_identifier_def list_all_iff)
  have "c \<noteq> []" "length c \<le> 160" using assms by (auto simp: dotted_identifier_def)
  moreover have "py_strip c \<noteq> []"
  proof
    assume "py_strip c = []"
    with py_strip_Nil_iff have "\<forall>x\<in>set c. is_space x" by blast
    with plain \<open>c \<noteq> []\<close> show False by (metis list.set_sel(1))
  qed
  ultimately show ?thesis using plain by (auto simp: validate_identifier_Inr list_ex_iff)
qed

lemma classify_capability:
  "classify_tool xe gw i t = Inr r \<Longrightarrow> dotted_identifier (ra_canonical_capability (rt_assessment r))"
  by (auto simp: classify_tool_def judge_classify_def read_answer_def parse_semantics_def
      split: option.splits sum.splits dest!: safe_capability_dotted)

lemma map_result_in: "map_result f xs = Inr ys \<Longrightarrow> y \<in> set ys \<Longrightarrow> \<exists>x\<in>set xs. f x = Inr y"
  by (induction xs arbitrary: ys) auto

lemma bounded_string_Inr:
  "bounded_string v n limit False = Inr s \<Longrightarrow> s \<noteq> [] \<and> length s \<le> limit"
  by (auto simp: bounded_string_def intro: le_trans [OF py_strip_length] split: json.splits if_splits)

lemma request_intent:
  "read_request xe body = Inr (i, q, tools) \<Longrightarrow> i \<noteq> [] \<and> length i \<le> 2000"
  by (auto simp: read_request_def dest!: bounded_string_Inr split: if_splits)

lemma approval_asked:
  assumes need: "needs_approval xe gw body i tid g" and ids: "names_requests (xe_sha xe)" "validate_identifier tid 300 = Inr ()"
    and none: "\<not> has_unconsumed_once (request_id (xe_sha xe) i tid) tid g"
  shows "\<exists>res g1. resolve_intent xe gw (quiet_resolve t) body g = (Inr (Resolved res), g1) \<and>
    rs_selected res = None \<and> rs_approval_required res \<noteq> None \<and> gov_wf g1 \<and> authority g1 = authority g \<and> gv_once g1 = gv_once g \<and>
    (\<exists>p\<in>set (gv_pending g1). pr_request_id p = request_id (xe_sha xe) i tid \<and> pr_tool_id p = tid \<and> pr_status p = PENDING)"
proof -
  from need obtain tools cs w sn where wf: "gov_wf g" and
    n: "read_request xe body = Inr (i, Some tid, tools)" "tools \<noteq> []"
      "map_result (classify_tool xe gw i) (take max_tools tools) = Inr cs" and w: "find (\<lambda>r. rt_id r = tid) cs = Some w"
    and stop: "\<not> sn_emergency_stop sn" and over: "gw_max_auto gw < effective_category (map_of (sn_overrides sn)) w"
      "tid \<notin> set (sn_exceptions sn)"
    and sn: "gov_snapshot g = Inr sn" unfolding needs_approval_def by (elim conjE exE) (rule that)
  let ?first = "snapshot_resolve xe gw sn i (Some tid) cs {}"
  obtain rq where rq: "rs_approval_required ?first = Some rq" "ar_requested_tool_id rq = tid"
    using first_asks [OF w stop over] by blast
  note shape = approval_shape [OF rq(1)]
  have rid: "ar_request_id rq = request_id (xe_sha xe) i tid" "ar_intent rq = i" "rs_selected ?first = None"
    "ar_reason rq = ''requested tool exceeds configured risk ceiling; explicit human authority is required''"
    using shape rq(2) by simp_all
  have "w \<in> set cs" using find_Some_in [OF w] by simp
  then have "dotted_identifier (ra_canonical_capability (rt_assessment w))"
    using map_result_in [OF n(3)] classify_capability by blast
  note cap = dotted_valid [OF this]
  have "length (ar_reason rq) \<le> 1000" "ar_reason rq \<noteq> []" unfolding rid(4) by simp_all
  moreover have "validate_identifier (ar_request_id rq) 100 = Inr ()"
    using ids(1) by (simp add: rid names_requests_def request_id_def)
  ultimately obtain g1 where rec: "record_pending_approval t (ar_request_id rq) (ar_intent rq) (ar_requested_tool_id rq)
      (ra_canonical_capability (rt_assessment w)) (ar_requested_category rq) (ar_allowed_category rq)
      (ar_recommended_tool_id rq) (ar_reason rq) g = Inr g1"
    using cap ids(2) request_intent [OF n(1)] rid(2) rq(2) by (simp add: record_pending_approval_def)
  have "decide_resolution xe gw (quiet_resolve t) i (Some tid) cs g = (Inr (Resolved ?first), g1)"
    using sn rq w none rec rid(1) by (simp add: decide_resolution_def Let_def quiet_resolve_def)
  then have "resolve_intent xe gw (quiet_resolve t) body g = (Inr (Resolved ?first), g1)"
    using n by (simp add: resolve_intent_def)
  moreover have "gov_wf g1" "authority g1 = authority g"
    using wf_record_pending [OF wf rec] record_pending_effect [OF rec] by simp_all
  moreover have "gv_once g1 = gv_once g"
    "\<exists>p\<in>set (gv_pending g1). pr_request_id p = ar_request_id rq \<and> pr_tool_id p = tid \<and> pr_status p = PENDING"
    using rec rq(2) by (auto simp: record_pending_approval_def upsert_def update_where_bex image_iff split: if_splits)
  ultimately show ?thesis using rid rq(1) by (intro exI [of _ ?first] exI [of _ g1]) simp_all
qed

lemma approval_used:
  assumes need: "needs_approval xe gw body i tid g" and has: "has_unconsumed_once (request_id (xe_sha xe) i tid) tid g"
  shows "\<exists>res. resolve_intent xe gw (quiet_resolve t) body g =
      (Inr (Resolved res), snd (consume_once t (request_id (xe_sha xe) i tid) tid g)) \<and>
    map_option rt_id (rs_selected res) = Some tid"
proof -
  from need obtain tools cs w sn where wf: "gov_wf g" and
    n: "read_request xe body = Inr (i, Some tid, tools)" "tools \<noteq> []"
      "map_result (classify_tool xe gw i) (take max_tools tools) = Inr cs" and w: "find (\<lambda>r. rt_id r = tid) cs = Some w"
    and stop: "\<not> sn_emergency_stop sn" and over: "gw_max_auto gw < effective_category (map_of (sn_overrides sn)) w"
      "tid \<notin> set (sn_exceptions sn)"
    and sn: "gov_snapshot g = Inr sn" unfolding needs_approval_def by (elim conjE exE) (rule that)
  obtain rq where rq: "rs_approval_required (snapshot_resolve xe gw sn i (Some tid) cs {}) = Some rq" "ar_requested_tool_id rq = tid"
    using first_asks [OF w stop over] by blast
  note shape = approval_shape [OF rq(1), unfolded rq(2)]
  let ?second = "snapshot_resolve xe gw sn i (Some tid) cs {tid}"
  have rid: "ar_request_id rq = request_id (xe_sha xe) i tid" and sel: "map_option rt_id (rs_selected ?second) = Some tid"
    using shape by blast+
  have ok: "fst (consume_once t (request_id (xe_sha xe) i tid) tid g) = True" using fst_consume_once [OF wf] has by simp
  have "decide_resolution xe gw (quiet_resolve t) i (Some tid) cs g =
      (Inr (Resolved ?second), snd (consume_once t (request_id (xe_sha xe) i tid) tid g))"
    using sn rq w has rid sel ok by (simp add: decide_resolution_def Let_def quiet_resolve_def case_prod_unfold)
  then show ?thesis using n sel by (intro exI [of _ ?second]) (simp add: resolve_intent_def)
qed

lemma approval_given:
  assumes "validate_identifier rid 100 = Inr ()" "validate_identifier tid 300 = Inr ()" "gov_wf g"
    and "\<not> (\<exists>r\<in>set (gv_exec g). er_request_id r = rid \<and> er_tool_id r = tid \<and> er_status r = PENDING)"
    and "\<exists>p\<in>set (gv_pending g). pr_request_id p = rid \<and> pr_tool_id p = tid \<and> pr_status p = PENDING"
  shows "\<exists>g'. grant_once now gid rid tid ttl g = Inr (None, g') \<and> gov_wf g' \<and> authority g' = authority g \<and>
    has_unconsumed_once rid tid g'"
proof -
  have "find (\<lambda>r. er_request_id r = rid \<and> er_tool_id r = tid \<and> er_status r = PENDING) (gv_exec g) = None"
    "find (\<lambda>r. pr_request_id r = rid \<and> pr_tool_id r = tid \<and> pr_status r = PENDING) (gv_pending g) \<noteq> None"
    using assms(4,5) by (auto simp: find_None_iff)
  then obtain g' where g': "grant_once now gid rid tid ttl g = Inr (None, g')"
    using assms(1,2) by (auto simp: grant_once_def)
  then have "authority g' = authority g" "has_unconsumed_once rid tid g'"
    using \<open>find _ (gv_exec g) = None\<close> assms(1,2)
    by (auto simp: grant_once_def authority_def has_once_eq once_hit_def upsert_def update_where_bex image_iff split: if_splits)
  with g' wf_grant_once [OF assms(3) g'] show ?thesis by blast
qed

section \<open>Properties\<close>

lemma snapshot_resolve_intent: "rs_intent (snapshot_resolve xe gw sn i q cs once) = i"
  by (simp add: snapshot_resolve_def resolve_def Let_def case_prod_unfold)

text \<open>
  (C8) On what ground the gateway hands out a tool, whatever other requests do meanwhile. The emergency stop
  was off in the snapshot the decision used, and either the tool is within the automatic ceiling or has an exception in
  that snapshot, and then the store is left as it was; or it is the tool asked for, and exactly one approval of this intent
  and this tool, unspent until then, has been spent for it.
\<close>

theorem resolve_grounds:
  assumes "keeps_wf rx" "gov_wf g" "resolve_intent xe gw rx body g = (Inr (Resolved res), g')" "rs_selected res = Some r"
  shows "\<exists>sn. gov_snapshot g = Inr sn \<and> \<not> sn_emergency_stop sn \<and>
    ((effective_category (map_of (sn_overrides sn)) r \<le> gw_max_auto gw \<or> rt_id r \<in> set (sn_exceptions sn)) \<and> g' = g \<or>
     (let rid = request_id (xe_sha xe) (rs_intent res) (rt_id r); h = rx_before_act rx (rx_before_check rx g)
      in has_unconsumed_once rid (rt_id r) h \<and> g' = snd (consume_once (rx_time rx) rid (rt_id r) h) \<and>
         \<not> has_unconsumed_once rid (rt_id r) g'))"
proof -
  obtain i q tools cs where run: "decide_resolution xe gw rx i q cs g = (Inr (Resolved res), g')"
    using resolve_intent_Resolved [OF assms(3)] by blast
  from run show ?thesis
  proof (cases rule: decide_cases)
    case (plain sn)
    from selected_grounds [OF assms(4) [unfolded plain(2)]] plain show ?thesis by auto
  next
    case (approved sn tid)
    let ?h = "rx_before_act rx (rx_before_check rx g)"
    have tid: "rt_id r = tid" using approved(4) assms(4) by simp
    have "gov_wf ?h" using assms(1,2) by (simp add: keeps_wf_def)
    note spent = consume_once_True [OF this approved(5)]
    have g': "g' = snd (consume_once (rx_time rx) (request_id (xe_sha xe) i tid) tid ?h)" using approved(5) by simp
    have stop: "\<not> sn_emergency_stop sn" using selected_grounds [OF assms(4) [unfolded approved(3)]] by blast
    have i: "rs_intent res = i" unfolding approved(3) by (rule snapshot_resolve_intent)
    show ?thesis unfolding Let_def i tid using approved(1) stop spent g' by blast
  next
    case (asked sn rq)
    then show ?thesis using assms(4) by simp
  qed
qed

text \<open>
  (C9) One approval serves one resolution. A tool above the ceiling that is asked for by name is not selected, and the
  request is recorded; once the operator allows it, the same request selects it; the next one asks again.
\<close>

theorem one_approval_one_resolution:
  assumes "needs_approval xe gw body i tid g" "names_requests (xe_sha xe)" "validate_identifier tid 300 = Inr ()"
    and "rid = request_id (xe_sha xe) i tid" "\<not> has_unconsumed_once rid tid g"
    and "\<not> (\<exists>r\<in>set (gv_exec g). er_request_id r = rid \<and> er_tool_id r = tid \<and> er_status r = PENDING)"
  shows "\<exists>res1 g1 g2 res2 g3 res3 g4.
    resolve_intent xe gw (quiet_resolve t1) body g = (Inr (Resolved res1), g1) \<and>
    rs_selected res1 = None \<and> rs_approval_required res1 \<noteq> None \<and>
    grant_once t2 gid rid tid ttl g1 = Inr (None, g2) \<and>
    resolve_intent xe gw (quiet_resolve t3) body g2 = (Inr (Resolved res2), g3) \<and>
    map_option rt_id (rs_selected res2) = Some tid \<and>
    resolve_intent xe gw (quiet_resolve t4) body g3 = (Inr (Resolved res3), g4) \<and>
    rs_selected res3 = None \<and> rs_approval_required res3 \<noteq> None"
proof -
  obtain res1 g1 where r1: "resolve_intent xe gw (quiet_resolve t1) body g = (Inr (Resolved res1), g1)"
    "rs_selected res1 = None" "rs_approval_required res1 \<noteq> None" "gov_wf g1" "authority g1 = authority g" "gv_once g1 = gv_once g"
    "\<exists>p\<in>set (gv_pending g1). pr_request_id p = rid \<and> pr_tool_id p = tid \<and> pr_status p = PENDING"
    using approval_asked [OF assms(1-3), of t1] assms(4,5) by auto
  have "validate_identifier rid 100 = Inr ()" using assms(2,4) by (simp add: names_requests_def request_id_def)
  moreover have "\<not> (\<exists>r\<in>set (gv_exec g1). er_request_id r = rid \<and> er_tool_id r = tid \<and> er_status r = PENDING)"
    using r1(5) assms(6) by (simp add: authority_def)
  ultimately obtain g2 where g2: "grant_once t2 gid rid tid ttl g1 = Inr (None, g2)" "gov_wf g2" "authority g2 = authority g1"
    "has_unconsumed_once rid tid g2"
    using approval_given [OF _ assms(3) r1(4) _ r1(7)] by blast
  have n2: "needs_approval xe gw body i tid g2"
    using g2(2,3) r1(5) by (intro needs_approval_cong [OF assms(1)]) (simp_all add: authority_def)
  let ?g3 = "snd (consume_once t3 rid tid g2)"
  obtain res2 where r2: "resolve_intent xe gw (quiet_resolve t3) body g2 = (Inr (Resolved res2), ?g3)"
    "map_option rt_id (rs_selected res2) = Some tid"
    using approval_used [OF n2, of t3] g2(4) assms(4) by auto
  have wf3: "gov_wf ?g3" by (rule wf_consume_once [OF g2(2)])
  have "authority ?g3 = authority g2" using consume_once_effect by blast
  then have n3: "needs_approval xe gw body i tid ?g3"
    using wf3 by (intro needs_approval_cong [OF n2]) (simp_all add: authority_def)
  have "consume_once t3 rid tid g2 = (True, ?g3)"
    using fst_consume_once [OF g2(2), of t3 rid tid] g2(4) by (metis prod.collapse)
  from consume_once_True [OF g2(2) this] have "\<not> has_unconsumed_once (request_id (xe_sha xe) i tid) tid ?g3"
    using assms(4) by simp
  from approval_asked [OF n3 assms(2,3) this, of t4] obtain res3 g4 where
    "resolve_intent xe gw (quiet_resolve t4) body ?g3 = (Inr (Resolved res3), g4)"
    "rs_selected res3 = None" "rs_approval_required res3 \<noteq> None" by blast
  with r1(1-3) g2(1) r2 show ?thesis by blast
qed


text \<open>A small gateway, whose judge reports a tool that writes and sends data out.\<close>

definition demo_verdict :: json where
  "demo_verdict = JObj
     [(''canonical_capability'', JStr ''repo.file''), (''read'', JBool True), (''write'', JBool True),
      (''destructive'', JBool False), (''egress'', JBool True), (''credential_access'', JBool False),
      (''arbitrary_execution'', JBool False), (''open_world'', JBool False), (''rationale'', JStr ''r''),
      (''confidence'', JFloat (Fin 1)), (''intent_fit'', JFloat (Fin 1))]"

definition demo_body :: pydict where
  "demo_body = [(''intent'', JStr ''push''), (''requested_tool_id'', JStr ''s:a''),
     (''tools'', JArr [JObj [(''server_id'', JStr ''s''), (''tool_name'', JStr ''a'')]])]"

definition demo_xe :: gateway_env where
  "demo_xe = \<lparr>xe_float_repr = (\<lambda>_. ''1.0''), xe_prompt = [], xe_post = (\<lambda>_ _. Some ''x''),
     xe_loadb = (\<lambda>_. Inr (JObj [(''choices'', JArr [JObj [(''message'', JObj [(''content'', JStr ''c'')])]])])),
     xe_loads = (\<lambda>_. Inr demo_verdict), xe_fetch = (\<lambda>_. None), xe_body = (\<lambda>_. Some (JObj demo_body)),
     xe_sha = (\<lambda>_. ''req''), xe_time_text = (\<lambda>_. ''now'')\<rparr>"

definition demo_gateway :: "risk_category \<Rightarrow> gateway" where
  "demo_gateway c = \<lparr>gw_max_auto = c, gw_judge = \<lparr>jd_base_url = ''u'', jd_api_key = ''k'', jd_model = ''m''\<rparr>,
     gw_admin_key = ''a'', gw_ttl = 60, gw_mode = ''resolver'', gw_proxy = None\<rparr>"

definition demo_post :: http_in where
  "demo_post = \<lparr>hi_path = ''/v1/resolve'', hi_headers = [''Content-Length'' \<mapsto> ''9''], hi_read = (\<lambda>_. ''x'')\<rparr>"

definition demo_classified :: tool_semantics where
  "demo_classified = \<lparr>ts_canonical_capability = ''repo.file'', ts_read = True, ts_write = True, ts_destructive = False,
      ts_egress = True, ts_credential_access = False, ts_arbitrary_execution = False, ts_open_world = False,
      ts_rationale = ''r'', ts_confidence = Fin 1\<rparr>"

definition demo_candidate :: ranked_tool where
  "demo_candidate = \<lparr>rt_tool = demo_tool ''a'', rt_assessment = assess_risk (demo_tool ''a'') demo_classified,
     rt_intent_fit = Fin 1, rt_dominated = False, rt_dominance_reason = None\<rparr>"

lemma demo_answer_read: "read_answer (xe_loadb demo_xe) (xe_loads demo_xe) ''x'' = Inr (demo_classified, Fin 1)"
  by code_simp

lemma demo_classify: "map_result (classify_tool demo_xe (demo_gateway c) i) (take max_tools [demo_tool ''a'']) = Inr [demo_candidate]"
  using demo_answer_read
  by (simp add: classify_tool_def judge_classify_def demo_xe_def max_tools_def demo_candidate_def)

lemma demo_request: "read_request demo_xe demo_body = Inr (''push'', Some ''s:a'', [demo_tool ''a''])"
  by code_simp

lemma demo_resolve: "resolve_intent demo_xe (demo_gateway c) rx demo_body g =
    decide_resolution demo_xe (demo_gateway c) rx ''push'' (Some ''s:a'') [demo_candidate] g"
  by (simp add: resolve_intent_def demo_request demo_classify)

lemma demo_wf: "gov_wf demo_store"
  by (rule empty_gov_wf)

lemma demo_no_once: "\<not> has_unconsumed_once rid t demo_store"
  by (simp add: has_unconsumed_once_def gov_initialize_def empty_governance_def)

lemma demo_needs: "needs_approval demo_xe (demo_gateway LOW) demo_body ''push'' ''s:a'' demo_store"
proof -
  have "find (\<lambda>r. rt_id r = ''s:a'') [demo_candidate] = Some demo_candidate" by code_simp
  moreover have "gw_max_auto (demo_gateway LOW) < effective_category (map_of []) demo_candidate" by code_simp
  ultimately show ?thesis
    using demo_wf demo_snapshot demo_request demo_classify unfolding needs_approval_def
    by (intro conjI exI [of _ "[demo_tool ''a'']"] exI [of _ "[demo_candidate]"] exI [of _ demo_candidate]
        exI [of _ "\<lparr>sn_emergency_stop = False, sn_exceptions = [], sn_overrides = [], sn_pending = []\<rparr>"]) simp_all
qed

theorem resolve_grounds_witness:
  "\<exists>res r. resolve_intent demo_xe (demo_gateway CRITICAL) (quiet_resolve 0) demo_body demo_store = (Inr (Resolved res), demo_store) \<and>
     rs_selected res = Some r \<and> rt_id r = ''s:a''"
proof -
  have "case decide_resolution demo_xe (demo_gateway CRITICAL) (quiet_resolve 0) ''push'' (Some ''s:a'') [demo_candidate] demo_store of
      (Inr (Resolved res), g') \<Rightarrow> map_option rt_id (rs_selected res) = Some ''s:a'' | _ \<Rightarrow> False" by code_simp
  then obtain res r g' where run: "resolve_intent demo_xe (demo_gateway CRITICAL) (quiet_resolve 0) demo_body demo_store
      = (Inr (Resolved res), g')" and r: "rs_selected res = Some r" "rt_id r = ''s:a''"
    unfolding demo_resolve by (auto split: prod.splits sum.splits resolve_outcome.splits)
  have "g' = demo_store"
    using resolve_grounds [OF keeps_wf_quiet demo_wf run r(1)] by (auto simp: Let_def quiet_resolve_def demo_no_once)
  with run r show ?thesis by blast
qed

theorem one_approval_one_resolution_witness:
  "\<exists>g2 res g3. resolve_intent demo_xe (demo_gateway LOW) (quiet_resolve 3) demo_body g2 = (Inr (Resolved res), g3) \<and>
     map_option rt_id (rs_selected res) = Some ''s:a''"
proof -
  have names: "names_requests (xe_sha demo_xe)"
    by (simp add: names_requests_def demo_xe_def) code_simp
  have tid: "validate_identifier ''s:a'' 300 = Inr ()" by code_simp
  have "\<not> (\<exists>r\<in>set (gv_exec demo_store). er_request_id r = request_id (xe_sha demo_xe) ''push'' ''s:a'' \<and>
      er_tool_id r = ''s:a'' \<and> er_status r = PENDING)"
    by (simp add: gov_initialize_def empty_governance_def)
  from one_approval_one_resolution [OF demo_needs names tid refl demo_no_once this, of 1 2 "''g''" 60 3 4]
  show ?thesis by blast
qed


end
