(* ===== verification/IntentGate.thy ===== *)
theory IntentGate
  imports PyText
begin

text \<open>
  \<open>hermes-plugins/hermeteam-intent-action-gate\<close>: hooks of the agent runtime that record what the model
  proposes and compare it with the tool call that is attempted. Payloads are JSON values. The hooks keep the proposals of
  each session in a queue of at most 64; a hook also emits events, which are the second component of the
  state. The environment of the process is read at every call and so an argument, like the clock.
\<close>

section \<open>Risk\<close>

datatype gate_risk = Low | Medium | High | Critical

fun gate_value :: "gate_risk \<Rightarrow> nat" where
  "gate_value Low = 0"
| "gate_value Medium = 1"
| "gate_value High = 2"
| "gate_value Critical = 3"

fun gate_name :: "gate_risk \<Rightarrow> string" where
  "gate_name Low = ''low''"
| "gate_name Medium = ''medium''"
| "gate_name High = ''high''"
| "gate_name Critical = ''critical''"

lemma gate_value_inj [simp]: "gate_value a = gate_value b \<longleftrightarrow> a = b"
  by (cases a; cases b) simp_all

instantiation gate_risk :: linorder
begin

definition less_eq_gate_risk :: "gate_risk \<Rightarrow> gate_risk \<Rightarrow> bool" where
  "less_eq_gate_risk a b \<longleftrightarrow> gate_value a \<le> gate_value b"

definition less_gate_risk :: "gate_risk \<Rightarrow> gate_risk \<Rightarrow> bool" where
  "less_gate_risk a b \<longleftrightarrow> gate_value a < gate_value b"

instance
  by standard (auto simp: less_eq_gate_risk_def less_gate_risk_def)

end

lemmas gate_order = less_eq_gate_risk_def less_gate_risk_def

lemma gate_least [simp]: "Low \<le> a" and gate_greatest [simp]: "a \<le> Critical"
  by (cases a; simp add: gate_order)+

section \<open>The environment\<close>

text \<open>The runtime's functions; \<open>ge_loads\<close> is \<open>json.loads\<close>, \<open>None\<close> when it raises.\<close>

record gate_env =
  ge_float_repr :: "pyfloat \<Rightarrow> string"
  ge_sha :: "string \<Rightarrow> string"
  ge_str :: "json \<Rightarrow> string"
  ge_loads :: "string \<Rightarrow> json option"

definition read_env :: "(string \<rightharpoonup> string) \<Rightarrow> string \<Rightarrow> string \<Rightarrow> string" where
  "read_env environ name fallback = py_strip (case environ name of Some v \<Rightarrow> v | None \<Rightarrow> fallback)"

datatype gate_mode = Record | Shadow | Enforce

fun mode_name :: "gate_mode \<Rightarrow> string" where
  "mode_name Record = ''record''"
| "mode_name Shadow = ''shadow''"
| "mode_name Enforce = ''enforce''"

definition mode_of :: "(string \<rightharpoonup> string) \<Rightarrow> gate_mode" where
  "mode_of environ = (case find (\<lambda>m. mode_name m = py_lower (read_env environ ''HERMETEAM_GATE_MODE'' ''shadow''))
     [Record, Shadow, Enforce] of Some m \<Rightarrow> m | None \<Rightarrow> Shadow)"

definition block_level :: "(string \<rightharpoonup> string) \<Rightarrow> gate_risk" where
  "block_level environ = (case find (\<lambda>r. gate_name r = py_lower (read_env environ ''HERMETEAM_GATE_BLOCK_LEVEL'' ''critical''))
     [Low, Medium, High, Critical] of Some r \<Rightarrow> r | None \<Rightarrow> Critical)"

section \<open>Bounded copies\<close>

definition sensitive_keys :: "string list" where
  "sensitive_keys = [''authorization'', ''api_key'', ''apikey'', ''token'', ''secret'', ''password'', ''content'',
     ''contents'', ''file_content'', ''private_key'']"

definition is_sensitive :: "string \<Rightarrow> bool" where
  "is_sensitive key \<longleftrightarrow> py_lower key \<in> set sensitive_keys"

definition stable_hash :: "gate_env \<Rightarrow> json \<Rightarrow> string" where
  "stable_hash ge v = ge_sha ge (dumps (ge_float_repr ge) v)"

fun type_name :: "json \<Rightarrow> string" where
  "type_name JNull = ''NoneType''"
| "type_name (JBool b) = ''bool''"
| "type_name (JInt i) = ''int''"
| "type_name (JFloat f) = ''float''"
| "type_name (JStr s) = ''str''"
| "type_name (JArr xs) = ''list''"
| "type_name (JObj d) = ''dict''"

definition omitted :: "string \<Rightarrow> string \<Rightarrow> json" where
  "omitted key v = JObj [(''omitted'', JBool True), (key, JStr v)]"

lemma size_in_array: "x \<in> set xs \<Longrightarrow> size x < Suc (size_list size xs)"
  using size_list_estimation' [of x xs "size x" size] by simp

lemma size_in_object: "(k, v) \<in> set d \<Longrightarrow> size v < Suc (size_list (size_prod (\<lambda>_. 0) size) d)"
  by (induction d) auto

function bounded :: "gate_env \<Rightarrow> nat \<Rightarrow> json \<Rightarrow> json" where
  "bounded ge depth v =
     (if 4 < depth then omitted ''type'' (type_name v)
      else (case v of
          JStr s \<Rightarrow>
            if length s \<le> 256 then v
            else JObj [(''type'', JStr ''text''), (''chars'', JInt (int (length s))), (''sha256'', JStr (ge_sha ge s))]
        | JArr xs \<Rightarrow> JArr (map (bounded ge (depth + 1)) (take 25 xs))
        | JObj d \<Rightarrow> JObj (map (\<lambda>kv. (fst kv,
              if is_sensitive (fst kv) then omitted ''sha256'' (stable_hash ge (snd kv))
              else bounded ge (depth + 1) (snd kv))) (take 50 d))
        | _ \<Rightarrow> v))"
  by pat_completeness auto

termination
  by (relation "measure (\<lambda>(ge, depth, v). size v)") (auto dest!: in_set_takeD intro: size_in_array size_in_object)

declare bounded.simps [simp del]

text \<open>The text a classification looks at.\<close>

function text_parts :: "nat \<Rightarrow> json \<Rightarrow> string list" where
  "text_parts depth v =
     (if 4 < depth then []
      else (case v of
          JStr s \<Rightarrow> [take 1000 s]
        | JObj d \<Rightarrow> concat (map (\<lambda>kv. if is_sensitive (fst kv) then [] else text_parts (depth + 1) (snd kv)) (take 50 d))
        | JArr xs \<Rightarrow> concat (map (text_parts (depth + 1)) (take 50 xs))
        | _ \<Rightarrow> []))"
  by pat_completeness auto

termination
  by (relation "measure (\<lambda>(depth, v). size v)") (auto dest!: in_set_takeD intro: size_in_array size_in_object)

declare text_parts.simps [simp del]

definition flatten_text :: "json \<Rightarrow> string" where
  "flatten_text v = join_str '' '' (text_parts 0 v)"

section \<open>Classification\<close>

definition read_prefixes :: "string list" where
  "read_prefixes = [''get_'', ''list_'', ''read_'', ''search_'', ''query_'', ''fetch_'', ''inspect_'', ''view_'']"

definition write_words :: "string list" where
  "write_words = [''create'', ''update'', ''push'', ''write'', ''edit'', ''delete'', ''remove'', ''merge'', ''close'',
     ''trigger'', ''run'', ''execute'', ''apply'', ''deploy'', ''release'', ''publish'', ''set'', ''modify'',
     ''upload'', ''commit'']"

definition critical_words :: "string list" where
  "critical_words = [''merge'', ''deploy'', ''release'', ''destroy'', ''delete_repository'', ''secret'', ''permission'',
     ''ruleset'', ''branch_protection'', ''admin'']"

definition irreversible_words :: "string list" where
  "irreversible_words = [''merge'', ''deploy'', ''release'', ''destroy'']"

definition is_slash :: "char \<Rightarrow> bool" where
  "is_slash c \<longleftrightarrow> c = CHR ''/'' \<or> c = CHR 0x5C"

text \<open>\<open>PROTECTED_RE\<close> and \<open>PROD_RE\<close>, both without regard to case.\<close>

definition protected_dirs :: "string list" where
  "protected_dirs = [''.github/workflows'', ''.github'' @ [CHR 0x5C] @ ''workflows'', ''.github/actions'',
     ''.github'' @ [CHR 0x5C] @ ''actions'', ''policies'', ''kubernetes'', ''secret'', ''secrets'']"

fun word_here :: "string \<Rightarrow> string \<Rightarrow> bool" where
  "word_here [] s = True"
| "word_here (w # ws) [] = False"
| "word_here (w # ws) (c # s) = (if lower_char c = w then word_here ws s else False)"

definition ends_at_slash :: "string \<Rightarrow> bool" where
  "ends_at_slash r \<longleftrightarrow> r = [] \<or> r = [newline] \<or> is_slash (hd r)"

definition ends_word :: "string \<Rightarrow> bool" where
  "ends_word r \<longleftrightarrow> r = [] \<or> \<not> is_word_char (hd r)"

definition protected_here :: "char option \<Rightarrow> string \<Rightarrow> bool" where
  "protected_here prev s =
     (if (case prev of None \<Rightarrow> True | Some c \<Rightarrow> is_slash c)
      then list_ex (\<lambda>w. if word_here w s then ends_at_slash (drop (length w) s) else False) protected_dirs
      else False)"

definition prod_words :: "string list" where
  "prod_words = [''prod'', ''production'', ''main'', ''master'']"

definition prod_here :: "char option \<Rightarrow> string \<Rightarrow> bool" where
  "prod_here prev s =
     (if (case prev of None \<Rightarrow> True | Some c \<Rightarrow> \<not> is_word_char c)
      then list_ex (\<lambda>w. if word_here w s then ends_word (drop (length w) s) else False) prod_words
      else False)"

definition protected_target :: "string \<Rightarrow> bool" where
  "protected_target = search_at protected_here None"

definition prod_target :: "string \<Rightarrow> bool" where
  "prod_target = search_at prod_here None"

text \<open>Risk and category by the name alone, with the reason given.\<close>

definition name_class :: "string \<Rightarrow> gate_risk \<times> string \<times> string list" where
  "name_class name =
     (if list_ex (\<lambda>p. starts_with p name) read_prefixes then (Low, ''read'', [])
      else if list_ex (\<lambda>w. contains_str w name) critical_words then (Critical, ''privileged_write'', [''privileged_tool''])
      else if list_ex (\<lambda>w. contains_str w name) write_words then (Medium, ''write'', [''state_changing_tool''])
      else (Medium, ''unknown'', [''unknown_tool_semantics'']))"

definition classify_action :: "string \<Rightarrow> json \<Rightarrow> gate_risk \<times> string \<times> string list" where
  "classify_action tool_name args =
     (let name = py_lower (py_strip tool_name); txt = name @ '' '' @ flatten_text args in
      if name = [] then (High, ''unknown'', [''missing_tool_name''])
      else (case name_class name of (risk, category, reasons) \<Rightarrow>
        let protected = protected_target txt;
            prod = prod_target txt \<and> category \<noteq> ''read'';
            irreversible = list_ex (\<lambda>w. contains_str w name) irreversible_words in
        (if irreversible then Critical else if protected \<or> prod then max risk High else risk,
         category,
         nub_first (reasons @ (if protected then [''protected_target''] else []) @
           (if prod then [''production_or_default_branch_target''] else []) @
           (if irreversible then [''irreversible_or_privileged_operation''] else [])))))"

section \<open>Proposed tool calls\<close>

record tool_call =
  tc_id :: string
  tc_name :: string
  tc_args :: json

definition call_name :: "gate_env \<Rightarrow> pydict \<Rightarrow> string" where
  "call_name ge call = (case dict_get call ''function'' of
     JObj fn \<Rightarrow> json_str (ge_str ge) (if truthy (dict_get fn ''name'') then dict_get fn ''name'' else first_truthy call [''name''])
   | _ \<Rightarrow> str_field (ge_str ge) call [''name''])"

definition call_args :: "gate_env \<Rightarrow> pydict \<Rightarrow> json" where
  "call_args ge call =
     (let raw = (case dict_get call ''function'' of
            JObj fn \<Rightarrow> if dict_has fn ''arguments'' then dict_get fn ''arguments'' else dict_get call ''arguments''
          | _ \<Rightarrow> dict_get call ''arguments'');
          args = (case raw of
            JStr s \<Rightarrow> (case ge_loads ge s of Some v \<Rightarrow> v
              | None \<Rightarrow> JObj [(''raw_arguments_hash'', JStr (ge_sha ge s)), (''chars'', JInt (int (length s)))])
          | _ \<Rightarrow> raw) in
      case args of JObj _ \<Rightarrow> args | JArr _ \<Rightarrow> args | _ \<Rightarrow> JObj [(''value'', args)])"

definition normalize_tool_call :: "gate_env \<Rightarrow> pydict \<Rightarrow> tool_call" where
  "normalize_tool_call ge call =
     \<lparr>tc_id = str_field (ge_str ge) call [''id'', ''call_id''], tc_name = call_name ge call, tc_args = call_args ge call\<rparr>"

text \<open>\<open>x in {\<dots>}\<close> hashes \<open>x\<close>, and lists and dictionaries have no hash.\<close>

definition in_string_set :: "json \<Rightarrow> string list \<Rightarrow> bool result" where
  "in_string_set v ws = (case v of
     JArr _ \<Rightarrow> Inl (TypeError ''unhashable type: list'')
   | JObj _ \<Rightarrow> Inl (TypeError ''unhashable type: dict'')
   | JStr s \<Rightarrow> Inr (s \<in> set ws)
   | _ \<Rightarrow> Inr False)"

definition calls_here :: "gate_env \<Rightarrow> pydict \<Rightarrow> tool_call list result" where
  "calls_here ge d =
     result_bind (in_string_set (dict_get d ''type'') [''function_call'', ''tool_call'']) (\<lambda>is_call.
     Inr ((case dict_get d ''tool_calls'' of
            JArr calls \<Rightarrow> List.map_filter (\<lambda>c. case c of JObj call \<Rightarrow> Some (normalize_tool_call ge call) | _ \<Rightarrow> None) calls
          | _ \<Rightarrow> []) @
        (if is_call \<and> (truthy (dict_get d ''name'') \<or> truthy (dict_get d ''function'')) then [normalize_tool_call ge d] else [])))"

function visit_calls :: "gate_env \<Rightarrow> nat \<Rightarrow> json \<Rightarrow> tool_call list result" where
  "visit_calls ge depth v =
     (if 8 < depth then Inr []
      else (case v of
          JObj d \<Rightarrow>
            result_bind (calls_here ge d) (\<lambda>here.
            result_bind (map_result (\<lambda>kv. visit_calls ge (depth + 1) (snd kv)) d) (\<lambda>below. Inr (here @ concat below)))
        | JArr xs \<Rightarrow> result_bind (map_result (visit_calls ge (depth + 1)) xs) (\<lambda>below. Inr (concat below))
        | _ \<Rightarrow> Inr []))"
  by pat_completeness auto

termination
  by (relation "measure (\<lambda>(ge, depth, v). size v)") (auto dest!: in_set_takeD intro: size_in_array size_in_object)

declare visit_calls.simps [simp del]

definition call_key :: "gate_env \<Rightarrow> tool_call \<Rightarrow> string \<times> string \<times> string" where
  "call_key ge c = (tc_id c, tc_name c, stable_hash ge (tc_args c))"

definition extract_tool_calls :: "gate_env \<Rightarrow> json \<Rightarrow> tool_call list result" where
  "extract_tool_calls ge v =
     result_bind (visit_calls ge 0 v) (\<lambda>found.
     Inr (foldl (\<lambda>seen c. upsert (call_key ge) c (\<lambda>_. c) seen) [] found))"

section \<open>State and events\<close>

record proposal =
  pp_call_id :: string
  pp_tool_name :: string
  pp_args_hash :: string
  pp_risk :: gate_risk
  pp_category :: string
  pp_reasons :: "string list"

record gate_state =
  gs_proposals :: "string \<Rightarrow> proposal list"
  gs_events :: "json list"

definition empty_gate :: gate_state where
  "empty_gate = \<lparr>gs_proposals = (\<lambda>_. []), gs_events = []\<rparr>"

text \<open>\<open>deque(maxlen=64)\<close>: appending drops the oldest entries.\<close>

definition max_proposals :: nat where
  "max_proposals = 64"

definition remember :: "string \<Rightarrow> proposal \<Rightarrow> gate_state \<Rightarrow> gate_state" where
  "remember session p st =
     (let queue = gs_proposals st session @ [p] in
      st\<lparr>gs_proposals := (gs_proposals st)(session := drop (length queue - max_proposals) queue)\<rparr>)"

text \<open>The last proposal with the identifier of the call; else the last with its name and arguments; else the last with its name.\<close>

definition match_proposal :: "string \<Rightarrow> string \<Rightarrow> string \<Rightarrow> string \<Rightarrow> gate_state \<Rightarrow> proposal option" where
  "match_proposal session call_id name args_hash st =
     (let proposals = rev (gs_proposals st session);
          by_id = (if call_id = [] then None else find (\<lambda>p. pp_call_id p = call_id) proposals);
          by_args = find (\<lambda>p. pp_tool_name p = name \<and> pp_args_hash p = args_hash) proposals in
      case by_id of Some p \<Rightarrow> Some p
      | None \<Rightarrow> (case by_args of Some p \<Rightarrow> Some p | None \<Rightarrow> find (\<lambda>p. pp_tool_name p = name) proposals))"

text \<open>An event; the fields given last follow the common ones.\<close>

definition gate_event :: "(string \<rightharpoonup> string) \<Rightarrow> string \<Rightarrow> string \<Rightarrow> pydict \<Rightarrow> json" where
  "gate_event environ now event_type extra = JObj
     ([(''schema'', JStr ''hermeteam.intent-action.v1''), (''plugin_version'', JStr ''0.1.0''), (''timestamp'', JStr now),
       (''event_type'', JStr event_type), (''role'', JStr (read_env environ ''ORCHESTRATOR_ROLE'' [])),
       (''repository'', JStr (let full = read_env environ ''GITHUB_REPOSITORY_FULL_NAME'' [] in
          if full \<noteq> [] then full else read_env environ ''REPOSITORY_ID'' []))] @ extra)"

definition emit :: "json \<Rightarrow> gate_state \<Rightarrow> gate_state" where
  "emit e st = st\<lparr>gs_events := gs_events st @ [e]\<rparr>"

section \<open>Hooks\<close>

text \<open>Fields copied from the keyword arguments as text, \<open>str(kwargs.get(k) or \<dots>)\<close>.\<close>

definition text_fields :: "gate_env \<Rightarrow> pydict \<Rightarrow> string list \<Rightarrow> pydict" where
  "text_fields ge kwargs ks = map (\<lambda>k. (k, JStr (str_field (ge_str ge) kwargs [k]))) ks"

definition mode_field :: "(string \<rightharpoonup> string) \<Rightarrow> string \<times> json" where
  "mode_field environ = (''mode'', JStr (mode_name (mode_of environ)))"

definition on_pre_api_request :: "gate_env \<Rightarrow> (string \<rightharpoonup> string) \<Rightarrow> string \<Rightarrow> pydict \<Rightarrow> gate_state \<Rightarrow> gate_state" where
  "on_pre_api_request ge environ now kwargs st = emit (gate_event environ now ''llm.request''
     (mode_field environ #
      text_fields ge kwargs [''session_id'', ''turn_id'', ''api_request_id'', ''provider'', ''model'', ''api_mode''] @
      map (\<lambda>k. (k, dict_get kwargs k)) [''message_count'', ''tool_count'', ''approx_input_tokens''] @
      [(''request_hash'', JStr (stable_hash ge (dict_get kwargs ''request''))),
       (''request'', bounded ge 0 (dict_get kwargs ''request''))])) st"

definition proposal_of :: "gate_env \<Rightarrow> tool_call \<Rightarrow> proposal" where
  "proposal_of ge c = (case classify_action (tc_name c) (tc_args c) of (risk, category, reasons) \<Rightarrow>
     \<lparr>pp_call_id = tc_id c, pp_tool_name = tc_name c, pp_args_hash = stable_hash ge (tc_args c), pp_risk = risk,
      pp_category = category, pp_reasons = reasons\<rparr>)"

definition propose :: "gate_env \<Rightarrow> (string \<rightharpoonup> string) \<Rightarrow> string \<Rightarrow> pydict \<Rightarrow> string \<Rightarrow> tool_call \<Rightarrow> gate_state \<Rightarrow> gate_state" where
  "propose ge environ now kwargs session c st =
     (let p = proposal_of ge c in
      emit (gate_event environ now ''intent.proposed_action''
        (mode_field environ # (''session_id'', JStr session) # text_fields ge kwargs [''turn_id'', ''api_request_id''] @
         [(''tool_call_id'', JStr (pp_call_id p)), (''tool_name'', JStr (pp_tool_name p)), (''args_hash'', JStr (pp_args_hash p)),
          (''args'', bounded ge 0 (tc_args c)), (''risk'', JStr (gate_name (pp_risk p))), (''category'', JStr (pp_category p)),
          (''reasons'', JArr (map JStr (pp_reasons p)))])) (remember session p st))"

definition response_event :: "gate_env \<Rightarrow> (string \<rightharpoonup> string) \<Rightarrow> string \<Rightarrow> pydict \<Rightarrow> json" where
  "response_event ge environ now kwargs = gate_event environ now ''llm.response''
     (mode_field environ # text_fields ge kwargs [''session_id'', ''turn_id'', ''api_request_id'', ''provider''] @
      [(''model'', JStr (str_field (ge_str ge) kwargs [''response_model'', ''model'']))] @
      text_fields ge kwargs [''finish_reason''] @
      [(''usage'', bounded ge 0 (dict_get kwargs ''usage'')),
       (''response_hash'', JStr (stable_hash ge (dict_get kwargs ''response''))),
       (''response'', bounded ge 0 (dict_get kwargs ''response''))])"

text \<open>An exception leaves the hook after the first event, with no proposal remembered.\<close>

definition on_post_api_request :: "gate_env \<Rightarrow> (string \<rightharpoonup> string) \<Rightarrow> string \<Rightarrow> pydict \<Rightarrow> gate_state
    \<Rightarrow> unit result \<times> gate_state" where
  "on_post_api_request ge environ now kwargs st =
     (let st1 = emit (response_event ge environ now kwargs) st in
      case extract_tool_calls ge (dict_get kwargs ''response'') of
        Inl e \<Rightarrow> (Inl e, st1)
      | Inr calls \<Rightarrow> (Inr (), foldl (\<lambda>st c. propose ge environ now kwargs (str_field (ge_str ge) kwargs [''session_id'']) c st) st1 calls))"

text \<open>What \<open>on_pre_tool_call\<close> decides, before it reports: risk, category, reasons, the proposal found, and whether it differs.\<close>

record verdict =
  vd_risk :: gate_risk
  vd_category :: string
  vd_reasons :: "string list"
  vd_matched :: bool
  vd_mismatch :: bool

definition judge_call :: "gate_env \<Rightarrow> string \<Rightarrow> string \<Rightarrow> string \<Rightarrow> json \<Rightarrow> gate_state \<Rightarrow> verdict" where
  "judge_call ge session call_id name args st =
     (let args_hash = stable_hash ge args in
      case classify_action name args of (risk, category, reasons) \<Rightarrow>
      let found = match_proposal session call_id name args_hash st;
          mismatch = (case found of None \<Rightarrow> True | Some p \<Rightarrow> pp_args_hash p \<noteq> args_hash) in
      \<lparr>vd_risk = (if mismatch then max risk High else risk), vd_category = category,
       vd_reasons = (if mismatch then nub_first (reasons @ [if found = None then ''no_matching_model_proposal''
         else ''intent_action_mismatch'']) else reasons),
       vd_matched = found \<noteq> None, vd_mismatch = mismatch\<rparr>)"

definition blocks :: "(string \<rightharpoonup> string) \<Rightarrow> verdict \<Rightarrow> bool" where
  "blocks environ vd \<longleftrightarrow> mode_of environ = Enforce \<and> block_level environ \<le> vd_risk vd"

definition block_message :: "string \<Rightarrow> verdict \<Rightarrow> string" where
  "block_message name vd = ''HermeTeam blocked '' @ py_repr name @ '': risk='' @ gate_name (vd_risk vd) @ ''; reasons='' @
     (let reasons = join_str '','' (vd_reasons vd) in if reasons = [] then ''threshold'' else reasons) @ ''.''"

definition on_pre_tool_call :: "gate_env \<Rightarrow> (string \<rightharpoonup> string) \<Rightarrow> string \<Rightarrow> pydict \<Rightarrow> gate_state
    \<Rightarrow> pydict option \<times> gate_state" where
  "on_pre_tool_call ge environ now kwargs st =
     (let session = str_field (ge_str ge) kwargs [''session_id'']; call_id = str_field (ge_str ge) kwargs [''tool_call_id''];
          name = str_field (ge_str ge) kwargs [''tool_name'']; args = dict_get kwargs ''args'';
          vd = judge_call ge session call_id name args st; blocked = blocks environ vd in
      (if blocked then Some [(''action'', JStr ''block''), (''message'', JStr (block_message name vd))] else None,
       emit (gate_event environ now ''action.requested''
         (mode_field environ # (''session_id'', JStr session) # text_fields ge kwargs [''turn_id'', ''api_request_id''] @
          [(''tool_call_id'', JStr call_id), (''tool_name'', JStr name), (''args_hash'', JStr (stable_hash ge args)),
           (''args'', bounded ge 0 args), (''risk'', JStr (gate_name (vd_risk vd))), (''category'', JStr (vd_category vd)),
           (''reasons'', JArr (map JStr (vd_reasons vd))), (''matched_model_proposal'', JBool (vd_matched vd)),
           (''proposal_mismatch'', JBool (vd_mismatch vd)),
           (''decision'', JStr (if blocked then ''DENY'' else if mode_of environ = Enforce then ''ALLOW'' else ''ALLOW_SHADOW''))])) st))"

definition on_post_tool_call :: "gate_env \<Rightarrow> (string \<rightharpoonup> string) \<Rightarrow> string \<Rightarrow> pydict \<Rightarrow> gate_state \<Rightarrow> gate_state" where
  "on_post_tool_call ge environ now kwargs st = emit (gate_event environ now ''action.completed''
     (mode_field environ #
      text_fields ge kwargs [''session_id'', ''turn_id'', ''api_request_id'', ''tool_call_id'', ''tool_name'', ''status''] @
      [(''duration_ms'', dict_get kwargs ''duration_ms'')] @ text_fields ge kwargs [''error_type''] @
      [(''result'', bounded ge 0 (dict_get kwargs ''result'')),
       (''result_hash'', JStr (stable_hash ge (dict_get kwargs ''result'')))])) st"

section \<open>The queues are the last proposals of each session\<close>

definition last_n :: "nat \<Rightarrow> 'a list \<Rightarrow> 'a list" where
  "last_n n xs = drop (length xs - n) xs"

lemma last_n_append: "last_n n (last_n n xs @ ys) = last_n n (xs @ ys)"
proof (cases "n \<le> length xs")
  case True
  then have "length xs - n + (n + length ys - n) = length xs + length ys - n" by simp
  with True show ?thesis by (simp add: last_n_def add.commute)
qed (simp add: last_n_def)

lemma last_n_Nil [simp]: "last_n n [] = []"
  by (simp add: last_n_def)

lemma length_last_n: "length (last_n n xs) \<le> n"
  by (simp add: last_n_def)

lemma set_last_n: "set (last_n n xs) \<subseteq> set xs"
  by (simp add: last_n_def set_drop_subset)

lemma emit_proposals [simp]: "gs_proposals (emit e st) = gs_proposals st"
  by (simp add: emit_def)

lemma propose_proposals:
  "gs_proposals (propose ge environ now kwargs s c st) s' =
     (if s' = s then last_n max_proposals (gs_proposals st s @ [proposal_of ge c]) else gs_proposals st s')"
  by (simp add: propose_def Let_def remember_def last_n_def)

lemma propose_all_proposals:
  "gs_proposals (foldl (\<lambda>st c. propose ge environ now kwargs s c st) st cs) s' =
     (if s' = s then if cs = [] then gs_proposals st s
        else last_n max_proposals (gs_proposals st s @ map (proposal_of ge) cs) else gs_proposals st s')"
  by (induction cs arbitrary: st) (auto simp: propose_proposals last_n_append)

text \<open>The proposals a response contains: none when the hook leaves with an exception.\<close>

definition proposals_in :: "gate_env \<Rightarrow> json \<Rightarrow> proposal list" where
  "proposals_in ge response = (case extract_tool_calls ge response of Inl e \<Rightarrow> [] | Inr cs \<Rightarrow> map (proposal_of ge) cs)"

definition proposed_by :: "gate_env \<Rightarrow> string \<Rightarrow> (string \<times> json) list \<Rightarrow> proposal list" where
  "proposed_by ge session posts = concat (map (\<lambda>(s, r). if s = session then proposals_in ge r else []) posts)"

lemma post_api_proposals:
  assumes "on_post_api_request ge environ now kwargs st = (r, st')" "length (gs_proposals st s) \<le> max_proposals"
  shows "gs_proposals st' s = (if s = str_field (ge_str ge) kwargs [''session_id'']
    then last_n max_proposals (gs_proposals st s @ proposals_in ge (dict_get kwargs ''response'')) else gs_proposals st s)"
  using assms
  by (auto simp: on_post_api_request_def Let_def proposals_in_def propose_all_proposals last_n_def split: sum.splits)

text \<open>The states the hooks can reach, with the responses seen so far and their sessions.\<close>

inductive gate_run :: "gate_env \<Rightarrow> (string \<times> json) list \<Rightarrow> gate_state \<Rightarrow> bool" for ge where
  start: "gate_run ge [] empty_gate"
| request: "gate_run ge posts st \<Longrightarrow> gate_run ge posts (on_pre_api_request ge environ now kwargs st)"
| response: "gate_run ge posts st \<Longrightarrow> on_post_api_request ge environ now kwargs st = (r, st') \<Longrightarrow>
    gate_run ge (posts @ [(str_field (ge_str ge) kwargs [''session_id''], dict_get kwargs ''response'')]) st'"
| call: "gate_run ge posts st \<Longrightarrow> on_pre_tool_call ge environ now kwargs st = (d, st') \<Longrightarrow> gate_run ge posts st'"
| done_call: "gate_run ge posts st \<Longrightarrow> gate_run ge posts (on_post_tool_call ge environ now kwargs st)"

lemma queue_is_recent:
  assumes "gate_run ge posts st"
  shows "gs_proposals st session = last_n max_proposals (proposed_by ge session posts)"
  using assms
proof induction
  case start
  then show ?case by (simp add: empty_gate_def proposed_by_def)
next
  case (response posts st environ now kwargs r st')
  let ?s = "str_field (ge_str ge) kwargs [''session_id'']" and ?r = "dict_get kwargs ''response''"
  have "length (gs_proposals st session) \<le> max_proposals" using response.IH by (simp add: length_last_n)
  note post_api_proposals [OF response.hyps(2) this]
  moreover have "proposed_by ge session (posts @ [(?s, ?r)]) =
      proposed_by ge session posts @ (if ?s = session then proposals_in ge ?r else [])"
    by (simp add: proposed_by_def)
  ultimately show ?case using response.IH
    by (cases "session = ?s") (auto simp: last_n_append)
qed (auto simp: on_pre_api_request_def on_pre_tool_call_def on_post_tool_call_def Let_def)

text \<open>
  (C13) The queue of a session holds exactly the last 64 proposals of that session's own responses, in their order,
  whatever hooks ran for other sessions.
\<close>

theorem queue_is_recent_proposals:
  assumes "gate_run ge posts st"
  shows "gs_proposals st session = last_n max_proposals (proposed_by ge session posts)"
  using assms by (rule queue_is_recent)

section \<open>What the gate lets through\<close>

lemma classify_cases:
  obtains risk category reasons where "classify_action name args = (risk, category, reasons)"
  by (metis prod_cases3)

lemma match_in:
  "match_proposal session call_id name h st = Some p \<Longrightarrow>
     p \<in> set (gs_proposals st session) \<and> (pp_call_id p = call_id \<and> call_id \<noteq> [] \<or> pp_tool_name p = name)"
  by (auto simp: match_proposal_def Let_def split: if_splits option.splits dest!: find_Some_in)

lemma judged:
  "vd_risk (judge_call ge session call_id name args st) =
     (if vd_mismatch (judge_call ge session call_id name args st) then max (fst (classify_action name args)) High
      else fst (classify_action name args))"
  "\<not> vd_mismatch (judge_call ge session call_id name args st) \<longleftrightarrow>
     (\<exists>p. match_proposal session call_id name (stable_hash ge args) st = Some p \<and> pp_args_hash p = stable_hash ge args)"
  by (rule classify_cases [of name args]; auto simp: judge_call_def Let_def split: option.splits)+

lemma passed:
  assumes "on_pre_tool_call ge environ now kwargs st = (None, st')" "mode_of environ = Enforce"
  shows "vd_risk (judge_call ge (str_field (ge_str ge) kwargs [''session_id'']) (str_field (ge_str ge) kwargs [''tool_call_id''])
    (str_field (ge_str ge) kwargs [''tool_name'']) (dict_get kwargs ''args'') st) < block_level environ"
  using assms by (auto simp: on_pre_tool_call_def Let_def blocks_def split: if_splits)


text \<open>A name with an irreversible word is critical, whatever its prefix; nothing but a reading name is low.\<close>

lemma classify_irreversible:
  "list_ex (\<lambda>w. contains_str w (py_lower (py_strip name))) irreversible_words \<Longrightarrow> fst (classify_action name args) = Critical"
  by (auto simp: classify_action_def Let_def irreversible_words_def split: prod.splits)

lemma classify_low:
  "fst (classify_action name args) = Low \<Longrightarrow>
     list_ex (\<lambda>p. starts_with p (py_lower (py_strip name))) read_prefixes \<and>
     \<not> protected_target (py_lower (py_strip name) @ '' '' @ flatten_text args)"
  by (auto simp: classify_action_def Let_def name_class_def max_def gate_order split: prod.splits if_splits)

text \<open>
  While the gate enforces, a tool whose name holds one of merge, deploy, release and destroy is blocked under every
  block level and every history, and the event says so; while it records or shadows nothing is blocked.
\<close>

theorem irreversible_blocked:
  assumes "on_pre_tool_call ge environ now kwargs st = (d, st')"
    and "list_ex (\<lambda>w. contains_str w (py_lower (py_strip (str_field (ge_str ge) kwargs [''tool_name''])))) irreversible_words"
  shows "(d \<noteq> None \<longleftrightarrow> mode_of environ = Enforce) \<and>
    (\<exists>e. gs_events st' = gs_events st @ [JObj e] \<and> dict_get e ''decision'' =
      JStr (if mode_of environ = Enforce then ''DENY'' else ''ALLOW_SHADOW''))"
proof -
  let ?vd = "judge_call ge (str_field (ge_str ge) kwargs [''session_id'']) (str_field (ge_str ge) kwargs [''tool_call_id''])
    (str_field (ge_str ge) kwargs [''tool_name'']) (dict_get kwargs ''args'') st"
  have "vd_risk ?vd = Critical"
    using judged(1) classify_irreversible [OF assms(2)] by (simp add: max_def gate_order split: if_splits)
  then have "blocks environ ?vd \<longleftrightarrow> mode_of environ = Enforce" by (simp add: blocks_def)
  with assms(1) show ?thesis
    by (auto simp: on_pre_tool_call_def Let_def emit_def gate_event_def text_fields_def mode_field_def)
qed

section \<open>What the log shows\<close>

text \<open>A bounded value: short strings, short lists, few members, at most \<open>n\<close> levels, and a marker under each sensitive key.\<close>

fun is_marker :: "json \<Rightarrow> bool" where
  "is_marker (JObj [(a, JBool b), (k, JStr h)]) = (a = ''omitted'' \<and> b \<and> k = ''sha256'')"
| "is_marker _ = False"

fun log_safe :: "nat \<Rightarrow> json \<Rightarrow> bool" where
  "log_safe n (JStr s) = (length s \<le> 256)"
| "log_safe n (JArr xs) = (0 < n \<and> length xs \<le> 25 \<and> (\<forall>x\<in>set xs. log_safe (n - 1) x))"
| "log_safe n (JObj d) = (0 < n \<and> length d \<le> 50 \<and>
     (\<forall>kv\<in>set d. log_safe (n - 1) (snd kv) \<and> (is_sensitive (fst kv) \<longrightarrow> is_marker (snd kv))))"
| "log_safe n _ = True"

text \<open>The value with each sensitive member replaced by the hash of what it holds.\<close>

fun veil :: "gate_env \<Rightarrow> json \<Rightarrow> json" where
  "veil ge (JArr xs) = JArr (map (veil ge) xs)"
| "veil ge (JObj d) = JObj (map (\<lambda>(k, v). (k, if is_sensitive k then JStr (stable_hash ge v) else veil ge v)) d)"
| "veil ge v = v"

lemma not_sensitive [simp]:
  "\<not> is_sensitive ''omitted''" "\<not> is_sensitive ''type''" "\<not> is_sensitive ''chars''" "\<not> is_sensitive ''sha256''"
  by code_simp+

lemma type_name_length: "length (type_name v) \<le> 8"
  by (cases v) simp_all

lemma bounded_log_safe:
  "(\<And>t. length (ge_sha ge t) \<le> 256) \<Longrightarrow> depth + n = 6 \<Longrightarrow> 0 < n \<Longrightarrow> log_safe n (bounded ge depth v)"
proof (induction ge depth v arbitrary: n rule: bounded.induct)
  case (1 ge depth v)
  note sha = 1(3)
  show ?case
  proof (cases "4 < depth")
    case True
    have "length (type_name v) \<le> 256" using type_name_length [of v] by simp
    with True 1(4,5) show ?thesis by (simp add: bounded.simps omitted_def)
  next
    case False
    define m where "m = 4 - depth"
    have n: "n = Suc (Suc m)" "depth + 1 + Suc m = 6" using False 1(4) by (simp_all add: m_def)
    show ?thesis
    proof (cases v)
      case (JStr t)
      then show ?thesis using False n sha by (simp add: bounded.simps)
    next
      case (JArr xs)
      have "log_safe (Suc m) (bounded ge (depth + 1) x)" if "x \<in> set (take 25 xs)" for x
        using 1(1) [OF False JArr that sha n(2)] by simp
      then show ?thesis using False JArr n by (simp add: bounded.simps [of ge depth])
    next
      case (JObj d)
      have "log_safe (Suc m) (bounded ge (depth + 1) (snd kv))" if "kv \<in> set (take 50 d)" "\<not> is_sensitive (fst kv)" for kv
        using 1(2) [OF False JObj that sha n(2)] by simp
      then show ?thesis using False JObj n sha
        by (auto simp: bounded.simps [of ge depth] omitted_def stable_hash_def)
    qed (use False in \<open>simp_all add: bounded.simps [of ge depth]\<close>)
  qed
qed

lemma veil_type: "veil ge v = veil ge w \<Longrightarrow> type_name v = type_name w"
  by (cases v; cases w) simp_all

lemma map_take_agree:
  "map g xs = map g ys \<Longrightarrow> (\<And>x y. x \<in> set (take n xs) \<Longrightarrow> g x = g y \<Longrightarrow> f x = f y) \<Longrightarrow>
     map f (take n xs) = map f (take n ys)"
proof (induction xs arbitrary: n ys)
  case (Cons x xs)
  then obtain y zs where ys: "ys = y # zs" "g x = g y" "map g xs = map g zs" by auto
  show ?case
  proof (cases n)
    case (Suc m)
    have "map f (take m xs) = map f (take m zs)"
      using Cons.prems(2) Suc by (intro Cons.IH [OF ys(3)]) simp
    with Suc ys Cons.prems(2) [of x y] show ?thesis by simp
  qed simp
qed simp

lemma veil_blind: "veil ge v = veil ge w \<Longrightarrow> bounded ge depth v = bounded ge depth w"
proof (induction ge depth v arbitrary: w rule: bounded.induct)
  case (1 ge depth v)
  show ?case
  proof (cases "4 < depth")
    case True
    with veil_type [OF 1(3)] show ?thesis by (simp add: bounded.simps)
  next
    case False
    show ?thesis
    proof (cases v)
      case (JArr xs)
      then obtain ys where w: "w = JArr ys" "map (veil ge) xs = map (veil ge) ys" using 1(3) by (cases w) auto
      from map_take_agree [OF w(2) 1(1) [OF False JArr]]
      have "map (bounded ge (depth + 1)) (take 25 xs) = map (bounded ge (depth + 1)) (take 25 ys)" by simp
      then show ?thesis using False JArr w by (simp add: bounded.simps [of ge depth])
    next
      case (JObj d)
      let ?g = "\<lambda>(k, v). (k, if is_sensitive k then JStr (stable_hash ge v) else veil ge v)"
      let ?f = "\<lambda>kv. (fst kv, if is_sensitive (fst kv) then omitted ''sha256'' (stable_hash ge (snd kv))
        else bounded ge (depth + 1) (snd kv))"
      obtain e where w: "w = JObj e" "map ?g d = map ?g e" using 1(3) JObj by (cases w) auto
      have "map ?f (take 50 d) = map ?f (take 50 e)"
      proof (rule map_take_agree [OF w(2)])
        fix x y
        assume x: "x \<in> set (take 50 d)" "?g x = ?g y"
        obtain k v v' where kv: "x = (k, v)" "y = (k, v')" using x(2) by (cases x; cases y) auto
        show "?f x = ?f y"
        proof (cases "is_sensitive k")
          case True
          with x(2) kv show ?thesis by simp
        next
          case False
          with x(2) kv have "veil ge v = veil ge v'" by simp
          with 1(2) [OF \<open>\<not> 4 < depth\<close> JObj x(1)] kv False show ?thesis by simp
        qed
      qed
      then show ?thesis using False JObj w by (simp add: bounded.simps [of ge depth])
    qed (use 1(3) in \<open>cases w; simp\<close>)+
  qed
qed


section \<open>Concrete payloads\<close>

definition demo_gate :: gate_env where
  "demo_gate = \<lparr>ge_float_repr = (\<lambda>_. ''0.0''), ge_sha = (\<lambda>t. take 8 t), ge_str = (\<lambda>_. []), ge_loads = (\<lambda>_. None)\<rparr>"

definition call_json :: "string \<Rightarrow> string \<Rightarrow> pydict \<Rightarrow> json" where
  "call_json i name args = JObj [(''type'', JStr ''tool_call''), (''id'', JStr i), (''name'', JStr name), (''arguments'', JObj args)]"

definition enforcing :: "string \<Rightarrow> string \<rightharpoonup> string" where
  "enforcing level = [''HERMETEAM_GATE_MODE'' \<mapsto> ''enforce'', ''HERMETEAM_GATE_BLOCK_LEVEL'' \<mapsto> level]"

definition demo_response :: pydict where
  "demo_response = [(''session_id'', JStr ''s''), (''response'', call_json ''c'' ''push_files'' [(''branch'', JStr ''x'')])]"

definition demo_attempt :: "string \<Rightarrow> pydict" where
  "demo_attempt name = [(''session_id'', JStr ''s''), (''tool_call_id'', JStr ''c''), (''tool_name'', JStr name),
     (''args'', JObj [(''branch'', JStr ''x'')])]"

definition demo_posts :: "(string \<times> json) list" where
  "demo_posts = [(''s'', call_json ''c'' ''push_files'' [(''branch'', JStr ''x'')])]"

definition demo_seen :: gate_state where
  "demo_seen = snd (on_post_api_request demo_gate (\<lambda>_. None) ''t'' demo_response empty_gate)"

lemma demo_seen_run: "gate_run demo_gate demo_posts demo_seen"
  using response [OF start, where kwargs = demo_response and r = "fst (on_post_api_request demo_gate (\<lambda>_. None) ''t'' demo_response empty_gate)"
    and st' = demo_seen and ge = demo_gate and environ = "\<lambda>_. None" and now = "''t''"]
  by (simp add: demo_seen_def demo_posts_def str_field_def demo_response_def)

lemma demo_queue: "gs_proposals demo_seen ''s'' = [proposal_of demo_gate \<lparr>tc_id = ''c'', tc_name = ''push_files'',
    tc_args = JObj [(''branch'', JStr ''x'')]\<rparr>]"
proof -
  have "extract_tool_calls demo_gate (call_json ''c'' ''push_files'' [(''branch'', JStr ''x'')]) =
      Inr [\<lparr>tc_id = ''c'', tc_name = ''push_files'', tc_args = JObj [(''branch'', JStr ''x'')]\<rparr>]" by code_simp
  then show ?thesis
    by (simp add: queue_is_recent [OF demo_seen_run] proposed_by_def demo_posts_def proposals_in_def last_n_def max_proposals_def)
qed

text \<open>
  A proposal found by its identifier is not compared by name: another tool with the same arguments
  passes without a mismatch.
\<close>

lemma demo_verdict_of:
  "classify_action name (JObj [(''branch'', JStr ''x'')]) = (r, k, why) \<Longrightarrow>
   judge_call demo_gate ''s'' ''c'' name (JObj [(''branch'', JStr ''x'')]) demo_seen =
     \<lparr>vd_risk = r, vd_category = k, vd_reasons = why, vd_matched = True, vd_mismatch = False\<rparr>"
  by (simp add: judge_call_def Let_def match_proposal_def demo_queue proposal_of_def case_prod_unfold)

lemma demo_fields:
  "str_field (ge_str demo_gate) (demo_attempt name) [''session_id''] = ''s''"
  "str_field (ge_str demo_gate) (demo_attempt name) [''tool_call_id''] = ''c''"
  "str_field (ge_str demo_gate) (demo_attempt name) [''tool_name''] = name"
  "dict_get (demo_attempt name) ''args'' = JObj [(''branch'', JStr ''x'')]"
  by (simp_all add: demo_attempt_def str_field_def)

lemma demo_passes:
  assumes "classify_action name (JObj [(''branch'', JStr ''x'')]) = (r, k, why)" "r < High"
  shows "fst (on_pre_tool_call demo_gate (enforcing ''high'') ''t'' (demo_attempt name) demo_seen) = None"
proof -
  have "block_level (enforcing ''high'') = High" by code_simp
  then show ?thesis
    using assms(2) by (simp add: on_pre_tool_call_def Let_def demo_fields demo_verdict_of [OF assms(1)] blocks_def not_le)
qed

lemma other_tool_passes:
  "fst (on_pre_tool_call demo_gate (enforcing ''high'') ''t'' (demo_attempt ''create_branch'') demo_seen) = None"
proof (rule demo_passes)
  show "classify_action ''create_branch'' (JObj [(''branch'', JStr ''x'')]) = (Medium, ''write'', [''state_changing_tool''])" by code_simp
qed (simp add: gate_order)

text \<open>A repository path that does not begin with a slash is not recognised as protected, because a blank precedes it.\<close>

lemma relative_protected_path_missed:
  "classify_action ''push_files'' (JObj [(''path'', JStr ''.github/workflows/ci.yml'')]) = (Medium, ''write'', [''state_changing_tool''])"
  "classify_action ''push_files'' (JObj [(''path'', JStr ''/.github/workflows/ci.yml'')]) =
     (High, ''write'', [''state_changing_tool'', ''protected_target''])"
  by code_simp+

text \<open>A schema with a list under \<open>type\<close> makes the hook leave with an exception, and the calls of the response are forgotten.\<close>

lemma list_type_forgets_proposals:
  assumes "dict_get kwargs ''response'' = JArr [JObj [(''type'', JArr [])], call_json i n a]"
  shows "on_post_api_request ge environ now kwargs st =
     (Inl (TypeError ''unhashable type: list''), emit (response_event ge environ now kwargs) st)"
  by (simp add: on_post_api_request_def Let_def extract_tool_calls_def assms visit_calls.simps [of _ 0]
      visit_calls.simps [of _ "Suc 0"] calls_here_def in_string_set_def)

theorem queue_is_recent_proposals_witness:
  "map pp_tool_name (gs_proposals demo_seen ''s'') = [''push_files''] \<and> gs_proposals demo_seen ''other'' = []"
  using queue_is_recent_proposals [OF demo_seen_run, of "''other''"] demo_queue
  by (simp add: proposed_by_def demo_posts_def proposal_of_def case_prod_unfold)


theorem irreversible_blocked_witness:
  "fst (on_pre_tool_call demo_gate (enforcing ''critical'') ''t'' (demo_attempt ''get_merge'') empty_gate) \<noteq> None"
proof -
  have "list_ex (\<lambda>w. contains_str w (py_lower (py_strip (str_field (ge_str demo_gate) (demo_attempt ''get_merge'') [''tool_name'']))))
    irreversible_words" by code_simp
  moreover have "mode_of (enforcing ''critical'') = Enforce" by code_simp
  ultimately show ?thesis
    using irreversible_blocked [OF prod.collapse [symmetric], of demo_gate "demo_attempt ''get_merge''" "enforcing ''critical''"] by blast
qed


end
