(* ===== verification/StatusSnapshot.thy ===== *)
theory StatusSnapshot
  imports OrchRuns "HOL-Library.Product_Lexorder"
begin

text \<open>
  \<open>sdlc_orchestrator/status_snapshot.py\<close>: the read-only report on the queue of one role. Each of the two queries
  sees the database as it is when the query runs, so they have a state and a time each. Stored texts are text and
  stored times are times, as every operation of \<open>OrchDb\<close> leaves them; \<open>se_time\<close> is the text of a time.
\<close>

section \<open>The environment\<close>

record url_parts =
  up_scheme :: string
  up_hostname :: "string option"
  up_username :: "string option"
  up_password :: "string option"

datatype sqlite_failure = SqliteOperational string | SqliteOther

text \<open>A failure of SQLite while the file is opened and inspected, and one of the queries; \<open>urlparse\<close> may raise.\<close>

record snapshot_env =
  se_is_file :: bool
  se_columns :: "string \<Rightarrow> string list"
  se_open_fails :: "sqlite_failure option"
  se_read_fails :: "sqlite_failure option"
  se_urlparse :: "string \<Rightarrow> url_parts result"
  se_time :: "int \<Rightarrow> string"
  se_utc_now :: string

definition max_queue_items :: int where
  "max_queue_items = 50"

definition max_text_length :: nat where
  "max_text_length = 500"

definition max_error_code_length :: nat where
  "max_error_code_length = 100"

definition assignment_statuses :: "string list" where
  "assignment_statuses = [''PENDING'', ''STARTED'', ''COMPLETED'', ''BLOCKED_CONFIG'', ''FAILED_FINAL'', ''CANCELLED'', ''TIMEOUT'']"

definition run_statuses :: "string list" where
  "run_statuses = [''ACTIVE'', ''COMPLETED'', ''FAILED'', ''CANCELLED'', ''TIMEOUT'', ''LOST'', ''INVALID_OUTPUT'', ''STALE_OUTPUT'']"

definition required_schema :: "(string \<times> string list) list" where
  "required_schema =
     [(''work_items'', [''id'', ''provider'', ''repository_id'', ''external_id'', ''title'', ''url'']),
      (''role_assignments'', [''assignment_key'', ''work_item_id'', ''role'', ''status'', ''next_retry_at'', ''blocked_reason'',
         ''last_error_code'', ''created_at'', ''updated_at'']),
      (''agent_runs'', [''id'', ''assignment_key'', ''hermes_run_id'', ''status'', ''attempt_number'', ''started_at''])]"

section \<open>The queries\<close>

definition is_blocked_status :: "string \<Rightarrow> bool" where
  "is_blocked_status s \<longleftrightarrow> s \<in> {''BLOCKED_CONFIG'', ''FAILED_FINAL'', ''CANCELLED'', ''TIMEOUT''} \<or>
     s \<notin> {''PENDING'', ''STARTED'', ''COMPLETED''}"

record queue_totals =
  qt_pending_due :: nat
  qt_pending_delayed :: nat
  qt_active :: nat
  qt_blocked :: nat

definition queue_totals_of :: "int \<Rightarrow> string \<Rightarrow> orch_db \<Rightarrow> queue_totals" where
  "queue_totals_of now role db =
     (let rows = filter (\<lambda>a. sg_role a = role) (od_assignments db) in
      \<lparr>qt_pending_due = count_where (\<lambda>a. sg_status a = ''PENDING'' \<and> due now a) rows,
       qt_pending_delayed = count_where (\<lambda>a. sg_status a = ''PENDING'' \<and> \<not> due now a) rows,
       qt_active = count_where (\<lambda>a. sg_status a = ''STARTED'') rows,
       qt_blocked = count_where (\<lambda>a. is_blocked_status (sg_status a)) rows\<rparr>)"

text \<open>The run started last, the greater row id on a tie; rows stand in the order of their ids.\<close>

definition later_run :: "run_row option \<Rightarrow> run_row \<Rightarrow> run_row option" where
  "later_run best r = (case best of None \<Rightarrow> Some r | Some b \<Rightarrow> if rn_started_at b \<le> rn_started_at r then Some r else Some b)"

definition latest_run :: "orch_db \<Rightarrow> string \<Rightarrow> run_row option" where
  "latest_run db key = foldl later_run None (filter (\<lambda>r. rn_key r = key) (od_runs db))"

record status_row =
  tr_assignment :: assignment_row
  tr_item :: work_row
  tr_run :: "run_row option"

definition status_rank :: "int \<Rightarrow> assignment_row \<Rightarrow> nat" where
  "status_rank now a =
     (if sg_status a = ''STARTED'' then 0
      else if is_blocked_status (sg_status a) then 1
      else if sg_status a = ''PENDING'' \<and> due now a then 2
      else if sg_status a = ''PENDING'' \<and> \<not> due now a then 3
      else 4)"

definition row_since :: "status_row \<Rightarrow> int" where
  "row_since r = (case tr_run r of Some run \<Rightarrow> rn_started_at run
     | None \<Rightarrow> (case sg_next_retry_at (tr_assignment r) of Some t \<Rightarrow> t | None \<Rightarrow> sg_created_at (tr_assignment r)))"

definition row_before :: "int \<Rightarrow> status_row \<Rightarrow> status_row \<Rightarrow> bool" where
  "row_before now x y =
     (let a = tr_assignment x; b = tr_assignment y in
      status_rank now a < status_rank now b \<or> status_rank now a = status_rank now b \<and>
      (row_since x < row_since y \<or> row_since x = row_since y \<and>
       (sg_updated_at a < sg_updated_at b \<or> sg_updated_at a = sg_updated_at b \<and> sg_key a < sg_key b)))"

definition open_rows :: "string \<Rightarrow> orch_db \<Rightarrow> status_row list" where
  "open_rows role db = List.map_filter
     (\<lambda>a. map_option (\<lambda>i. \<lparr>tr_assignment = a, tr_item = i, tr_run = latest_run db (sg_key a)\<rparr>) (find_item db (sg_work_item_id a)))
     (filter (\<lambda>a. sg_role a = role \<and> sg_status a \<noteq> ''COMPLETED'') (od_assignments db))"

definition status_rows :: "int \<Rightarrow> string \<Rightarrow> int \<Rightarrow> orch_db \<Rightarrow> status_row list" where
  "status_rows now role limit db = limit_rows limit (sort_by (row_before now) (open_rows role db))"

section \<open>Public values\<close>

definition is_control_or_delete :: "char \<Rightarrow> bool" where
  "is_control_or_delete c \<longleftrightarrow> is_control c \<or> ord_of c = 127"

definition public_text :: "nat \<Rightarrow> string \<Rightarrow> string" where
  "public_text maximum v =
     take maximum (join_str '' '' (split_ws (map (\<lambda>c. if is_control_or_delete c then CHR '' '' else c) v)))"

definition required_text :: "string \<Rightarrow> string option" where
  "required_text v = (let t = public_text max_text_length v in if t = [] then None else Some t)"

definition nullable_text :: "nat \<Rightarrow> string option \<Rightarrow> json" where
  "nullable_text maximum v = (case v of None \<Rightarrow> JNull | Some t \<Rightarrow> JStr (public_text maximum t))"

definition nonempty_part :: "string option \<Rightarrow> bool" where
  "nonempty_part v \<longleftrightarrow> v \<noteq> None \<and> v \<noteq> Some []"

definition public_url :: "snapshot_env \<Rightarrow> string \<Rightarrow> string option result" where
  "public_url se v =
     (if max_text_length < length v \<or> list_ex is_control_or_delete v then Inr None
      else result_bind (se_urlparse se v) (\<lambda>p. Inr
        (if up_scheme p \<noteq> ''https'' \<or> \<not> nonempty_part (up_hostname p) \<or> nonempty_part (up_username p) \<or> nonempty_part (up_password p)
         then None else Some v)))"

definition nullable_timestamp :: "snapshot_env \<Rightarrow> int option \<Rightarrow> json" where
  "nullable_timestamp se v = (case v of None \<Rightarrow> JNull | Some t \<Rightarrow> JStr (se_time se t))"

definition sanitize_run :: "snapshot_env \<Rightarrow> run_row option \<Rightarrow> json" where
  "sanitize_run se run =
     (case run of
        None \<Rightarrow> JNull
      | Some r \<Rightarrow>
          (case required_text (rn_run_id r) of
             None \<Rightarrow> JNull
           | Some run_id \<Rightarrow>
               if rn_status r \<notin> set run_statuses \<or> rn_attempt_number r < 1 then JNull
               else JObj [(''hermesRunId'', JStr run_id), (''status'', JStr (rn_status r)),
                 (''attemptNumber'', JInt (int (rn_attempt_number r))), (''startedAt'', JStr (se_time se (rn_started_at r)))]))"

definition item_json :: "snapshot_env \<Rightarrow> status_row \<Rightarrow> string \<Rightarrow> string \<Rightarrow> string \<Rightarrow> string \<Rightarrow> json" where
  "item_json se row key repository external url =
     (let a = tr_assignment row; w = tr_item row in JObj
       [(''assignmentKey'', JStr key),
        (''assignmentStatus'', JStr (if sg_status a \<in> set assignment_statuses then sg_status a else ''FAILED_FINAL'')),
        (''workItem'', JObj [(''provider'', JStr (wr_provider w)), (''repositoryId'', JStr repository),
           (''externalId'', JStr external), (''title'', JStr (public_text max_text_length (wr_title w))), (''url'', JStr url)]),
        (''run'', sanitize_run se (tr_run row)),
        (''nextRetryAt'', nullable_timestamp se (sg_next_retry_at a)),
        (''blockedReason'', nullable_text max_text_length (sg_blocked_reason a)),
        (''lastErrorCode'', nullable_text max_error_code_length (sg_last_error_code a))])"

definition sanitize_item :: "snapshot_env \<Rightarrow> status_row \<Rightarrow> json option result" where
  "sanitize_item se row =
     (let w = tr_item row in
      if wr_provider w \<notin> {''github'', ''gitlab''} then Inr None
      else result_bind (public_url se (wr_url w)) (\<lambda>url. Inr
        (case (required_text (sg_key (tr_assignment row)), required_text (wr_repository_id w), required_text (wr_external_id w), url) of
           (Some key, Some repository, Some external, Some u) \<Rightarrow> Some (item_json se row key repository external u)
         | _ \<Rightarrow> None)))"

section \<open>The snapshot\<close>

text \<open>The error codes are the messages of \<open>StatusSnapshotError\<close>.\<close>

definition sqlite_error_code :: "string \<Rightarrow> string" where
  "sqlite_error_code m =
     (let message = py_lower m in
      if contains_str ''busy'' message \<or> contains_str ''locked'' message then ''sqlite_busy''
      else if contains_str ''no such table'' message \<or> contains_str ''no such column'' message then ''schema_incompatible''
      else ''sqlite_error'')"

fun sqlite_guard :: "sqlite_failure option \<Rightarrow> unit result" where
  "sqlite_guard None = Inr ()"
| "sqlite_guard (Some (SqliteOperational m)) = Inl (StatusSnapshotError (sqlite_error_code m))"
| "sqlite_guard (Some SqliteOther) = Inl (StatusSnapshotError ''sqlite_error'')"

definition validate_inputs :: "string \<Rightarrow> int \<Rightarrow> unit result" where
  "validate_inputs role limit =
     (if role \<notin> set valid_roles then Inl (ValueError ''role must be a canonical orchestrator role'')
      else if limit < 1 \<or> max_queue_items < limit then Inl (ValueError ''limit must be an integer from 1 to 50'') else Inr ())"

definition verify_schema :: "(string \<Rightarrow> string list) \<Rightarrow> unit result" where
  "verify_schema columns =
     (if list_all (\<lambda>(table, required). list_all (\<lambda>c. c \<in> set (columns table)) required) required_schema then Inr ()
      else Inl (StatusSnapshotError ''schema_incompatible''))"

definition totals_json :: "queue_totals \<Rightarrow> json" where
  "totals_json q = JObj [(''pendingDue'', JInt (int (qt_pending_due q))), (''pendingDelayed'', JInt (int (qt_pending_delayed q))),
     (''active'', JInt (int (qt_active q))), (''blocked'', JInt (int (qt_blocked q)))]"

definition read_role_status_snapshot :: "snapshot_env \<Rightarrow> config \<Rightarrow> int \<Rightarrow> int \<times> orch_db \<Rightarrow> int \<times> orch_db \<Rightarrow> pydict result" where
  "read_role_status_snapshot se cf limit at_counters at_items =
     result_bind (validate_inputs (cf_role cf) limit) (\<lambda>_.
     if \<not> se_is_file se then Inl (StatusSnapshotError ''missing_database'')
     else
       result_bind (sqlite_guard (se_open_fails se)) (\<lambda>_.
       result_bind (verify_schema (se_columns se)) (\<lambda>_.
       result_bind (sqlite_guard (se_read_fails se)) (\<lambda>_.
       result_bind (map_result (sanitize_item se) (status_rows (fst at_items) (cf_role cf) limit (snd at_items))) (\<lambda>items.
       Inr [(''role'', JStr (cf_role cf)), (''orchestratorEnabled'', JBool (cf_enabled cf)), (''generatedAt'', JStr (se_utc_now se)),
            (''queue'', totals_json (queue_totals_of (fst at_counters) (cf_role cf) (snd at_counters))),
            (''items'', JArr (List.map_filter id items))])))))"

section \<open>Facts about the queries\<close>

text \<open>The order of the items is the lexicographic order on four columns.\<close>

definition row_key :: "int \<Rightarrow> status_row \<Rightarrow> nat \<times> int \<times> int \<times> string" where
  "row_key now r = (let a = tr_assignment r in (status_rank now a, row_since r, sg_updated_at a, sg_key a))"

lemma row_before_key: "row_before now x y \<longleftrightarrow> row_key now x < row_key now y"
  by (auto simp: row_before_def row_key_def Let_def less_prod_def)

lemma row_before_weak: "weak_order_on A (row_before now)"
  unfolding weak_order_on_def row_before_key by (auto simp: not_less)

lemma sorted_strict:
  fixes k :: "'a \<Rightarrow> 'b :: linorder"
  shows "sorted_wrt (\<lambda>a b. \<not> k b < k a) xs \<Longrightarrow> distinct (map k xs) \<Longrightarrow> sorted_wrt (\<lambda>a b. k a < k b) xs"
  by (induction xs) (force simp: not_less image_iff order.order_iff_strict)+

lemma open_rows_in:
  "r \<in> set (open_rows role db) \<longleftrightarrow> tr_assignment r \<in> set (od_assignments db) \<and> sg_role (tr_assignment r) = role \<and>
     sg_status (tr_assignment r) \<noteq> ''COMPLETED'' \<and> find_item db (sg_work_item_id (tr_assignment r)) = Some (tr_item r) \<and>
     tr_run r = latest_run db (sg_key (tr_assignment r))"
  by (cases r) (auto simp: open_rows_def List.map_filter_def image_iff)

lemma open_rows_assignments:
  assumes "items_ok (od_items db) (od_assignments db)"
  shows "map tr_assignment (open_rows role db) = filter (\<lambda>a. sg_role a = role \<and> sg_status a \<noteq> ''COMPLETED'') (od_assignments db)"
proof -
  have "find_item db (sg_work_item_id a) \<noteq> None" if mem: "a \<in> set (od_assignments db)" for a
  proof -
    obtain i where "i \<in> set (od_items db)" "wr_id i = sg_work_item_id a" using assms mem by (force simp: items_ok_def)
    then show ?thesis unfolding find_item_def find_None_all by blast
  qed
  then have "map tr_assignment (List.map_filter
      (\<lambda>a. map_option (\<lambda>i. \<lparr>tr_assignment = a, tr_item = i, tr_run = latest_run db (sg_key a)\<rparr>) (find_item db (sg_work_item_id a))) xs) = xs"
    if "set xs \<subseteq> set (od_assignments db)" for xs
    using that by (induction xs) (force simp: List.map_filter_simps split: option.splits)+
  then show ?thesis by (simp add: open_rows_def)
qed

text \<open>
  The four counters partition the uncompleted assignments of the role, agree with the counts the command line shows,
  and add up to the number of items there is to list.
\<close>

theorem queue_totals_exact:
  assumes "orch_wf db"
  shows "(let q = queue_totals_of now role db in
    queue_counts now role db = (qt_pending_due q, qt_pending_delayed q, qt_active q) \<and>
    qt_pending_due q + qt_pending_delayed q + qt_active q + qt_blocked q = length (open_rows role db))"
proof -
  let ?rows = "filter (\<lambda>a. sg_role a = role) (od_assignments db)"
  have split: "count_where (\<lambda>a. sg_status a = ''PENDING'' \<and> due now a) xs + count_where (\<lambda>a. sg_status a = ''PENDING'' \<and> \<not> due now a) xs +
      count_where (\<lambda>a. sg_status a = ''STARTED'') xs + count_where (\<lambda>a. is_blocked_status (sg_status a)) xs =
      length (filter (\<lambda>a. sg_status a \<noteq> ''COMPLETED'') xs)" for xs
    by (induction xs) (auto simp: count_where_def is_blocked_status_def)
  have "length (open_rows role db) = length (filter (\<lambda>a. sg_status a \<noteq> ''COMPLETED'') ?rows)"
    using arg_cong [OF open_rows_assignments [OF orch_wfD(1) [OF assms]], of length role] by (simp add: conj_commute)
  then show ?thesis using split [of ?rows] by (simp add: queue_totals_of_def queue_counts_def Let_def)
qed

lemma distinct_open_rows:
  assumes "orch_wf db"
  shows "distinct (map (\<lambda>r. sg_key (tr_assignment r)) (open_rows role db))"
proof -
  have "distinct (map sg_key (filter (\<lambda>a. sg_role a = role \<and> sg_status a \<noteq> ''COMPLETED'') (od_assignments db)))"
    using orch_wfD(2) [OF assms] by (rule distinct_map_filter)
  then show ?thesis
    using open_rows_assignments [OF orch_wfD(1) [OF assms], of role] by (metis (no_types, lifting) list.map_comp comp_def map_eq_conv)
qed


section \<open>Facts about public values\<close>

definition plain_text :: "string \<Rightarrow> bool" where
  "plain_text t \<longleftrightarrow> length t \<le> max_text_length \<and> \<not> list_ex is_control_or_delete t"

fun public_json :: "json \<Rightarrow> bool" where
  "public_json (JStr t) = plain_text t"
| "public_json (JArr xs) = (\<forall>x\<in>set xs. public_json x)"
| "public_json (JObj d) = (\<forall>kv\<in>set d. public_json (snd kv))"
| "public_json _ = True"

lemma split_ws_chars: "w \<in> set (split_ws s) \<Longrightarrow> set w \<subseteq> set s"
proof (induction s arbitrary: w)
  case (Cons x xs)
  have "w \<in> set (split_ws xs) \<or> w = [x] \<or> (\<exists>v\<in>set (split_ws xs). w = x # v)"
  proof (cases xs)
    case Nil
    then show ?thesis using Cons.prems by (simp split: if_splits)
  next
    case (Cons y ys)
    then show ?thesis using Cons.prems unfolding split_ws.simps(2) [of x xs]
      by (cases "split_ws xs") (auto simp del: split_ws.simps(2) split: if_splits)
  qed
  then show ?case using Cons.IH by (fastforce dest: Cons.IH)
qed simp

lemma join_str_chars: "set (join_str sep ws) \<subseteq> set sep \<union> \<Union> (set ` set ws)"
  by (induction sep ws rule: join_str.induct) auto

lemma public_text_plain: "n \<le> max_text_length \<Longrightarrow> plain_text (public_text n v)"
proof -
  let ?v = "map (\<lambda>c. if is_control_or_delete c then CHR '' '' else c) v"
  assume "n \<le> max_text_length"
  then have "length (public_text n v) \<le> max_text_length" by (simp add: public_text_def)
  moreover have "\<not> is_control_or_delete c" if "c \<in> set (public_text n v)" for c
  proof -
    have "c \<in> set '' '' \<union> \<Union> (set ` set (split_ws ?v))"
      using that join_str_chars unfolding public_text_def by (meson in_set_takeD subsetD)
    then have "c = CHR '' '' \<or> c \<in> set ?v" using split_ws_chars by fastforce
    then show ?thesis by (auto simp: is_control_or_delete_def is_control_def split: if_splits)
  qed
  ultimately show ?thesis by (auto simp: plain_text_def list_ex_iff)
qed

lemma required_text_plain: "required_text v = Some t \<Longrightarrow> plain_text t \<and> t \<noteq> []"
  using public_text_plain [of max_text_length v] by (auto simp: required_text_def Let_def split: if_splits)

lemma public_url_plain: "public_url se v = Inr (Some u) \<Longrightarrow> plain_text u"
  by (auto simp: public_url_def plain_text_def split: if_splits)

lemma plain_words:
  "x \<in> set assignment_statuses \<Longrightarrow> plain_text x" "x \<in> set run_statuses \<Longrightarrow> plain_text x" "x \<in> set valid_roles \<Longrightarrow> plain_text x"
  "plain_text ''github''" "plain_text ''gitlab''" "plain_text ''FAILED_FINAL''"
proof -
  have "list_all plain_text (assignment_statuses @ run_statuses @ valid_roles @ [''github'', ''gitlab'', ''FAILED_FINAL''])" by code_simp
  then show "x \<in> set assignment_statuses \<Longrightarrow> plain_text x" "x \<in> set run_statuses \<Longrightarrow> plain_text x" "x \<in> set valid_roles \<Longrightarrow> plain_text x"
    "plain_text ''github''" "plain_text ''gitlab''" "plain_text ''FAILED_FINAL''"
    by (simp_all add: list_all_iff)
qed

definition plain_times :: "snapshot_env \<Rightarrow> bool" where
  "plain_times se \<longleftrightarrow> (\<forall>t. plain_text (se_time se t)) \<and> plain_text (se_utc_now se)"

lemma sanitize_run_public: "plain_times se \<Longrightarrow> public_json (sanitize_run se run)"
  by (auto simp: sanitize_run_def plain_times_def plain_words dest: required_text_plain split: option.splits)

lemma nullable_public: "n \<le> max_text_length \<Longrightarrow> public_json (nullable_text n v)"
  by (cases v) (simp_all add: nullable_text_def public_text_plain)

lemma sanitize_item_Some:
  assumes "sanitize_item se row = Inr (Some j)"
  shows "\<exists>key repository external u. wr_provider (tr_item row) \<in> {''github'', ''gitlab''} \<and>
    required_text (sg_key (tr_assignment row)) = Some key \<and> required_text (wr_repository_id (tr_item row)) = Some repository \<and>
    required_text (wr_external_id (tr_item row)) = Some external \<and> public_url se (wr_url (tr_item row)) = Inr (Some u) \<and>
    j = item_json se row key repository external u"
  using assms by (fastforce simp: sanitize_item_def Let_def split: if_splits option.splits)

lemma sanitize_item_public:
  assumes "plain_times se" "sanitize_item se row = Inr (Some j)"
  shows "public_json j"
proof -
  obtain key repository external u where *: "wr_provider (tr_item row) \<in> {''github'', ''gitlab''}"
    "required_text (sg_key (tr_assignment row)) = Some key" "required_text (wr_repository_id (tr_item row)) = Some repository"
    "required_text (wr_external_id (tr_item row)) = Some external" "public_url se (wr_url (tr_item row)) = Inr (Some u)"
    "j = item_json se row key repository external u"
    using sanitize_item_Some [OF assms(2)] by blast
  have "max_error_code_length \<le> max_text_length" by (simp add: max_error_code_length_def max_text_length_def)
  then have nullable: "public_json (nullable_text max_error_code_length v)" "public_json (nullable_text max_text_length v)" for v
    by (simp_all add: nullable_public)
  have time: "public_json (nullable_timestamp se t)" for t
    using assms(1) by (simp add: nullable_timestamp_def plain_times_def split: option.split)
  have "plain_text (wr_provider (tr_item row))" using *(1) plain_words by auto
  then show ?thesis
    using * required_text_plain public_url_plain plain_words sanitize_run_public [OF assms(1)] nullable time
      public_text_plain [OF order_refl] by (simp add: item_json_def Let_def)
qed

lemma snapshot_Inr:
  assumes "read_role_status_snapshot se cf limit at_counters at_items = Inr payload"
  obtains items where "map_result (sanitize_item se) (status_rows (fst at_items) (cf_role cf) limit (snd at_items)) = Inr items"
    "payload = [(''role'', JStr (cf_role cf)), (''orchestratorEnabled'', JBool (cf_enabled cf)), (''generatedAt'', JStr (se_utc_now se)),
       (''queue'', totals_json (queue_totals_of (fst at_counters) (cf_role cf) (snd at_counters))),
       (''items'', JArr (List.map_filter id items))]"
    "cf_role cf \<in> set valid_roles" "1 \<le> limit" "limit \<le> max_queue_items"
  using assms by (auto simp: read_role_status_snapshot_def validate_inputs_def split: if_splits)

text \<open>
  What a snapshot discloses is bounded: at most 50 items, no text longer than 500 characters and none with a
  control character, whatever the database holds; and each item stands for one listed row of the role.
\<close>

theorem snapshot_bounded:
  assumes "plain_times se" "read_role_status_snapshot se cf limit at_counters at_items = Inr payload"
  shows "public_json (JObj payload) \<and> (\<exists>items. dict_get payload ''items'' = JArr items \<and> int (length items) \<le> 50 \<and>
    (\<forall>j\<in>set items. \<exists>row\<in>set (status_rows (fst at_items) (cf_role cf) limit (snd at_items)). sanitize_item se row = Inr (Some j)))"
proof -
  let ?rows = "status_rows (fst at_items) (cf_role cf) limit (snd at_items)"
  obtain items where items: "map_result (sanitize_item se) ?rows = Inr items" and
    payload: "payload = [(''role'', JStr (cf_role cf)), (''orchestratorEnabled'', JBool (cf_enabled cf)),
       (''generatedAt'', JStr (se_utc_now se)), (''queue'', totals_json (queue_totals_of (fst at_counters) (cf_role cf) (snd at_counters))),
       (''items'', JArr (List.map_filter id items))]" and
    ok: "cf_role cf \<in> set valid_roles" "1 \<le> limit" "limit \<le> max_queue_items"
    using snapshot_Inr [OF assms(2)] by blast
  have rows: "list_all2 (\<lambda>r o1. sanitize_item se r = Inr o1) ?rows items" using items by (simp add: map_result_Inr_iff)
  have each: "\<exists>row\<in>set ?rows. sanitize_item se row = Inr (Some j)" if "j \<in> set (List.map_filter id items)" for j
  proof -
    have "Some j \<in> set items" using that by (auto simp: List.map_filter_def)
    with rows show ?thesis unfolding list_all2_conv_all_nth in_set_conv_nth by (metis nth_mem)
  qed
  have "length ?rows \<le> nat limit" using ok by (simp add: status_rows_def limit_rows_def)
  moreover have "length (List.map_filter id items) \<le> length items" by (simp add: List.map_filter_def)
  ultimately have "int (length (List.map_filter id items)) \<le> 50"
    using list_all2_lengthD [OF rows] ok by (simp add: max_queue_items_def)
  moreover have "public_json (JObj payload)"
    using each sanitize_item_public [OF assms(1)] assms(1) ok
    by (fastforce simp: payload totals_json_def plain_words plain_times_def)
  ultimately show ?thesis using each by (auto simp: payload)
qed

text \<open>
  A stored address that \<open>urlparse\<close> refuses with an exception is not left out: the whole snapshot fails
  with it.
\<close>

lemma bad_url_fails_snapshot:
  assumes "cf_role cf \<in> set valid_roles" "1 \<le> limit" "limit \<le> max_queue_items" "se_is_file se" "se_open_fails se = None"
    "verify_schema (se_columns se) = Inr ()" "se_read_fails se = None"
    and "status_rows (fst at_items) (cf_role cf) limit (snd at_items) = row # rows" "wr_provider (tr_item row) = ''github''"
    and "length (wr_url (tr_item row)) \<le> max_text_length" "\<not> list_ex is_control_or_delete (wr_url (tr_item row))"
    and "se_urlparse se (wr_url (tr_item row)) = Inl (ValueError m)"
  shows "read_role_status_snapshot se cf limit at_counters at_items = Inl (ValueError m)"
  using assms by (simp add: read_role_status_snapshot_def validate_inputs_def sanitize_item_def public_url_def Let_def)

section \<open>A small database\<close>

definition status_config :: config where
  "status_config = (case config_from_env (\<lambda>_. (''http'', Some ''localhost'')) (\<lambda>_. True)
     [''ORCHESTRATOR_ROLE'' \<mapsto> ''planner'', ''REPOSITORY_ID'' \<mapsto> ''o/r'', ''API_SERVER_KEY'' \<mapsto> ''k''] of Inr cf \<Rightarrow> cf)"

definition status_env :: "sqlite_failure option \<Rightarrow> snapshot_env" where
  "status_env failure = \<lparr>se_is_file = True, se_columns = (\<lambda>t. case map_of required_schema t of Some cs \<Rightarrow> cs | None \<Rightarrow> []),
     se_open_fails = None, se_read_fails = failure,
     se_urlparse = (\<lambda>_. Inr \<lparr>up_scheme = ''https'', up_hostname = Some ''h'', up_username = None, up_password = None\<rparr>),
     se_time = (\<lambda>_. ''T''), se_utc_now = ''N''\<rparr>"

lemma status_db_wf: "orch_wf (sample_db ''r'')"
  by (rule orch_wf_steps [OF sample_db_reachable orch_wf_empty])

theorem queue_totals_exact_witness:
  "(let q = queue_totals_of 9 ''planner'' (sample_db ''r'') in
    queue_counts 9 ''planner'' (sample_db ''r'') = (0, 0, 1) \<and> qt_active q = length (open_rows ''planner'' (sample_db ''r'')))"
proof -
  have "queue_counts 9 ''planner'' (sample_db ''r'') = (0, 0, 1)" by code_simp
  moreover have "qt_blocked (queue_totals_of 9 ''planner'' (sample_db ''r'')) = 0" by code_simp
  ultimately show ?thesis using queue_totals_exact [OF status_db_wf, of 9 "''planner''"] by (simp add: Let_def)
qed


theorem snapshot_bounded_witness:
  "\<exists>payload items. read_role_status_snapshot (status_env None) status_config 50 (9, sample_db ''r'') (9, sample_db ''r'') = Inr payload \<and>
     public_json (JObj payload) \<and> dict_get payload ''items'' = JArr items \<and> length items = 1"
proof -
  let ?snapshot = "read_role_status_snapshot (status_env None) status_config 50 (9, sample_db ''r'') (9, sample_db ''r'')"
  have "case ?snapshot of Inr p \<Rightarrow> (case dict_get p ''items'' of JArr xs \<Rightarrow> length xs = 1 | _ \<Rightarrow> False) | Inl _ \<Rightarrow> False" by code_simp
  then obtain payload items where p: "?snapshot = Inr payload" "dict_get payload ''items'' = JArr items" "length items = 1"
    by (auto split: sum.splits json.splits)
  have "plain_text ''T'' \<and> plain_text ''N''" by code_simp
  then have "plain_times (status_env None)" by (simp add: plain_times_def status_env_def)
  from snapshot_bounded [OF this p(1)] p show ?thesis by blast
qed

end
