(* ===== verification/StatusServer.thy ===== *)
theory StatusServer
  imports StatusSnapshot
begin

text \<open>
  \<open>sdlc_orchestrator/status_server.py\<close>: the replies of the read-only status server. The headers that are
  constants are not represented; a reply is its status, its body as text, of which the size in UTF-8 is measured,
  and the two headers that depend on the request.
\<close>

section \<open>Encoding\<close>

text \<open>\<open>json.dumps(v, ensure_ascii=False)\<close> with narrow separators, members in the order of insertion.\<close>

fun dumps_ordered :: "(pyfloat \<Rightarrow> string) \<Rightarrow> json \<Rightarrow> string" where
  "dumps_ordered fr JNull = ''null''"
| "dumps_ordered fr (JBool b) = (if b then ''true'' else ''false'')"
| "dumps_ordered fr (JInt i) = str_of_int i"
| "dumps_ordered fr (JFloat f) = fr f"
| "dumps_ordered fr (JStr s) = quote_str s"
| "dumps_ordered fr (JArr xs) = ''['' @ join_str '','' (map (dumps_ordered fr) xs) @ '']''"
| "dumps_ordered fr (JObj d) = ''{'' @ join_str '','' (map (\<lambda>kv. quote_str (fst kv) @ '':'' @ dumps_ordered fr (snd kv)) d) @ ''}''"

definition utf8_size :: "string \<Rightarrow> int" where
  "utf8_size s = sum_list (map (\<lambda>c. int (length (utf8_bytes c))) s)"

definition max_response_bytes :: int where
  "max_response_bytes = 131072"

definition encode_json :: "(pyfloat \<Rightarrow> string) \<Rightarrow> json \<Rightarrow> string result" where
  "encode_json fr payload =
     (let body = dumps_ordered fr payload in
      if max_response_bytes < utf8_size body then Inl (ValueError ''response exceeds bound'') else Inr body)"

definition error_payload :: "string \<Rightarrow> json" where
  "error_payload code = JObj [(''error'', JObj [(''code'', JStr code)])]"

section \<open>Replies\<close>

record status_answer =
  st_status :: int
  st_body :: string
  st_allow :: "string option"
  st_retry_after :: "int option"

definition send_json :: "(pyfloat \<Rightarrow> string) \<Rightarrow> int \<Rightarrow> json \<Rightarrow> string option \<Rightarrow> int option \<Rightarrow> status_answer" where
  "send_json fr status payload allow retry_after =
     (case encode_json fr payload of
        Inr body \<Rightarrow> \<lparr>st_status = status, st_body = body, st_allow = allow, st_retry_after = retry_after\<rparr>
      | Inl e \<Rightarrow> \<lparr>st_status = 500, st_body = dumps_ordered fr (error_payload ''status_read_failed''), st_allow = None,
          st_retry_after = None\<rparr>)"

definition sqlite_busy_retry :: int where
  "sqlite_busy_retry = 1"

definition unavailable_retry :: int where
  "unavailable_retry = 5"

definition snapshot_error_response :: "string \<Rightarrow> int \<times> json \<times> int option" where
  "snapshot_error_response code =
     (if code = ''sqlite_busy'' then (503, error_payload ''sqlite_busy'', Some sqlite_busy_retry)
      else if code \<in> {''missing_database'', ''schema_incompatible''} then (503, error_payload ''status_unavailable'', Some unavailable_retry)
      else (500, error_payload ''status_read_failed'', None))"

definition send_status_snapshot :: "(pyfloat \<Rightarrow> string) \<Rightarrow> pydict result \<Rightarrow> status_answer" where
  "send_status_snapshot fr snapshot =
     (case snapshot of
        Inr payload \<Rightarrow> send_json fr 200 (JObj payload) None None
      | Inl (StatusSnapshotError code) \<Rightarrow>
          (case snapshot_error_response code of (status, payload, retry_after) \<Rightarrow> send_json fr status payload None retry_after)
      | Inl _ \<Rightarrow> send_json fr 500 (error_payload ''status_read_failed'') None None)"

text \<open>Any command but GET is answered by 405, which \<open>parse_request\<close> arranges.\<close>

definition status_reply :: "(pyfloat \<Rightarrow> string) \<Rightarrow> snapshot_env \<Rightarrow> config \<Rightarrow> string \<Rightarrow> string \<Rightarrow> int \<times> orch_db \<Rightarrow> int \<times> orch_db
    \<Rightarrow> status_answer" where
  "status_reply fr se cf command path at_counters at_items =
     (if command \<noteq> ''GET'' then send_json fr 405 (error_payload ''method_not_allowed'') (Some ''GET'') None
      else if path = ''/health'' then send_json fr 200 (JObj [(''status'', JStr ''ok''), (''role'', JStr (cf_role cf))]) None None
      else if path = ''/status'' then
        send_status_snapshot fr (read_role_status_snapshot se cf max_queue_items at_counters at_items)
      else send_json fr 404 (error_payload ''not_found'') None None)"

section \<open>Starting\<close>

definition validate_startup :: "(string \<Rightarrow> bool) \<Rightarrow> config \<Rightarrow> status_server_config \<Rightarrow> unit result" where
  "validate_startup is_ip cf network =
     (if cf_role cf \<notin> set valid_roles then Inl (ConfigError ''ORCHESTRATOR_ROLE must be a canonical role'')
      else if ss_port network < 0 \<or> 65535 < ss_port network then Inl (ConfigError ''ORCHESTRATOR_STATUS_PORT must be from 1 to 65535'')
      else validate_status_bind is_ip (ss_bind network))"

text \<open>The exit code of \<open>main\<close>, once the server has been shut down.\<close>

definition status_main :: "(string \<Rightarrow> bool) \<Rightarrow> config result \<Rightarrow> status_server_config result \<Rightarrow> int result" where
  "status_main is_ip cf network =
     (case result_bind cf (\<lambda>c. result_bind network (validate_startup is_ip c)) of
        Inl (ConfigError m) \<Rightarrow> Inr 2
      | Inl e \<Rightarrow> Inl e
      | Inr _ \<Rightarrow> Inr 0)"

section \<open>Facts\<close>

definition error_codes :: "string list" where
  "error_codes = [''method_not_allowed'', ''not_found'', ''sqlite_busy'', ''status_unavailable'', ''status_read_failed'']"

lemma error_body: "c \<in> set error_codes \<Longrightarrow> encode_json fr (error_payload c) = Inr (dumps_ordered fr (error_payload c))"
proof -
  assume "c \<in> set error_codes"
  moreover have "list_all (\<lambda>c. utf8_size (dumps_ordered fr (error_payload c)) \<le> 100) error_codes" by code_simp
  ultimately have "utf8_size (dumps_ordered fr (error_payload c)) \<le> 100" by (simp add: list_all_iff)
  then show ?thesis by (simp add: encode_json_def Let_def max_response_bytes_def)
qed

definition is_error_answer :: "(pyfloat \<Rightarrow> string) \<Rightarrow> int \<Rightarrow> string \<Rightarrow> status_answer \<Rightarrow> bool" where
  "is_error_answer fr status code r \<longleftrightarrow> st_status r = status \<and> st_body r = dumps_ordered fr (error_payload code)"

lemma send_error:
  "c \<in> set error_codes \<Longrightarrow> is_error_answer fr s c (send_json fr s (error_payload c) a t) \<and>
     st_allow (send_json fr s (error_payload c) a t) = a \<and> st_retry_after (send_json fr s (error_payload c) a t) = t"
  by (simp add: send_json_def error_body is_error_answer_def)

lemma send_json_bounded: "utf8_size (st_body (send_json fr s v a t)) \<le> max_response_bytes"
proof (cases "encode_json fr v")
  case (Inl e)
  have "encode_json fr (error_payload ''status_read_failed'') = Inr (dumps_ordered fr (error_payload ''status_read_failed''))"
    by (rule error_body) (simp add: error_codes_def)
  then show ?thesis using Inl by (simp add: send_json_def encode_json_def Let_def split: if_splits)
qed (auto simp: send_json_def encode_json_def Let_def split: if_splits)

lemma send_json_cases:
  "(\<exists>body. encode_json fr v = Inr body \<and> send_json fr s v a t = \<lparr>st_status = s, st_body = body, st_allow = a, st_retry_after = t\<rparr>) \<or>
   is_error_answer fr 500 ''status_read_failed'' (send_json fr s v a t) \<and> st_retry_after (send_json fr s v a t) = None"
  by (cases "encode_json fr v") (simp_all add: send_json_def is_error_answer_def)

lemma status_reply_bounded: "utf8_size (st_body (status_reply fr se cf command path c i)) \<le> max_response_bytes"
  by (simp add: status_reply_def send_status_snapshot_def send_json_bounded split: sum.split exn.split prod.split)

lemma send_snapshot: "send_status_snapshot fr (Inr payload) = send_json fr 200 (JObj payload) None None"
  by (simp add: send_status_snapshot_def)

lemma status_reply_cases:
  obtains (wrong_method) "command \<noteq> ''GET''" "status_reply fr se cf command path c i = send_json fr 405 (error_payload ''method_not_allowed'') (Some ''GET'') None"
  | (health) "command = ''GET''" "path = ''/health''"
      "status_reply fr se cf command path c i = send_json fr 200 (JObj [(''status'', JStr ''ok''), (''role'', JStr (cf_role cf))]) None None"
  | (snapshot) payload where "command = ''GET''" "path = ''/status''" "read_role_status_snapshot se cf max_queue_items c i = Inr payload"
      "status_reply fr se cf command path c i = send_json fr 200 (JObj payload) None None"
  | (failed) e where "command = ''GET''" "path = ''/status''" "read_role_status_snapshot se cf max_queue_items c i = Inl e"
      "status_reply fr se cf command path c i = send_status_snapshot fr (Inl e)"
  | (unknown) "command = ''GET''" "path \<noteq> ''/health''" "path \<noteq> ''/status''"
      "status_reply fr se cf command path c i = send_json fr 404 (error_payload ''not_found'') None None"
proof (cases "command = ''GET'' \<and> path = ''/status''")
  case True
  show thesis
  proof (cases "read_role_status_snapshot se cf max_queue_items c i")
    case (Inl e)
    show thesis by (rule failed [OF _ _ Inl]) (use True Inl in \<open>simp_all add: status_reply_def\<close>)
  next
    case (Inr payload)
    show thesis by (rule snapshot [OF _ _ Inr]) (use True Inr in \<open>simp_all add: status_reply_def send_snapshot\<close>)
  qed
next
  case False
  then consider "command \<noteq> ''GET''" | "command = ''GET''" "path = ''/health''" | "command = ''GET''" "path \<noteq> ''/health''" "path \<noteq> ''/status''"
    by blast
  then show thesis
  proof cases
    case 1
    then have "status_reply fr se cf command path c i = send_json fr 405 (error_payload ''method_not_allowed'') (Some ''GET'') None"
      by (simp add: status_reply_def)
    with 1 show thesis by (rule wrong_method)
  next
    case 2
    then have "status_reply fr se cf command path c i =
        send_json fr 200 (JObj [(''status'', JStr ''ok''), (''role'', JStr (cf_role cf))]) None None"
      by (simp add: status_reply_def)
    with 2 show thesis by (rule health)
  next
    case 3
    then have "status_reply fr se cf command path c i = send_json fr 404 (error_payload ''not_found'') None None"
      by (simp add: status_reply_def)
    with 3 show thesis by (rule unknown)
  qed
qed

definition outage_codes :: "(string \<times> int) list" where
  "outage_codes = [(''sqlite_busy'', 1), (''missing_database'', 5), (''schema_incompatible'', 5)]"

lemma send_failure:
  "(case map_of outage_codes code of
      Some n \<Rightarrow> (\<exists>c\<in>set error_codes. is_error_answer fr 503 c (send_status_snapshot fr (Inl (StatusSnapshotError code)))) \<and>
        st_retry_after (send_status_snapshot fr (Inl (StatusSnapshotError code))) = Some n
    | None \<Rightarrow> is_error_answer fr 500 ''status_read_failed'' (send_status_snapshot fr (Inl (StatusSnapshotError code))) \<and>
        st_retry_after (send_status_snapshot fr (Inl (StatusSnapshotError code))) = None)"
proof -
  have known: "''sqlite_busy'' \<in> set error_codes" "''status_unavailable'' \<in> set error_codes" "''status_read_failed'' \<in> set error_codes"
    by (simp_all add: error_codes_def)
  note errors = this [THEN send_error, where fr = fr]
  consider "code = ''sqlite_busy''" | "code \<noteq> ''sqlite_busy''" "code \<in> {''missing_database'', ''schema_incompatible''}"
    | "code \<notin> {''sqlite_busy'', ''missing_database'', ''schema_incompatible''}" by blast
  then show ?thesis
  proof cases
    case 1
    have "send_status_snapshot fr (Inl (StatusSnapshotError code)) = send_json fr 503 (error_payload ''sqlite_busy'') None (Some 1)"
      by (simp add: 1 send_status_snapshot_def snapshot_error_response_def sqlite_busy_retry_def)
    then show ?thesis using errors(1) known(1) by (auto simp: 1 outage_codes_def)
  next
    case 2
    have "send_status_snapshot fr (Inl (StatusSnapshotError code)) = send_json fr 503 (error_payload ''status_unavailable'') None (Some 5)"
      using 2 by (auto simp: send_status_snapshot_def snapshot_error_response_def unavailable_retry_def)
    moreover have "map_of outage_codes code = Some 5" using 2 by (auto simp: outage_codes_def)
    ultimately show ?thesis using errors(2) known(2) by auto
  next
    case 3
    have "send_status_snapshot fr (Inl (StatusSnapshotError code)) = send_json fr 500 (error_payload ''status_read_failed'') None None"
      using 3 by (auto simp: send_status_snapshot_def snapshot_error_response_def)
    moreover have "map_of outage_codes code = None" using 3 by (auto simp: outage_codes_def)
    ultimately show ?thesis using errors(3) by auto
  qed
qed

lemma send_other_failure:
  "\<nexists>code. e = StatusSnapshotError code \<Longrightarrow> is_error_answer fr 500 ''status_read_failed'' (send_status_snapshot fr (Inl e)) \<and>
     st_retry_after (send_status_snapshot fr (Inl e)) = None"
  using send_error [of "''status_read_failed''"] by (cases e) (auto simp: send_status_snapshot_def error_codes_def)



end
