(* ===== verification/Actions.thy ===== *)
theory Actions
  imports Prelude
begin

text \<open>
  Operations that change a state and may raise: what was changed before the exception stays changed, unlike in the
  transactions of the stores.
\<close>

section \<open>Operations that may raise\<close>

type_synonym ('s, 'a) act = "'s \<Rightarrow> 'a result \<times> 's"

definition act_return :: "'a \<Rightarrow> ('s, 'a) act" where
  "act_return x = (\<lambda>s. (Inr x, s))"

definition act_raise :: "exn \<Rightarrow> ('s, 'a) act" where
  "act_raise e = (\<lambda>s. (Inl e, s))"

definition act_bind :: "('s, 'a) act \<Rightarrow> ('a \<Rightarrow> ('s, 'b) act) \<Rightarrow> ('s, 'b) act" where
  "act_bind m f = (\<lambda>s. case m s of (Inl e, s') \<Rightarrow> (Inl e, s') | (Inr x, s') \<Rightarrow> f x s')"

definition act_then :: "('s, unit) act \<Rightarrow> ('s, 'b) act \<Rightarrow> ('s, 'b) act" where
  "act_then m k = act_bind m (\<lambda>_. k)"

definition act_result :: "'a result \<Rightarrow> ('s, 'a) act" where
  "act_result r = (\<lambda>s. (r, s))"

definition act_get :: "('s \<Rightarrow> 'a result) \<Rightarrow> ('s, 'a) act" where
  "act_get f = (\<lambda>s. (f s, s))"

definition act_put :: "('s \<Rightarrow> 's result) \<Rightarrow> ('s, unit) act" where
  "act_put f = (\<lambda>s. case f s of Inl e \<Rightarrow> (Inl e, s) | Inr s' \<Rightarrow> (Inr (), s'))"

definition act_if :: "bool \<Rightarrow> exn \<Rightarrow> ('s, unit) act" where
  "act_if c e = (if c then act_raise e else act_return ())"

fun act_each :: "('a \<Rightarrow> ('s, unit) act) \<Rightarrow> 'a list \<Rightarrow> ('s, unit) act" where
  "act_each f [] = act_return ()"
| "act_each f (x # xs) = act_then (f x) (act_each f xs)"

lemma act_simps [simp]:
  "act_return x s = (Inr x, s)" "act_raise e s = (Inl e, s)" "act_result r s = (r, s)" "act_get f s = (f s, s)"
  by (simp_all add: act_return_def act_raise_def act_result_def act_get_def)

lemma act_bind_Inr:
  "act_bind m f s = (Inr y, s') \<longleftrightarrow> (\<exists>x s1. m s = (Inr x, s1) \<and> f x s1 = (Inr y, s'))"
  by (auto simp: act_bind_def split: prod.splits sum.splits)

lemma act_then_Inr:
  "act_then m k s = (Inr y, s') \<longleftrightarrow> (\<exists>s1. m s = (Inr (), s1) \<and> k s1 = (Inr y, s'))"
  by (simp add: act_then_def act_bind_Inr)

lemma act_put_Inr: "act_put f s = (Inr u, s') \<longleftrightarrow> f s = Inr s'"
  by (auto simp: act_put_def split: sum.splits)

lemma act_if_Inr: "act_if c e s = (Inr u, s') \<longleftrightarrow> \<not> c \<and> s' = s"
  by (auto simp: act_if_def)

lemma act_get_Inr: "act_get f s = (Inr x, s') \<longleftrightarrow> f s = Inr x \<and> s' = s"
  by auto

lemmas act_Inr = act_bind_Inr act_then_Inr act_put_Inr act_if_Inr act_get_Inr

lemma act_bind_step: "m s = (Inr x, s1) \<Longrightarrow> act_bind m f s = f x s1"
  by (simp add: act_bind_def)

lemma act_then_step: "m s = (Inr (), s1) \<Longrightarrow> act_then m k s = k s1"
  by (simp add: act_then_def act_bind_def)

lemma act_bind_cong: "(\<And>x s1. m s = (Inr x, s1) \<Longrightarrow> f x s1 = g x s1) \<Longrightarrow> act_bind m f s = act_bind m g s"
  by (simp add: act_bind_def split: prod.splits sum.splits)

lemma act_then_cong: "(\<And>s1. m s = (Inr (), s1) \<Longrightarrow> k s1 = l s1) \<Longrightarrow> act_then m k s = act_then m l s"
  by (simp add: act_then_def act_bind_def split: prod.splits sum.splits)

end
