(* ===== verification/FileSystem.thy ===== *)
theory FileSystem
  imports PyText Actions "HOL-Library.AList"
begin

text \<open>
  The part of the file system and of \<open>pathlib\<close> that the container runner uses: directories, files and symbolic
  links below one root, resolution of paths, and the operations on them. A path is the list of its components from the
  root; an operation is a function of the state, and what it changed before it raises stays changed.
\<close>

section \<open>Nodes and paths\<close>

datatype node = Directory | Regular string | Symlink string

type_synonym path = "string list"
type_synonym fs = "(path \<times> node) list"

definition node_at :: "fs \<Rightarrow> path \<Rightarrow> node option" where
  "node_at fs p = (if p = [] then Some Directory else map_of fs p)"

definition path_str :: "path \<Rightarrow> string" where
  "path_str p = ''/'' @ join_str ''/'' p"

definition is_absolute :: "string \<Rightarrow> bool" where
  "is_absolute s \<longleftrightarrow> starts_with ''/'' s"

definition path_parts :: "string \<Rightarrow> string list" where
  "path_parts s = split_char (CHR ''/'') s"

text \<open>The directory from which a text is resolved: the root, if the text is absolute.\<close>

definition start_dir :: "string \<Rightarrow> path \<Rightarrow> path" where
  "start_dir s dir = (if is_absolute s then [] else dir)"

text \<open>
  The resolution of the rest of a path from a resolved directory. \<open>n\<close> bounds the links that are followed, so a
  loop of links is an error. Strict resolution, which is that of the kernel, asks for every component to exist.
\<close>

fun walk :: "bool \<Rightarrow> fs \<Rightarrow> nat \<Rightarrow> path \<Rightarrow> string list \<Rightarrow> path result" where
  "walk strict fs n cur [] = Inr cur"
| "walk strict fs n cur (c # cs) =
     (if c = [] \<or> c = ''.'' then walk strict fs n cur cs
      else if c = ''..'' then walk strict fs n (butlast cur) cs
      else (case node_at fs (cur @ [c]) of
          Some (Symlink t) \<Rightarrow>
            (case n of
               0 \<Rightarrow> Inl (OSError ''Too many levels of symbolic links'')
             | Suc m \<Rightarrow> walk strict fs m (if is_absolute t then [] else cur) (path_parts t @ cs))
        | Some (Regular t) \<Rightarrow>
            if strict \<and> cs \<noteq> [] then Inl (OSError ''Not a directory'') else walk strict fs n (cur @ [c]) cs
        | Some Directory \<Rightarrow> walk strict fs n (cur @ [c]) cs
        | None \<Rightarrow> if strict then Inl (FileNotFoundError ''No such file or directory'') else walk strict fs n (cur @ [c]) cs))"

text \<open>\<open>Path.resolve()\<close>, and what \<open>stat\<close> and \<open>lstat\<close> find.\<close>

definition resolve_path :: "nat \<Rightarrow> fs \<Rightarrow> path \<Rightarrow> path result" where
  "resolve_path n fs p = walk False fs n [] p"

definition stat :: "nat \<Rightarrow> fs \<Rightarrow> path \<Rightarrow> node option" where
  "stat n fs p = (case walk True fs n [] p of Inr q \<Rightarrow> node_at fs q | Inl e \<Rightarrow> None)"

text \<open>The place of an entry: the resolved directory that holds it, and its name.\<close>

definition entry_place :: "nat \<Rightarrow> fs \<Rightarrow> path \<Rightarrow> path result" where
  "entry_place n fs p =
     result_bind (walk True fs n [] (butlast p)) (\<lambda>q.
       if node_at fs q = Some Directory then Inr (q @ [last p]) else Inl (OSError ''Not a directory''))"

definition lstat :: "nat \<Rightarrow> fs \<Rightarrow> path \<Rightarrow> node option" where
  "lstat n fs p = (if p = [] then Some Directory else (case entry_place n fs p of Inr q \<Rightarrow> node_at fs q | Inl e \<Rightarrow> None))"

definition path_exists :: "nat \<Rightarrow> fs \<Rightarrow> path \<Rightarrow> bool" where
  "path_exists n fs p \<longleftrightarrow> stat n fs p \<noteq> None"

definition is_dir :: "nat \<Rightarrow> fs \<Rightarrow> path \<Rightarrow> bool" where
  "is_dir n fs p \<longleftrightarrow> stat n fs p = Some Directory"

fun is_regular :: "node option \<Rightarrow> bool" where
  "is_regular (Some (Regular t)) = True"
| "is_regular _ = False"

fun is_link_node :: "node option \<Rightarrow> bool" where
  "is_link_node (Some (Symlink t)) = True"
| "is_link_node _ = False"

definition is_file :: "nat \<Rightarrow> fs \<Rightarrow> path \<Rightarrow> bool" where
  "is_file n fs p \<longleftrightarrow> is_regular (stat n fs p)"

definition is_symlink :: "nat \<Rightarrow> fs \<Rightarrow> path \<Rightarrow> bool" where
  "is_symlink n fs p \<longleftrightarrow> is_link_node (lstat n fs p)"

text \<open>\<open>path.relative_to(root)\<close>: whether a path lies below another.\<close>

definition below :: "path \<Rightarrow> path \<Rightarrow> bool" where
  "below rt p \<longleftrightarrow> take (length rt) p = rt"

section \<open>Changes\<close>

definition add_entry :: "nat \<Rightarrow> path \<Rightarrow> node \<Rightarrow> fs \<Rightarrow> fs result" where
  "add_entry n p x fs =
     result_bind (entry_place n fs p) (\<lambda>q.
       if node_at fs q \<noteq> None then Inl (OSError ''File exists'') else Inr (fs @ [(q, x)]))"

text \<open>\<open>mkdir(parents=True, exist_ok=True)\<close>.\<close>

fun mkdir_all :: "nat \<Rightarrow> path \<Rightarrow> path \<Rightarrow> (fs, unit) act" where
  "mkdir_all n made [] = act_return ()"
| "mkdir_all n made (c # cs) =
     (\<lambda>fs. if is_dir n fs (made @ [c]) then mkdir_all n (made @ [c]) cs fs
       else act_then (act_put (add_entry n (made @ [c]) Directory)) (mkdir_all n (made @ [c]) cs) fs)"

definition make_dirs :: "nat \<Rightarrow> path \<Rightarrow> (fs, unit) act" where
  "make_dirs n p = mkdir_all n [] p"

text \<open>\<open>shutil.rmtree\<close> does not follow links.\<close>

definition remove_tree :: "nat \<Rightarrow> path \<Rightarrow> fs \<Rightarrow> fs result" where
  "remove_tree n p fs = result_bind (entry_place n fs p) (\<lambda>q. Inr (filter (\<lambda>(r, _). \<not> below q r) fs))"

definition read_file :: "nat \<Rightarrow> path \<Rightarrow> fs \<Rightarrow> string result" where
  "read_file n p fs =
     result_bind (walk True fs n [] p) (\<lambda>q. case node_at fs q of
       Some (Regular t) \<Rightarrow> Inr t | Some _ \<Rightarrow> Inl (OSError ''Is a directory'') | None \<Rightarrow> Inl (FileNotFoundError ''No such file or directory''))"

text \<open>Writing follows a link at the end of the path, also one whose target is missing.\<close>

definition write_file :: "nat \<Rightarrow> path \<Rightarrow> string \<Rightarrow> fs \<Rightarrow> fs result" where
  "write_file n p t fs =
     result_bind (walk False fs n [] p) (\<lambda>q.
       if node_at fs q = Some Directory then Inl (OSError ''Is a directory'')
       else if node_at fs (butlast q) \<noteq> Some Directory then Inl (FileNotFoundError ''No such file or directory'')
       else Inr (AList.update q (Regular t) fs))"

text \<open>\<open>iterdir\<close>, the names of the entries of a directory.\<close>

definition children :: "nat \<Rightarrow> fs \<Rightarrow> path \<Rightarrow> string list" where
  "children n fs p = (case walk True fs n [] p of
     Inr q \<Rightarrow> nub_first (map (\<lambda>(r, _). last r) (filter (\<lambda>(r, _). r \<noteq> [] \<and> butlast r = q) fs)) | Inl e \<Rightarrow> [])"

section \<open>Facts\<close>

text \<open>Names that stand for themselves, and file systems in which every entry has a directory above it.\<close>

definition name_ok :: "string \<Rightarrow> bool" where
  "name_ok c \<longleftrightarrow> c \<noteq> [] \<and> c \<noteq> ''.'' \<and> c \<noteq> ''..'' \<and> CHR ''/'' \<notin> set c"

definition fs_wf :: "fs \<Rightarrow> bool" where
  "fs_wf fs \<longleftrightarrow> (\<forall>(p, x)\<in>set fs. p \<noteq> [] \<and> name_ok (last p) \<and> node_at fs (butlast p) = Some Directory)"

lemma fs_wf_parent: "fs_wf fs \<Longrightarrow> (p @ [c], x) \<in> set fs \<Longrightarrow> node_at fs p = Some Directory"
  unfolding fs_wf_def by fastforce

text \<open>A path without links, all of whose components exist.\<close>

definition real_dir :: "fs \<Rightarrow> path \<Rightarrow> bool" where
  "real_dir fs p \<longleftrightarrow> (\<forall>k \<le> length p. node_at fs (take k p) = Some Directory)"

lemma node_at_Nil [simp]: "node_at fs [] = Some Directory"
  by (simp add: node_at_def)

lemma node_at_in: "node_at fs p = Some x \<Longrightarrow> p \<noteq> [] \<Longrightarrow> (p, x) \<in> set fs"
  by (simp add: node_at_def map_of_SomeD)

lemma node_at_extend: "node_at fs p = Some x \<Longrightarrow> node_at (fs @ new) p = Some x"
  by (auto simp: node_at_def split: if_splits)

lemma real_dir_Nil [simp]: "real_dir fs []"
  by (simp add: real_dir_def)

lemma real_dir_snoc: "real_dir fs (p @ [c]) \<longleftrightarrow> real_dir fs p \<and> node_at fs (p @ [c]) = Some Directory"
  unfolding real_dir_def by (auto simp: le_Suc_eq)

lemma real_dir_node: "real_dir fs p \<Longrightarrow> node_at fs p = Some Directory"
  by (cases p rule: rev_cases) (simp_all add: real_dir_snoc)

lemma real_dir_prefix: "real_dir fs (p @ q) \<Longrightarrow> real_dir fs p"
  by (induction q rule: rev_induct) (simp_all add: real_dir_snoc flip: append_assoc)

lemma real_dir_butlast: "real_dir fs p \<Longrightarrow> real_dir fs (butlast p)"
  by (cases p rule: rev_cases) (simp_all add: real_dir_snoc)

lemma real_dir_extend: "real_dir fs p \<Longrightarrow> real_dir (fs @ new) p"
  by (simp add: real_dir_def node_at_extend)

lemma real_dir_names: "fs_wf fs \<Longrightarrow> real_dir fs p \<Longrightarrow> list_all name_ok p"
proof (induction p rule: rev_induct)
  case (snoc c p)
  then have "(p @ [c], Directory) \<in> set fs" by (auto simp: real_dir_snoc intro: node_at_in)
  then have "name_ok c" using snoc.prems(1) by (fastforce simp: fs_wf_def)
  with snoc show ?case by (simp add: real_dir_snoc)
qed simp

text \<open>Strict resolution looks at existing entries only, and agrees with the other where it succeeds.\<close>

lemma walk_skip: "c = [] \<or> c = ''.'' \<Longrightarrow> walk strict fs n cur (c # cs) = walk strict fs n cur cs"
  by auto

lemma walk_up: "walk strict fs n cur (''..'' # cs) = walk strict fs n (butlast cur) cs"
  by simp

definition proper :: "string \<Rightarrow> bool" where
  "proper c \<longleftrightarrow> c \<noteq> [] \<and> c \<noteq> ''.'' \<and> c \<noteq> ''..''"

lemma walk_missing: "proper c \<Longrightarrow> node_at fs (cur @ [c]) = None \<Longrightarrow>
    walk strict fs n cur (c # cs) =
      (if strict then Inl (FileNotFoundError ''No such file or directory'') else walk strict fs n (cur @ [c]) cs)"
  by (simp add: proper_def)

lemma walk_enter: "proper c \<Longrightarrow> node_at fs (cur @ [c]) = Some Directory \<Longrightarrow>
    walk strict fs n cur (c # cs) = walk strict fs n (cur @ [c]) cs"
  by (simp add: proper_def)

lemma walk_file: "proper c \<Longrightarrow> node_at fs (cur @ [c]) = Some (Regular t) \<Longrightarrow>
    walk strict fs n cur (c # cs) =
      (if strict \<and> cs \<noteq> [] then Inl (OSError ''Not a directory'') else walk strict fs n (cur @ [c]) cs)"
  by (simp add: proper_def)

lemma walk_loop: "proper c \<Longrightarrow> node_at fs (cur @ [c]) = Some (Symlink t) \<Longrightarrow>
    walk strict fs 0 cur (c # cs) = Inl (OSError ''Too many levels of symbolic links'')"
  by (simp add: proper_def)

lemma walk_follow: "proper c \<Longrightarrow> node_at fs (cur @ [c]) = Some (Symlink t) \<Longrightarrow>
    walk strict fs (Suc m) cur (c # cs) = walk strict fs m (if is_absolute t then [] else cur) (path_parts t @ cs)"
  by (simp add: proper_def)

lemmas walk_steps = walk_skip walk_up walk_missing walk_enter walk_file walk_loop walk_follow

declare walk.simps(2) [simp del]

text \<open>
  The ways a strict resolution succeeds, as a rule of induction: nothing left, a component that is skipped, one
  step up, an existing directory, a file at the end, and a link.
\<close>

lemma walk_strict_induct [consumes 1, case_names Done Skip Up Enter File Follow]:
  assumes "walk True fs n cur cs = Inr q"
    and nil: "\<And>n cur. P n cur [] cur"
    and skip: "\<And>n cur c cs q. c = [] \<or> c = ''.'' \<Longrightarrow> walk True fs n cur cs = Inr q \<Longrightarrow> P n cur cs q \<Longrightarrow> P n cur (c # cs) q"
    and up: "\<And>n cur cs q. walk True fs n (butlast cur) cs = Inr q \<Longrightarrow> P n (butlast cur) cs q \<Longrightarrow> P n cur (''..'' # cs) q"
    and enter: "\<And>n cur c cs q. proper c \<Longrightarrow> node_at fs (cur @ [c]) = Some Directory \<Longrightarrow>
        walk True fs n (cur @ [c]) cs = Inr q \<Longrightarrow> P n (cur @ [c]) cs q \<Longrightarrow> P n cur (c # cs) q"
    and leaf: "\<And>n cur c t. proper c \<Longrightarrow> node_at fs (cur @ [c]) = Some (Regular t) \<Longrightarrow> P n cur [c] (cur @ [c])"
    and follow: "\<And>m cur c cs t q. proper c \<Longrightarrow> node_at fs (cur @ [c]) = Some (Symlink t) \<Longrightarrow>
        walk True fs m (if is_absolute t then [] else cur) (path_parts t @ cs) = Inr q \<Longrightarrow>
        P m (if is_absolute t then [] else cur) (path_parts t @ cs) q \<Longrightarrow> P (Suc m) cur (c # cs) q"
  shows "P n cur cs q"
proof -
  have "strict \<Longrightarrow> g = fs \<Longrightarrow> walk strict g n cur cs = Inr q \<Longrightarrow> P n cur cs q" for strict g
  proof (induction strict g n cur cs rule: walk.induct)
    case (1 strict g n cur)
    then show ?case using nil by simp
  next
    case (2 strict g n cur c cs)
    note eq = "2.prems"(2)
    consider "c = [] \<or> c = ''.''" | "c = ''..''" | "proper c" by (auto simp: proper_def)
    then show ?case
    proof cases
      case 1
      then show ?thesis using "2.IH"(1) "2.prems" skip[of c n cur cs q] by (auto simp: walk_skip)
    next
      case 2
      then show ?thesis using "2.IH"(2) "2.prems" up[of n cur cs q] by (auto simp: walk_up)
    next
      case 3
      then have c: "\<not> (c = [] \<or> c = ''.'')" "c \<noteq> ''..''" by (auto simp: proper_def)
      obtain x where x: "node_at fs (cur @ [c]) = Some x"
        using "2.prems" walk_missing[OF 3, of fs cur strict n cs] by (cases "node_at fs (cur @ [c])") auto
      show ?thesis
      proof (cases x)
        case Directory
        with x have d: "node_at fs (cur @ [c]) = Some Directory" by simp
        then have "walk True fs n (cur @ [c]) cs = Inr q" using "2.prems" walk_enter[OF 3 d] by simp
        then show ?thesis using "2.IH"(4)[OF c d[folded eq] refl] "2.prems"(1,2) enter[OF 3 d] by simp
      next
        case (Regular t)
        with x have d: "node_at fs (cur @ [c]) = Some (Regular t)" by simp
        then have "cs = [] \<and> q = cur @ [c]" using "2.prems" walk_file[OF 3 d, of strict n cs] by (auto split: if_splits)
        then show ?thesis using leaf[OF 3 d] by simp
      next
        case (Symlink t)
        with x have d: "node_at fs (cur @ [c]) = Some (Symlink t)" by simp
        obtain m where n: "n = Suc m" using "2.prems" walk_loop[OF 3 d] by (cases n) auto
        then have "walk True fs m (if is_absolute t then [] else cur) (path_parts t @ cs) = Inr q"
          using "2.prems" walk_follow[OF 3 d] by simp
        then show ?thesis using "2.IH"(6)[OF c d[folded eq] refl n] "2.prems"(1,2) follow[OF 3 d] n by simp
      qed
    qed
  qed
  from this[OF TrueI refl assms(1)] show ?thesis .
qed

lemma walk_extend: "walk True fs n cur cs = Inr q \<Longrightarrow> walk True (fs @ new) n cur cs = Inr q"
proof (induction rule: walk_strict_induct)
  case (Enter n cur c cs q)
  then show ?case by (simp add: walk_enter node_at_extend)
next
  case (File n cur c t)
  then show ?case by (simp add: walk_file[OF _ node_at_extend])
next
  case (Follow m cur c cs t q)
  then show ?case by (simp add: walk_follow[OF _ node_at_extend])
qed (simp_all add: walk_skip walk_up)

lemma walk_lenient: "walk True fs n cur cs = Inr q \<Longrightarrow> walk False fs n cur cs = Inr q"
proof (induction rule: walk_strict_induct)
  case (Follow m cur c cs t q)
  then show ?case by (simp add: walk_follow)
qed (simp_all add: walk_skip walk_up walk_enter walk_file)

lemma walk_real_dir: "walk True fs n cur cs = Inr q \<Longrightarrow> real_dir fs cur \<Longrightarrow> node_at fs q = Some Directory \<Longrightarrow> real_dir fs q"
  by (induction rule: walk_strict_induct) (simp_all add: real_dir_snoc real_dir_butlast)

lemma walk_real_append:
  "real_dir fs (cur @ cs) \<Longrightarrow> list_all proper cs \<Longrightarrow> walk strict fs n cur (cs @ ds) = walk strict fs n (cur @ cs) ds"
proof (induction cs arbitrary: cur)
  case (Cons c cs)
  then have "node_at fs (cur @ [c]) = Some Directory"
    using real_dir_prefix[of fs "cur @ [c]" cs] by (simp add: real_dir_snoc)
  then show ?case using Cons by (simp add: walk_enter)
qed simp

lemma walk_real: "real_dir fs (cur @ cs) \<Longrightarrow> list_all proper cs \<Longrightarrow> walk strict fs n cur cs = Inr (cur @ cs)"
  using walk_real_append[of fs cur cs strict n "[]"] by simp

text \<open>Paths without links, whose components may be missing: where resolution ends.\<close>

definition link_free :: "fs \<Rightarrow> path \<Rightarrow> bool" where
  "link_free fs p \<longleftrightarrow> (\<forall>k \<le> length p. \<not> is_link_node (node_at fs (take k p)))"

lemma link_free_Nil [simp]: "link_free fs []"
  by (simp add: link_free_def)

lemma link_free_snoc: "link_free fs (p @ [c]) \<longleftrightarrow> link_free fs p \<and> \<not> is_link_node (node_at fs (p @ [c]))"
  unfolding link_free_def by (auto simp: le_Suc_eq)

lemma link_free_butlast: "link_free fs p \<Longrightarrow> link_free fs (butlast p)"
  by (cases p rule: rev_cases) (simp_all add: link_free_snoc)

lemma link_free_prefix: "link_free fs (p @ q) \<Longrightarrow> link_free fs p"
  by (induction q rule: rev_induct) (simp_all add: link_free_snoc flip: append_assoc)

lemma real_dir_link_free: "real_dir fs p \<Longrightarrow> link_free fs p"
  by (simp add: real_dir_def link_free_def)

lemma proper_butlast: "list_all proper p \<Longrightarrow> list_all proper (butlast p)"
  by (cases p rule: rev_cases) simp_all

lemma walk_result: "walk strict fs n cur cs = Inr q \<Longrightarrow> link_free fs cur \<Longrightarrow> list_all proper cur \<Longrightarrow>
    link_free fs q \<and> list_all proper q"
proof (induction strict fs n cur cs rule: walk.induct)
  case (2 strict fs n cur c cs)
  have "link_free fs (butlast cur)" "list_all proper (butlast cur)"
    using "2.prems" by (auto intro: link_free_butlast proper_butlast)
  then show ?case using 2
    by (auto simp: walk.simps(2) link_free_snoc proper_def[abs_def] split: if_splits option.splits node.splits nat.splits)
qed simp

lemma resolve_path_result: "resolve_path n fs p = Inr q \<Longrightarrow> link_free fs q \<and> list_all proper q"
  using walk_result[of False fs n "[]" p q] by (simp add: resolve_path_def)

lemma walk_link_free: "walk True fs n cur cs = Inr q \<Longrightarrow> link_free fs (cur @ cs) \<Longrightarrow> list_all proper cs \<Longrightarrow> q = cur @ cs"
proof (induction rule: walk_strict_induct)
  case (Follow m cur c cs t q)
  then have "link_free fs (cur @ [c])" using link_free_prefix[of fs "cur @ [c]" cs] by simp
  then show ?case using Follow by (simp add: link_free_snoc)
qed (simp_all add: proper_def)

lemma walk_link_free_lenient: "link_free fs (cur @ cs) \<Longrightarrow> list_all proper cs \<Longrightarrow> walk False fs n cur cs = Inr (cur @ cs)"
proof (induction cs arbitrary: cur)
  case (Cons c cs)
  have "\<not> is_link_node (node_at fs (cur @ [c]))"
    using link_free_prefix[of fs "cur @ [c]" cs] Cons.prems by (simp add: link_free_snoc)
  then show ?case using Cons
    by (cases "node_at fs (cur @ [c])" rule: is_link_node.cases) (simp_all add: walk_missing walk_enter walk_file)
qed simp

lemma is_dir_iff: "is_dir n fs p \<longleftrightarrow> (\<exists>q. walk True fs n [] p = Inr q \<and> node_at fs q = Some Directory)"
  by (auto simp: is_dir_def stat_def split: sum.splits)

lemma is_dir_link_free: "is_dir n fs p \<Longrightarrow> link_free fs p \<Longrightarrow> list_all proper p \<Longrightarrow> real_dir fs p"
  using walk_real_dir[of fs n "[]" p p] walk_link_free[of fs n "[]" p] by (auto simp: is_dir_iff)

text \<open>A path of existing directories names itself.\<close>

lemma name_ok_proper: "name_ok c \<Longrightarrow> proper c"
  by (simp add: name_ok_def proper_def)

lemma real_dir_proper: "fs_wf fs \<Longrightarrow> real_dir fs p \<Longrightarrow> list_all proper p"
  using real_dir_names name_ok_proper by (auto simp: list_all_iff)

lemma real_dir_walk: "fs_wf fs \<Longrightarrow> real_dir fs p \<Longrightarrow> walk strict fs n [] p = Inr p"
  using walk_real[of fs "[]" p] real_dir_proper by simp

lemma real_dir_is_dir: "fs_wf fs \<Longrightarrow> real_dir fs p \<Longrightarrow> is_dir n fs p"
  by (simp add: is_dir_iff real_dir_walk real_dir_node)

lemma real_dir_resolve: "fs_wf fs \<Longrightarrow> real_dir fs p \<Longrightarrow> resolve_path n fs p = Inr p"
  by (simp add: resolve_path_def real_dir_walk)

lemma real_dir_place: "fs_wf fs \<Longrightarrow> real_dir fs p \<Longrightarrow> entry_place n fs (p @ [c]) = Inr (p @ [c])"
  by (simp add: entry_place_def real_dir_walk real_dir_node)

lemma real_dir_lstat: "fs_wf fs \<Longrightarrow> real_dir fs p \<Longrightarrow> lstat n fs (p @ [c]) = node_at fs (p @ [c])"
  by (simp add: lstat_def real_dir_place)

lemma real_dir_is_symlink: "fs_wf fs \<Longrightarrow> real_dir fs p \<Longrightarrow> is_symlink n fs (p @ [c]) = is_link_node (node_at fs (p @ [c]))"
  by (simp add: is_symlink_def real_dir_lstat)

lemma real_dir_no_link: "fs_wf fs \<Longrightarrow> real_dir fs p \<Longrightarrow> \<not> is_symlink n fs p"
  by (cases p rule: rev_cases) (simp_all add: real_dir_is_symlink real_dir_snoc is_symlink_def[of n fs "[]"] lstat_def)

lemma real_dir_enter: "fs_wf fs \<Longrightarrow> real_dir fs p \<Longrightarrow> proper c \<Longrightarrow> is_dir n fs (p @ [c]) \<Longrightarrow> \<not> is_symlink n fs (p @ [c]) \<Longrightarrow>
    real_dir fs (p @ [c])"
  by (rule is_dir_link_free)
    (simp_all add: link_free_snoc real_dir_link_free real_dir_is_symlink real_dir_proper)

lemma real_dir_add: "fs_wf fs \<Longrightarrow> real_dir fs p \<Longrightarrow>
    add_entry n (p @ [c]) x fs = Inr fs' \<longleftrightarrow> node_at fs (p @ [c]) = None \<and> fs' = fs @ [(p @ [c], x)]"
  by (auto simp: add_entry_def real_dir_place)

lemma node_at_add: "node_at fs p = None \<Longrightarrow> node_at (fs @ [(p, x)]) p = Some x"
  by (auto simp: node_at_def map_add_def split: if_splits)

lemma node_at_add_other: "p \<noteq> q \<Longrightarrow> node_at (fs @ [(q, x)]) p = node_at fs p"
  by (auto simp: node_at_def map_add_def split: option.splits)

lemma fs_wf_add: "fs_wf fs \<Longrightarrow> node_at fs p = Some Directory \<Longrightarrow> name_ok c \<Longrightarrow> fs_wf (fs @ [(p @ [c], x)])"
  by (auto simp: fs_wf_def intro: node_at_extend)



lemma node_at_add_dirs: "snd ` set new \<subseteq> {Directory} \<Longrightarrow> node_at fs p = None \<Longrightarrow>
    node_at (fs @ new) p = None \<or> node_at (fs @ new) p = Some Directory"
  by (cases "map_of new p") (auto simp: node_at_def map_add_def dest!: map_of_SomeD split: if_splits option.splits)

lemma is_link_add_dirs: "snd ` set new \<subseteq> {Directory} \<Longrightarrow> is_link_node (node_at (fs @ new) p) = is_link_node (node_at fs p)"
  using node_at_add_dirs[of new fs p] by (cases "node_at fs p") (auto simp: node_at_extend)

lemma link_free_add: "link_free fs p \<Longrightarrow> link_free (fs @ [(q, Directory)]) p"
  by (simp add: link_free_def is_link_add_dirs)

text \<open>Creating directories, the entries of one, and removing it.\<close>

lemma mkdir_all_proper: "list_all proper (p @ q) \<Longrightarrow> real_dir fs (p @ q) \<Longrightarrow> mkdir_all n p q fs = (Inr (), fs)"
proof (induction q arbitrary: p)
  case (Cons c q)
  then have "real_dir fs (p @ [c])" using real_dir_prefix[of fs "p @ [c]" q] by simp
  then have "is_dir n fs (p @ [c])" using Cons.prems walk_real[of fs "[]" "p @ [c]"] by (simp add: is_dir_iff real_dir_node)
  then show ?case using Cons by simp
qed simp

lemma mkdir_all_real: "fs_wf fs \<Longrightarrow> real_dir fs (p @ q) \<Longrightarrow> mkdir_all n p q fs = (Inr (), fs)"
  using mkdir_all_proper real_dir_proper by blast

text \<open>Creating the directories of a path without links appends directories, and the path is one afterwards.\<close>

lemma mkdir_all_link_free:
  assumes "mkdir_all n p q fs = (r, fs')" "real_dir fs p" "link_free fs (p @ q)" "list_all proper (p @ q)"
  shows "(isl r \<or> real_dir fs' (p @ q)) \<and>
    (\<exists>new. fs' = fs @ new \<and> snd ` set new \<subseteq> {Directory} \<and> (\<forall>t\<in>fst ` set new. below t (p @ q)))"
  using assms
proof (induction q arbitrary: p fs)
  case (Cons c q)
  have free: "link_free fs (p @ [c])" using link_free_prefix[of fs "p @ [c]" q] Cons.prems(3) by simp
  show ?case
  proof (cases "is_dir n fs (p @ [c])")
    case True
    then have "real_dir fs (p @ [c])" using is_dir_link_free free Cons.prems(4) by fastforce
    then show ?thesis using Cons.IH[of "p @ [c]" fs] Cons.prems True by simp
  next
    case False
    have place: "entry_place n fs (p @ [c]) = Inr (p @ [c])"
      using walk_real[of fs "[]" p] Cons.prems by (simp add: entry_place_def real_dir_node)
    let ?fs = "fs @ [(p @ [c], Directory)]"
    show ?thesis
    proof (cases "node_at fs (p @ [c])")
      case None
      then have rest: "mkdir_all n (p @ [c]) q ?fs = (r, fs')"
        using Cons.prems(1) False place by (auto simp: act_then_def act_bind_def act_put_def add_entry_def)
      have dir: "real_dir ?fs (p @ [c])" using Cons.prems(2) None by (simp add: real_dir_snoc real_dir_extend node_at_add)
      have "link_free ?fs (p @ c # q)" using link_free_add[OF Cons.prems(3)] by simp
      with Cons.IH[OF rest dir] Cons.prems(4) obtain new where
        "isl r \<or> real_dir fs' (p @ c # q)" "fs' = ?fs @ new" "snd ` set new \<subseteq> {Directory}"
        "\<forall>t\<in>fst ` set new. below t (p @ c # q)" by auto
      then show ?thesis by (intro conjI exI[of _ "(p @ [c], Directory) # new"]) (simp_all add: below_def)
    next
      case (Some x)
      then have "fs' = fs \<and> isl r"
        using Cons.prems(1) False place by (auto simp: act_then_def act_bind_def act_put_def add_entry_def)
      then show ?thesis by simp
    qed
  qed
qed (auto intro: exI[of _ "[]"])

text \<open>Resolution that is not strict does not see added directories.\<close>

lemma walk_add_dirs:
  "snd ` set new \<subseteq> {Directory} \<Longrightarrow> walk False (fs @ new) n cur cs = walk False fs n cur cs"
proof (induction False fs n cur cs rule: walk.induct)
  case (2 fs n cur c cs)
  show ?case
  proof (cases "node_at fs (cur @ [c])")
    case None
    with 2 show ?thesis using node_at_add_dirs[of new fs "cur @ [c]"] by (auto simp: walk.simps(2))
  next
    case (Some x)
    then have some: "node_at (fs @ new) (cur @ [c]) = Some x" by (rule node_at_extend)
    consider t m where "x = Symlink t" "n = Suc m" "proper c" | "\<forall>t. x = Symlink t \<longrightarrow> n = 0" | "\<not> proper c"
      by (cases n) auto
    then show ?thesis
    proof cases
      case 1
      then show ?thesis using 2(6)[of x t m] 2(7) Some some by (simp add: walk_follow) (auto simp: proper_def split: if_splits)
    next
      case 2
      then show ?thesis using "2.hyps" "2.prems" Some some by (cases x) (auto simp: walk.simps(2))
    next
      case 3
      then show ?thesis using "2.hyps" "2.prems" by (auto simp: walk.simps(2) proper_def)
    qed
  qed
qed simp

lemma mkdir_all_snoc: "mkdir_all n p (q @ [c]) = act_then (mkdir_all n p q) (mkdir_all n (p @ q) [c])"
  by (induction q arbitrary: p) (auto simp: act_then_def act_bind_def fun_eq_iff split: sum.splits prod.splits)

lemma make_dirs_real:
  assumes "fs_wf fs" "real_dir fs p" "name_ok c" "make_dirs n (p @ [c]) fs = (Inr u, fs')"
    and "\<not> (path_exists n fs (p @ [c]) \<and> is_symlink n fs (p @ [c]))"
  shows "fs_wf fs' \<and> real_dir fs' (p @ [c])"
proof (cases "is_dir n fs (p @ [c])")
  case True
  then have "\<not> is_symlink n fs (p @ [c])" using assms(5) by (auto simp: path_exists_def is_dir_def)
  then have "real_dir fs (p @ [c])" using real_dir_enter assms True name_ok_proper by blast
  moreover from this have "fs' = fs" using assms mkdir_all_real[of fs "[]" "p @ [c]" n] by (simp add: make_dirs_def)
  ultimately show ?thesis using assms by simp
next
  case False
  then have "add_entry n (p @ [c]) Directory fs = Inr fs'"
    using assms mkdir_all_real[of fs "[]" p n]
    by (simp add: make_dirs_def mkdir_all_snoc act_then_step) (auto simp: act_Inr)
  then have "node_at fs (p @ [c]) = None" "fs' = fs @ [(p @ [c], Directory)]"
    using assms by (simp_all add: real_dir_add)
  then show ?thesis using assms
    by (simp add: fs_wf_add real_dir_node real_dir_snoc real_dir_extend node_at_add)
qed

lemma children_real: "fs_wf fs \<Longrightarrow> real_dir fs p \<Longrightarrow> set (children n fs p) = {c. p @ [c] \<in> fst ` set fs}"
  by (force simp: children_def real_dir_walk image_iff)

lemma node_at_filter: "(\<And>x. Q (p, x)) \<Longrightarrow> node_at (filter Q fs) p = node_at fs p"
  by (induction fs) (auto simp: node_at_def)

lemma below_iff: "below q r \<longleftrightarrow> (\<exists>s. r = q @ s)"
  by (auto simp: below_def) (metis append_take_drop_id)

lemma below_butlast: "below q (butlast r) \<Longrightarrow> below q r"
  by (cases r rule: rev_cases) (auto simp: below_iff)

lemma fs_wf_remove: "fs_wf fs \<Longrightarrow> fs_wf (filter (\<lambda>(r, _). \<not> below q r) fs)"
  unfolding fs_wf_def by (auto simp: below_butlast intro!: node_at_filter[THEN trans] dest: below_butlast)

lemma real_dir_remove: "real_dir fs p \<Longrightarrow> \<not> below q p \<Longrightarrow> real_dir (filter (\<lambda>(r, _). \<not> below q r) fs) p"
  by (induction p rule: rev_induct)
    (auto simp: real_dir_snoc below_butlast intro!: node_at_filter[THEN trans] dest: below_butlast[of _ "_ @ [_]", simplified])

text \<open>A path is read back from its text.\<close>

lemma is_absolute_text [simp]: "is_absolute (path_str p)"
  by (simp add: is_absolute_def path_str_def starts_with_def)

lemma path_parts_text: "fs_wf fs \<Longrightarrow> real_dir fs p \<Longrightarrow> p \<noteq> [] \<Longrightarrow> path_parts (path_str p) = [] # p"
proof -
  assume "fs_wf fs" "real_dir fs p" "p \<noteq> []"
  then have "\<forall>c\<in>set p. CHR ''/'' \<notin> set c" using real_dir_names by (auto simp: list_all_iff name_ok_def)
  with \<open>p \<noteq> []\<close> have "split_char (CHR ''/'') (join_str ''/'' p) = p"
    by (intro split_join) auto
  then show ?thesis by (simp add: path_parts_def path_str_def)
qed

end
