(* ===== verification/Runner.thy ===== *)
theory Runner
  imports FileSystem
begin

text \<open>
  \<open>openhands_runner/server.py\<close>: one coding task run by an agent process in a scratch workspace. Git and the
  agent are programs, that is, parameters: functions from their arguments and the file system to an outcome and the
  file system they leave behind. The repository of a workspace is part of the file system.
\<close>

section \<open>The environment\<close>

datatype process = Exited int string string | Expired

text \<open>
  \<open>rr_links\<close> bounds the symbolic links one resolution follows; \<open>rr_loads\<close> decodes a request;
  \<open>rr_str\<close> is \<open>str\<close> on values that are neither text nor integers.
\<close>

record runner_env =
  rr_links :: nat
  rr_environ :: "string \<rightharpoonup> string"
  rr_root :: path
  rr_skills :: path
  rr_git :: "string list \<Rightarrow> path \<Rightarrow> fs \<Rightarrow> process \<times> fs"
  rr_which :: "string option"
  rr_agent :: "string list \<Rightarrow> path \<Rightarrow> (string \<times> string) list \<Rightarrow> int \<Rightarrow> fs \<Rightarrow> process \<times> fs"
  rr_loads :: "string \<Rightarrow> json result"
  rr_str :: "json \<Rightarrow> string"
  rr_float_repr :: "pyfloat \<Rightarrow> string"

definition max_request_bytes :: int where
  "max_request_bytes = 20000"

definition max_output_chars :: int where
  "max_output_chars = 20000"

definition max_shared_skills :: int where
  "max_shared_skills = 512"

definition is_ascii_alnum :: "char \<Rightarrow> bool" where
  "is_ascii_alnum c \<longleftrightarrow> (let n = ord_of c in 48 \<le> n \<and> n \<le> 57 \<or> 65 \<le> n \<and> n \<le> 90 \<or> 97 \<le> n \<and> n \<le> 122)"

definition safe_skill_name :: "string \<Rightarrow> bool" where
  "safe_skill_name s = (case s of
     [] \<Rightarrow> False
   | c # cs \<Rightarrow> is_ascii_alnum c \<and> length cs \<le> 127 \<and>
       list_all (\<lambda>x. is_ascii_alnum x \<or> x \<in> {CHR ''.'', CHR ''_'', CHR ''-''}) cs)"

definition bounded_output :: "string \<Rightarrow> string" where
  "bounded_output v = (if int (length v) \<le> max_output_chars then v else take (nat max_output_chars) v @ newline # ''...[truncated]'')"

section \<open>The workspace and its repository\<close>

definition safe_workspace :: "runner_env \<Rightarrow> string \<Rightarrow> (fs, path) act" where
  "safe_workspace xr relative =
     act_bind (act_get (\<lambda>fs. resolve_path (rr_links xr) fs (rr_root xr))) (\<lambda>dir.
     act_bind (act_get (\<lambda>fs. walk False fs (rr_links xr) (start_dir relative dir) (path_parts relative)))
       (\<lambda>candidate.
     if \<not> below dir candidate then act_raise (ValueError ''path is not in the subpath'')
     else act_then (make_dirs (rr_links xr) candidate) (act_return candidate)))"

definition git :: "runner_env \<Rightarrow> string list \<Rightarrow> path \<Rightarrow> bool \<Rightarrow> (fs, string) act" where
  "git xr args cwd check = (\<lambda>fs. case rr_git xr args cwd fs of
     (Expired, fs') \<Rightarrow> (Inl (TimeoutExpired ''git''), fs')
   | (Exited code out err, fs') \<Rightarrow>
       (if check \<and> code \<noteq> 0 then Inl (CalledProcessError ''git'') else Inr out, fs'))"

definition git_remotes :: "runner_env \<Rightarrow> path \<Rightarrow> (fs, string list) act" where
  "git_remotes xr workspace = act_bind (git xr [''remote''] workspace True) (\<lambda>out. act_return (split_ws out))"

definition git_quiet :: "runner_env \<Rightarrow> string list \<Rightarrow> path \<Rightarrow> bool \<Rightarrow> (fs, unit) act" where
  "git_quiet xr args cwd check = act_bind (git xr args cwd check) (\<lambda>_. act_return ())"

definition ensure_local_git :: "runner_env \<Rightarrow> path \<Rightarrow> (fs, unit) act" where
  "ensure_local_git xr workspace =
     act_then (\<lambda>fs. if path_exists (rr_links xr) fs (workspace @ [''.git'']) then act_return () fs
       else git_quiet xr [''init'', ''--initial-branch=hermeteam-local''] workspace True fs)
     (act_bind (git_remotes xr workspace) (\<lambda>remotes.
       if remotes \<noteq> [] then act_raise (ValueError ''OpenHands workspace must not have a git remote configured'')
       else act_then (git_quiet xr [''add'', ''-A''] workspace True)
         (git_quiet xr [''-c'', ''user.name=HermeTeam Builder'', ''-c'', ''user.email=builder@local.invalid'', ''commit'',
            ''--allow-empty'', ''-m'', ''HermeTeam OpenHands baseline''] workspace False)))"

section \<open>Shared skills\<close>

definition skill_entry :: "runner_env \<Rightarrow> fs \<Rightarrow> path \<Rightarrow> string \<Rightarrow> bool" where
  "skill_entry xr fs dir name \<longleftrightarrow> safe_skill_name name \<and>
     \<not> is_symlink (rr_links xr) fs (dir @ [name]) \<and> is_dir (rr_links xr) fs (dir @ [name]) \<and>
     \<not> is_symlink (rr_links xr) fs (dir @ [name, ''SKILL.md'']) \<and> is_file (rr_links xr) fs (dir @ [name, ''SKILL.md''])"

fun collect_skills :: "runner_env \<Rightarrow> fs \<Rightarrow> path \<Rightarrow> string list \<Rightarrow> (string \<times> path) list \<Rightarrow> (string \<times> path) list result" where
  "collect_skills xr fs dir [] found = Inr found"
| "collect_skills xr fs dir (name # names) found =
     (if \<not> skill_entry xr fs dir name then collect_skills xr fs dir names found
      else if max_shared_skills \<le> int (length found) then Inl (RuntimeError ''shared skills catalog exceeds 512 entries'')
      else result_bind (resolve_path (rr_links xr) fs (dir @ [name])) (\<lambda>resolved.
        if \<not> below dir resolved then Inl (ValueError ''path is not in the subpath'')
        else collect_skills xr fs dir names (found @ [(name, resolved)])))"

definition discover_shared_skills :: "runner_env \<Rightarrow> fs \<Rightarrow> (string \<times> path) list result" where
  "discover_shared_skills xr fs =
     (if is_symlink (rr_links xr) fs (rr_skills xr)
      then Inl (RuntimeError (''shared skills root must not be a symlink: '' @ path_str (rr_skills xr)))
      else result_bind (resolve_path (rr_links xr) fs (rr_skills xr)) (\<lambda>dir.
        if \<not> is_dir (rr_links xr) fs dir then Inl (RuntimeError (''shared skills root is unavailable: '' @ path_str dir))
        else result_bind (collect_skills xr fs dir (sort_by (<) (children (rr_links xr) fs dir)) []) (\<lambda>found.
          if found = [] then Inl (RuntimeError (''shared skills root contains no valid SKILL.md entries: '' @ path_str dir))
          else Inr found)))"

definition ensure_safe_directory :: "runner_env \<Rightarrow> path \<Rightarrow> path \<Rightarrow> (fs, unit) act" where
  "ensure_safe_directory xr p dir =
     act_bind (act_get (\<lambda>fs. Inr (path_exists (rr_links xr) fs p \<and> is_symlink (rr_links xr) fs p))) (\<lambda>linked.
     act_then (act_if linked (ValueError (''managed OpenHands path must not be a symlink: '' @ path_str p)))
     (act_then (make_dirs (rr_links xr) p)
     (act_bind (act_get (\<lambda>fs. resolve_path (rr_links xr) fs p)) (\<lambda>q.
      act_bind (act_get (\<lambda>fs. resolve_path (rr_links xr) fs dir)) (\<lambda>r.
      act_if (\<not> below r q) (ValueError ''path is not in the subpath''))))))"

definition managed_path :: "path \<Rightarrow> path" where
  "managed_path home = home @ [''.openhands'', ''skills'']"

definition clear_managed :: "runner_env \<Rightarrow> path \<Rightarrow> (fs, unit) act" where
  "clear_managed xr managed =
     (\<lambda>fs. if path_exists (rr_links xr) fs managed \<or> is_symlink (rr_links xr) fs managed then
         (if is_symlink (rr_links xr) fs managed \<or> \<not> is_dir (rr_links xr) fs managed
          then act_raise (ValueError ''managed OpenHands skills path must be a directory'') fs
          else act_put (remove_tree (rr_links xr) managed) fs)
       else act_return () fs)"

definition link_skill :: "runner_env \<Rightarrow> path \<Rightarrow> string \<times> path \<Rightarrow> (fs, unit) act" where
  "link_skill xr managed skill = act_put (add_entry (rr_links xr) (managed @ [fst skill]) (Symlink (path_str (snd skill))))"

definition prepare_shared_skills :: "runner_env \<Rightarrow> path \<Rightarrow> (fs, (string \<times> path) list) act" where
  "prepare_shared_skills xr home =
     act_bind (act_get (\<lambda>fs. Inr (path_exists (rr_links xr) fs home \<and> is_symlink (rr_links xr) fs home))) (\<lambda>linked.
     act_then (act_if linked (ValueError ''OpenHands HOME must not be a symlink''))
     (act_then (make_dirs (rr_links xr) home)
     (act_bind (act_get (\<lambda>fs. resolve_path (rr_links xr) fs home)) (\<lambda>home_root.
      act_then (ensure_safe_directory xr (home @ [''.openhands'']) home_root)
      (act_then (clear_managed xr (managed_path home))
      (act_then (act_put (add_entry (rr_links xr) (managed_path home) Directory))
      (act_bind (act_get (discover_shared_skills xr)) (\<lambda>found.
       act_then (act_each (link_skill xr (managed_path home)) found) (act_return found)))))))))"

text \<open>The first skill whose link is not what it was.\<close>

fun verify_links :: "runner_env \<Rightarrow> fs \<Rightarrow> path \<Rightarrow> (string \<times> path) list \<Rightarrow> string option result" where
  "verify_links xr fs managed [] = Inr None"
| "verify_links xr fs managed ((name, source) # skills) =
     (if \<not> is_symlink (rr_links xr) fs (managed @ [name]) then Inr (Some (''managed OpenHands skill link was replaced: '' @ name))
      else (case result_bind (walk True fs (rr_links xr) [] (managed @ [name])) (\<lambda>p.
                result_bind (walk True fs (rr_links xr) [] source) (\<lambda>q. Inr (p = q))) of
          Inl (FileNotFoundError m) \<Rightarrow> Inr (Some (''managed OpenHands skill source disappeared: '' @ name))
        | Inl e \<Rightarrow> Inl e
        | Inr same \<Rightarrow>
            if \<not> same then Inr (Some (''managed OpenHands skill link target changed: '' @ name))
            else verify_links xr fs managed skills))"

definition verify_shared_skills :: "runner_env \<Rightarrow> fs \<Rightarrow> path \<Rightarrow> (string \<times> path) list \<Rightarrow> string option result" where
  "verify_shared_skills xr fs home expected =
     (let managed = managed_path home in
      if is_symlink (rr_links xr) fs managed \<or> \<not> is_dir (rr_links xr) fs managed
      then Inr (Some ''managed OpenHands skills directory was replaced'')
      else if set (children (rr_links xr) fs managed) \<noteq> fst ` set expected
      then Inr (Some ''managed OpenHands skills catalog entries changed during execution'')
      else verify_links xr fs managed expected)"

section \<open>Running a task\<close>

text \<open>The environment of the agent, as an association list; \<open>home\<close> is created on the way.\<close>

definition home_name :: string where
  "home_name = ''.hermeteam-openhands-home''"

definition env_text :: "runner_env \<Rightarrow> string \<Rightarrow> string \<Rightarrow> string" where
  "env_text xr name fallback = (case rr_environ xr name of Some v \<Rightarrow> v | None \<Rightarrow> fallback)"

definition exclude_home :: "runner_env \<Rightarrow> path \<Rightarrow> (fs, unit) act" where
  "exclude_home xr workspace =
     (let info = workspace @ [''.git'', ''info'']; exclude = info @ [''exclude'']; entry = home_name @ ''/'' in
      act_then (make_dirs (rr_links xr) info)
      (act_bind (act_get (\<lambda>fs. if path_exists (rr_links xr) fs exclude then read_file (rr_links xr) exclude fs else Inr [])) (\<lambda>txt.
       if contains_str entry txt then act_return ()
       else act_put (write_file (rr_links xr) exclude (txt @ newline # entry @ [newline])))))"

definition agent_variables :: "runner_env \<Rightarrow> path \<Rightarrow> string \<Rightarrow> string \<Rightarrow> string \<Rightarrow> (string \<times> string) list" where
  "agent_variables xr home model api_key base_url =
     [(''PATH'', env_text xr ''PATH'' ''/usr/local/bin:/usr/bin:/bin''), (''HOME'', path_str home),
      (''USER'', ''hermeteam-openhands''), (''LANG'', env_text xr ''LANG'' ''C.UTF-8''), (''LC_ALL'', env_text xr ''LC_ALL'' ''C.UTF-8''),
      (''OPENHANDS_SUPPRESS_BANNER'', ''1''), (''LLM_MODEL'', model), (''LLM_API_KEY'', api_key)] @
     (if base_url \<noteq> [] then [(''LLM_BASE_URL'', base_url)] else [])"

definition child_env :: "runner_env \<Rightarrow> path \<Rightarrow> (fs, (string \<times> string) list) act" where
  "child_env xr workspace =
     (let model = py_strip (env_text xr ''BUILDER_OPENHANDS_LLM_MODEL'' []);
          api_key = py_strip (env_text xr ''BUILDER_OPENHANDS_LLM_API_KEY'' []);
          base_url = py_strip (env_text xr ''BUILDER_OPENHANDS_LLM_BASE_URL'' []);
          home = workspace @ [home_name] in
      act_then (act_if (model = [] \<or> api_key = [])
        (ValueError ''OpenHands runner requires BUILDER_OPENHANDS_LLM_MODEL and BUILDER_OPENHANDS_LLM_API_KEY''))
      (act_bind (act_get (\<lambda>fs. Inr (path_exists (rr_links xr) fs home \<and> is_symlink (rr_links xr) fs home))) (\<lambda>linked.
       act_then (act_if linked (ValueError ''OpenHands HOME must not be a symlink''))
       (act_then (make_dirs (rr_links xr) home)
       (act_bind (act_get (\<lambda>fs. resolve_path (rr_links xr) fs home)) (\<lambda>h.
        act_bind (act_get (\<lambda>fs. resolve_path (rr_links xr) fs workspace)) (\<lambda>w.
        act_then (act_if (\<not> below w h) (ValueError ''path is not in the subpath''))
        (act_then (exclude_home xr workspace)
        (act_return (agent_variables xr home model api_key base_url))))))))))"

text \<open>\<open>int(x)\<close> on a decoded value.\<close>

definition truncate_rat :: "rat \<Rightarrow> int" where
  "truncate_rat q = (if q < 0 then \<lceil>q\<rceil> else \<lfloor>q\<rfloor>)"

fun json_int :: "json \<Rightarrow> int result" where
  "json_int (JInt i) = Inr i"
| "json_int (JBool b) = Inr (if b then 1 else 0)"
| "json_int (JFloat NaN) = Inl (ValueError ''cannot convert float NaN to integer'')"
| "json_int (JFloat (Fin q)) = Inr (truncate_rat q)"
| "json_int (JFloat f) = Inl (OverflowError ''cannot convert float infinity to integer'')"
| "json_int (JStr s) = (case py_int s of Some i \<Rightarrow> Inr i | None \<Rightarrow> Inl (ValueError ''invalid literal for int() with base 10''))"
| "json_int v = Inl (TypeError ''int() argument must be a string or a real number'')"

definition clamp_timeout :: "int \<Rightarrow> int" where
  "clamp_timeout t = min (max t 30) 1800"

definition max_task_chars :: int where
  "max_task_chars = 12000"

text \<open>The task, the time allowed and the workspace asked for.\<close>

definition read_task :: "runner_env \<Rightarrow> pydict \<Rightarrow> (string \<times> int \<times> string) result" where
  "read_task xr request =
     (let task = py_strip (str_field (rr_str xr) request [''task'']) in
      if task = [] then Inl (ValueError ''task is required'')
      else if max_task_chars < int (length task) then Inl (ValueError ''task exceeds 12000 characters'')
      else result_bind (json_int (if truthy (dict_get request ''timeout_seconds'') then dict_get request ''timeout_seconds'' else JInt 900))
        (\<lambda>t. Inr (task, clamp_timeout t,
          if truthy (dict_get request ''workspace'') then json_str (rr_str xr) (dict_get request ''workspace'') else ''.'')))"

definition agent_args :: "string \<Rightarrow> string \<Rightarrow> string list" where
  "agent_args binary task = [binary, ''--headless'', ''--json'', ''--override-with-envs'', ''--exit-without-confirmation'', ''-t'', task]"

definition run_agent :: "runner_env \<Rightarrow> string list \<Rightarrow> path \<Rightarrow> (string \<times> string) list \<Rightarrow> int \<Rightarrow> (fs, int \<times> string \<times> string) act" where
  "run_agent xr args cwd env timeout = (\<lambda>fs. case rr_agent xr args cwd env timeout fs of
     (Expired, fs') \<Rightarrow> (Inl (TimeoutExpired ''openhands''), fs')
   | (Exited code out err, fs') \<Rightarrow> (Inr (code, out, err), fs'))"

definition violation_json :: "string \<Rightarrow> int \<Rightarrow> pydict" where
  "violation_json what code = [(''success'', JBool False), (''security_violation'', JStr what), (''exit_code'', JInt code)]"

definition success_json :: "path \<Rightarrow> nat \<Rightarrow> string list \<Rightarrow> int \<times> string \<times> string \<Rightarrow> pydict" where
  "success_json workspace skills changed outcome = (case outcome of (code, out, err) \<Rightarrow>
     [(''success'', JBool (code = 0)), (''exit_code'', JInt code), (''workspace'', JStr (path_str workspace)),
      (''shared_skills_count'', JInt (int skills)), (''changed'', JArr (map JStr (take 200 changed))),
      (''stdout'', JStr (bounded_output out)), (''stderr'', JStr (bounded_output err))])"

text \<open>Preparing the skills again after a violation; whatever is raised is dropped.\<close>

definition try_prepare :: "runner_env \<Rightarrow> path \<Rightarrow> (fs, unit) act" where
  "try_prepare xr home = (\<lambda>fs. (Inr (), snd (prepare_shared_skills xr home fs)))"

text \<open>The part of \<open>run_task\<close> after the agent has returned.\<close>

definition check_outcome :: "runner_env \<Rightarrow> path \<Rightarrow> path \<Rightarrow> (string \<times> path) list \<Rightarrow> int \<times> string \<times> string \<Rightarrow> (fs, pydict) act" where
  "check_outcome xr workspace home skills outcome =
     act_bind (git_remotes xr workspace) (\<lambda>remotes.
     if remotes \<noteq> [] then
       act_then (act_each (\<lambda>r. git_quiet xr [''remote'', ''remove'', r] workspace False) remotes)
         (act_return (violation_json ''OpenHands attempted to configure a git remote; remotes were removed'' (fst outcome)))
     else act_bind (act_get (\<lambda>fs. verify_shared_skills xr fs home skills)) (\<lambda>violation.
       case violation of
         Some what \<Rightarrow> act_then (try_prepare xr home) (act_return (violation_json what (fst outcome)))
       | None \<Rightarrow> act_bind (git xr [''status'', ''--porcelain=v1''] workspace True) (\<lambda>changed.
           act_return (success_json workspace (length skills) (py_splitlines changed) outcome))))"

text \<open>The part of \<open>run_task\<close> from the look-up of the binary on.\<close>

definition launch :: "runner_env \<Rightarrow> string \<Rightarrow> int \<Rightarrow> path \<Rightarrow> (fs, pydict) act" where
  "launch xr task timeout workspace =
     (case rr_which xr of
        None \<Rightarrow> act_raise (RuntimeError ''openhands binary is not installed'')
      | Some binary \<Rightarrow>
          act_bind (child_env xr workspace) (\<lambda>env.
          act_bind (prepare_shared_skills xr (workspace @ [home_name])) (\<lambda>skills.
          act_bind (run_agent xr (agent_args binary task) workspace env timeout)
            (check_outcome xr workspace (workspace @ [home_name]) skills))))"

definition run_task :: "runner_env \<Rightarrow> pydict \<Rightarrow> (fs, pydict) act" where
  "run_task xr request =
     act_bind (act_result (read_task xr request)) (\<lambda>(task, timeout, relative).
     act_bind (safe_workspace xr relative) (\<lambda>workspace.
     act_then (ensure_local_git xr workspace) (launch xr task timeout workspace)))"

section \<open>Serving a connection\<close>

text \<open>The chunks received from the socket; an empty one is the end.\<close>

fun read_payload :: "int \<Rightarrow> string \<Rightarrow> string list \<Rightarrow> string" where
  "read_payload limit payload [] = payload"
| "read_payload limit payload (chunk # chunks) =
     (if limit < int (length payload) \<or> chunk = [] then payload
      else if newline \<in> set chunk then payload @ chunk
      else read_payload limit (payload @ chunk) chunks)"

definition first_line :: "string \<Rightarrow> string" where
  "first_line payload = takeWhile (\<lambda>c. c \<noteq> newline) payload"

definition failure_json :: "exn \<Rightarrow> pydict" where
  "failure_json e = [(''success'', JBool False), (''error'', JStr
     (case e of TimeoutExpired m \<Rightarrow> ''OpenHands task timed out'' | _ \<Rightarrow> exn_text e))]"

definition handle_connection :: "runner_env \<Rightarrow> string list \<Rightarrow> fs \<Rightarrow> string \<times> fs" where
  "handle_connection xr chunks fs =
     (let payload = read_payload max_request_bytes [] chunks;
          outcome = act_bind (act_result
             (if max_request_bytes < int (length payload) then Inl (ValueError ''request too large'')
              else result_bind (rr_loads xr (first_line payload)) (\<lambda>v.
                case v of JObj d \<Rightarrow> Inr d | _ \<Rightarrow> Inl (ValueError ''request must be a JSON object'')))) (run_task xr) fs
      in (dumps_spaced (rr_float_repr xr) (JObj (case fst outcome of Inr d \<Rightarrow> d | Inl e \<Rightarrow> failure_json e)) @ [newline], snd outcome))"

end
