(* ===== verification/JsonLines.thy ===== *)
theory JsonLines
  imports PyJson
begin

text \<open>
  An encoded value is one line: what the line-based protocol of the runner and the files of one record a line rely on.
\<close>

definition one_line :: "string \<Rightarrow> bool" where
  "one_line s \<longleftrightarrow> newline \<notin> set s"

lemma one_line_simps [simp]:
  "one_line []" "one_line (c # s) \<longleftrightarrow> c \<noteq> newline \<and> one_line s" "one_line (s @ t) \<longleftrightarrow> one_line s \<and> one_line t"
  by (auto simp: one_line_def)

lemma one_line_concat: "one_line (concat ss) \<longleftrightarrow> list_all one_line ss"
  by (induction ss) simp_all

lemma one_line_join: "one_line sep \<Longrightarrow> list_all one_line ss \<Longrightarrow> one_line (join_str sep ss)"
  by (induction sep ss rule: join_str.induct) simp_all

lemma newline_code: "ord_of newline = 10"
  by (simp add: newline_def)

lemma hex_digit_one_line: "n < 16 \<Longrightarrow> hex_digit n \<noteq> newline"
  using newline_code by (auto simp: hex_digit_def of_char_of dest!: arg_cong[where f=ord_of] split: if_splits)

lemma esc_char_one_line: "one_line (esc_char c)"
proof -
  have "ord_of c < 32 \<Longrightarrow> hex_digit (ord_of c div 16) \<noteq> newline \<and> hex_digit (ord_of c mod 16) \<noteq> newline"
    by (intro conjI hex_digit_one_line) auto
  moreover have "ord_of c \<noteq> 10 \<Longrightarrow> c \<noteq> newline" using newline_code by auto
  ultimately show ?thesis by (auto simp: esc_char_def Let_def newline_def)
qed

lemma quote_str_one_line [simp]: "one_line (quote_str s)"
  by (auto simp: quote_str_def one_line_concat list_all_iff esc_char_one_line newline_def)

lemma str_of_int_one_line [simp]: "one_line (str_of_int i)"
  using str_of_int_chars[of newline i] by (auto simp: one_line_def newline_def)

text \<open>Two encoders differ in their separators only.\<close>

lemma dumps_one_line: "(\<And>f. one_line (fr f)) \<Longrightarrow> one_line (dumps fr j)"
proof (induction fr j rule: dumps.induct)
  case (6 fr xs)
  then show ?case by (auto simp: list_all_iff newline_def intro!: one_line_join)
next
  case (7 fr d)
  then show ?case by (auto simp: list_all_iff newline_def Let_def split: prod.splits intro!: one_line_join)
qed (simp_all add: newline_def)

lemma dumps_spaced_one_line: "(\<And>f. f \<in> json_floats j \<Longrightarrow> one_line (fr f)) \<Longrightarrow> one_line (dumps_spaced fr j)"
proof (induction fr j rule: dumps_spaced.induct)
  case (6 fr xs)
  then show ?case by (fastforce simp: list_all_iff newline_def intro!: one_line_join)
next
  case (7 fr d)
  then show ?case by (fastforce simp: list_all_iff newline_def Let_def split: prod.splits intro!: one_line_join)
qed (simp_all add: newline_def)

end
