(* ===== verification/RunnerFacts.thy ===== *)
theory RunnerFacts
  imports Runner JsonLines
begin

text \<open>
  What the container runner guarantees: the skills it links verify again until something changes them, a success is
  reported only for a run after which no remote was configured and the skills verified, and the agent is
  started in one way only.
\<close>

section \<open>Shared skills\<close>

lemma safe_skill_name_ok: "safe_skill_name s \<Longrightarrow> name_ok s"
  by (cases s) (auto simp: safe_skill_name_def name_ok_def is_ascii_alnum_def list_all_iff Let_def)

text \<open>A skill found is a real directory with a safe name, listed below the resolved root of the catalog.\<close>

definition skill_ok :: "fs \<Rightarrow> string \<times> path \<Rightarrow> bool" where
  "skill_ok fs skill \<longleftrightarrow> name_ok (fst skill) \<and> snd skill \<noteq> [] \<and> real_dir fs (snd skill)"

lemma collect_skills_ok:
  "collect_skills xr fs dir names found = Inr skills \<Longrightarrow> fs_wf fs \<Longrightarrow> real_dir fs dir \<Longrightarrow> list_all (skill_ok fs) found \<Longrightarrow>
     distinct names \<Longrightarrow> distinct (map fst found) \<Longrightarrow> set names \<inter> fst ` set found = {} \<Longrightarrow>
     list_all (skill_ok fs) skills \<and> distinct (map fst skills)"
proof (induction xr fs dir names found rule: collect_skills.induct)
  case (2 xr fs dir name names found)
  show ?case
  proof (cases "skill_entry xr fs dir name")
    case True
    then have n: "name_ok name" and "real_dir fs (dir @ [name])"
      using 2 by (auto simp: skill_entry_def safe_skill_name_ok name_ok_proper intro!: real_dir_enter)
    then have "resolve_path (rr_links xr) fs (dir @ [name]) = Inr (dir @ [name])" "skill_ok fs (name, dir @ [name])"
      using 2 by (simp_all add: real_dir_resolve skill_ok_def)
    then show ?thesis using True 2 by (simp add: below_def split: if_splits)
  next
    case False
    then show ?thesis using 2 by simp
  qed
qed simp

lemma discover_ok:
  assumes "discover_shared_skills xr fs = Inr skills" "fs_wf fs"
  shows "list_all (skill_ok fs) skills \<and> distinct (map fst skills)"
proof -
  obtain dir where dir: "resolve_path (rr_links xr) fs (rr_skills xr) = Inr dir" "is_dir (rr_links xr) fs dir"
    and found: "collect_skills xr fs dir (sort_by (<) (children (rr_links xr) fs dir)) [] = Inr skills"
    using assms(1) by (auto simp: discover_shared_skills_def split: if_splits)
  have "real_dir fs dir" using resolve_path_result[OF dir(1)] is_dir_link_free[OF dir(2)] by simp
  moreover have "distinct (sort_by (<) (children (rr_links xr) fs dir))"
    by (simp add: children_def split: sum.splits)
  ultimately show ?thesis using collect_skills_ok[OF found assms(2)] by simp
qed


lemma clear_managed_ok:
  assumes run: "clear_managed xr (p @ [c]) fs = (Inr u, fs')" and fs: "fs_wf fs" "real_dir fs p" "proper c"
  shows "fs_wf fs' \<and> real_dir fs' p \<and> (\<forall>name. p @ [c, name] \<notin> fst ` set fs')"
proof (cases "path_exists (rr_links xr) fs (p @ [c]) \<or> is_symlink (rr_links xr) fs (p @ [c])")
  case True
  then have "remove_tree (rr_links xr) (p @ [c]) fs = Inr fs'"
    using run by (auto simp: clear_managed_def act_Inr split: if_splits)
  then have f: "fs' = filter (\<lambda>(r, _). \<not> below (p @ [c]) r) fs"
    using fs by (simp add: remove_tree_def real_dir_place)
  moreover have "\<not> below (p @ [c]) p" by (simp add: below_iff)
  ultimately have "fs_wf fs'" "real_dir fs' p" using fs by (simp_all add: fs_wf_remove real_dir_remove)
  then show ?thesis using f by (auto simp: below_iff)
next
  case False
  then have f: "fs' = fs" using run by (simp add: clear_managed_def)
  have "\<not> is_dir (rr_links xr) fs (p @ [c])" using False by (auto simp: path_exists_def is_dir_def)
  then have "node_at fs (p @ [c]) \<noteq> Some Directory"
    using fs by (auto simp: real_dir_snoc dest: real_dir_is_dir[of fs "p @ [c]"])
  then have "p @ [c, name] \<notin> fst ` set fs" for name
    using fs_wf_parent[OF fs(1), of "p @ [c]" name] by auto
  then show ?thesis using f fs by simp
qed

lemma link_skills_ok:
  assumes "act_each (link_skill xr m) skills fs = (Inr u, fs')" "fs_wf fs" "real_dir fs m" "list_all (\<lambda>k. name_ok (fst k)) skills"
  shows "fs_wf fs' \<and> fs' = fs @ map (\<lambda>k. (m @ [fst k], Symlink (path_str (snd k)))) skills \<and>
    (\<forall>k\<in>set skills. node_at fs' (m @ [fst k]) = Some (Symlink (path_str (snd k))))"
  using assms
proof (induction skills arbitrary: fs)
  case (Cons k skills)
  let ?fs = "fs @ [(m @ [fst k], Symlink (path_str (snd k)))]"
  have none: "node_at fs (m @ [fst k]) = None" and rest: "act_each (link_skill xr m) skills ?fs = (Inr u, fs')"
    using Cons.prems by (auto simp: act_Inr link_skill_def[of xr m k] real_dir_add)
  have "fs_wf ?fs" "real_dir ?fs m" using Cons.prems by (simp_all add: fs_wf_add real_dir_node real_dir_extend)
  then have ih: "fs_wf fs'" "fs' = ?fs @ map (\<lambda>k. (m @ [fst k], Symlink (path_str (snd k)))) skills"
    "\<forall>k\<in>set skills. node_at fs' (m @ [fst k]) = Some (Symlink (path_str (snd k)))"
    using Cons.IH[OF rest] Cons.prems(4) by auto
  have "node_at fs' (m @ [fst k]) = Some (Symlink (path_str (snd k)))"
    unfolding ih(2) by (rule node_at_extend) (rule node_at_add[OF none])
  with ih(1,3) have "fs_wf fs' \<and> (\<forall>j\<in>set (k # skills). node_at fs' (m @ [fst j]) = Some (Symlink (path_str (snd j))))"
    by simp
  moreover have "fs' = fs @ map (\<lambda>k. (m @ [fst k], Symlink (path_str (snd k)))) (k # skills)" using ih(2) by simp
  ultimately show ?case by blast
qed simp

text \<open>What the managed directory holds after the skills were prepared.\<close>

definition prepared :: "fs \<Rightarrow> path \<Rightarrow> (string \<times> path) list \<Rightarrow> bool" where
  "prepared fs m skills \<longleftrightarrow> fs_wf fs \<and> real_dir fs m \<and> {c. m @ [c] \<in> fst ` set fs} = fst ` set skills \<and>
     (\<forall>k\<in>set skills. skill_ok fs k \<and> node_at fs (m @ [fst k]) = Some (Symlink (path_str (snd k))))"

lemma verify_links_prepared:
  assumes "fs_wf fs" "real_dir fs m" "0 < rr_links xr"
    and "\<forall>k\<in>set skills. skill_ok fs k \<and> node_at fs (m @ [fst k]) = Some (Symlink (path_str (snd k)))"
  shows "verify_links xr fs m skills = Inr None"
  using assms
proof (induction skills)
  case (Cons k skills)
  obtain name src where k: "k = (name, src)" by (cases k)
  obtain j where j: "rr_links xr = Suc j" using Cons.prems(3) gr0_implies_Suc by blast
  have src: "name_ok name" "src \<noteq> []" "real_dir fs src" and link: "node_at fs (m @ [name]) = Some (Symlink (path_str src))"
    using Cons.prems(4) k by (simp_all add: skill_ok_def)
  have "walk True fs (Suc j) [] (m @ [name]) = walk True fs (Suc j) m [name]"
    using walk_real_append[of fs "[]" m] Cons.prems real_dir_proper by simp
  also have "\<dots> = walk True fs j [] ([] # src)"
    using src link Cons.prems by (simp add: walk_follow name_ok_proper path_parts_text)
  also have "\<dots> = Inr src" using src Cons.prems by (simp add: walk_skip real_dir_walk)
  finally show ?case
    using Cons k j src link by (simp add: real_dir_is_symlink real_dir_walk)
qed simp

lemma verify_prepared:
  assumes "prepared fs (managed_path home) skills" "0 < rr_links xr"
  shows "verify_shared_skills xr fs home skills = Inr None"
  using assms unfolding verify_shared_skills_def prepared_def
  by (simp add: real_dir_no_link real_dir_is_dir children_real verify_links_prepared)

lemma ensure_safe_ok:
  assumes "ensure_safe_directory xr (p @ [c]) dir fs = (Inr u, fs')" "fs_wf fs" "real_dir fs p" "name_ok c"
  shows "fs_wf fs' \<and> real_dir fs' (p @ [c])"
proof -
  have "make_dirs (rr_links xr) (p @ [c]) fs = (Inr (), fs')"
    and "\<not> (path_exists (rr_links xr) fs (p @ [c]) \<and> is_symlink (rr_links xr) fs (p @ [c]))"
    using assms(1) unfolding ensure_safe_directory_def by (auto simp: act_Inr)
  then show ?thesis using make_dirs_real assms by blast
qed

lemma prepare_ok:
  assumes run: "prepare_shared_skills xr (w @ [c]) fs = (Inr skills, fs')"
    and fs: "fs_wf fs" "real_dir fs w" "name_ok c"
  shows "prepared fs' (managed_path (w @ [c])) skills"
proof -
  let ?home = "w @ [c]" and ?hidden = "w @ [c, ''.openhands'']"
  have managed: "managed_path ?home = ?hidden @ [''skills'']" by (simp add: managed_path_def)
  have names: "name_ok ''.openhands''" "name_ok ''skills''" by (simp_all add: name_ok_def)
  obtain f1 f2 f3 f4 dir where
    linked: "\<not> (path_exists (rr_links xr) fs ?home \<and> is_symlink (rr_links xr) fs ?home)"
    and f1: "make_dirs (rr_links xr) ?home fs = (Inr (), f1)"
    and f2: "ensure_safe_directory xr (?home @ [''.openhands'']) dir f1 = (Inr (), f2)"
    and f3: "clear_managed xr (?hidden @ [''skills'']) f2 = (Inr (), f3)"
    and f4: "add_entry (rr_links xr) (?hidden @ [''skills'']) Directory f3 = Inr f4"
    and found: "discover_shared_skills xr f4 = Inr skills"
    and links: "act_each (link_skill xr (managed_path ?home)) skills f4 = (Inr (), fs')"
    using run unfolding prepare_shared_skills_def managed by (auto simp: act_Inr)
  have 1: "fs_wf f1" "real_dir f1 ?home" using make_dirs_real[OF fs f1 linked] by simp_all
  then have 2: "fs_wf f2" "real_dir f2 ?hidden" using ensure_safe_ok[OF f2] names(1) by simp_all
  then have 3: "fs_wf f3" "real_dir f3 ?hidden" "\<And>name. ?hidden @ [''skills'', name] \<notin> fst ` set f3"
    using clear_managed_ok[OF f3] name_ok_proper[OF names(2)] by blast+
  have none: "node_at f3 (?hidden @ [''skills'']) = None" and f4: "f4 = f3 @ [(?hidden @ [''skills''], Directory)]"
    using real_dir_add[THEN iffD1, OF 3(1,2) f4] by blast+
  then have 4: "fs_wf f4" "real_dir f4 (managed_path ?home)"
    using 3 names unfolding managed by (simp_all only: fs_wf_add real_dir_node real_dir_snoc real_dir_extend node_at_add)
  have ok: "list_all (skill_ok f4) skills" using discover_ok[OF found 4(1)] by simp
  then have 5: "fs_wf fs'" "fs' = f4 @ map (\<lambda>k. (managed_path ?home @ [fst k], Symlink (path_str (snd k)))) skills"
    "\<forall>k\<in>set skills. node_at fs' (managed_path ?home @ [fst k]) = Some (Symlink (path_str (snd k)))"
    using link_skills_ok[OF links 4] by (auto simp: list_all_iff skill_ok_def)
  have "real_dir fs' (managed_path ?home)" using 4(2) unfolding 5(2) by (rule real_dir_extend)
  moreover have "\<forall>k\<in>set skills. skill_ok fs' k"
    using ok unfolding 5(2) by (auto simp: list_all_iff skill_ok_def real_dir_extend)
  moreover have "{d. managed_path ?home @ [d] \<in> fst ` set fs'} = fst ` set skills"
    using 3(3) unfolding 5(2) f4 managed by (simp add: image_Un image_image) (force simp: image_iff)
  ultimately show ?thesis using 5 unfolding prepared_def by blast
qed

text \<open>
  (C28) The skills that \<open>prepare_shared_skills\<close> links verify at once: after it succeeds below an
  existing directory, whatever was in the managed directory before, \<open>verify_shared_skills\<close> finds exactly the
  links it made, each to the skill it was made for. So a violation reported after a run is a change the run made.
\<close>

theorem prepared_skills_verify:
  assumes "prepare_shared_skills xr (w @ [c]) fs = (Inr skills, fs')"
    and "fs_wf fs" "real_dir fs w" "name_ok c" "0 < rr_links xr"
  shows "verify_shared_skills xr fs' (w @ [c]) skills = Inr None"
  using verify_prepared[OF prepare_ok[OF assms(1-4)] assms(5)] .

section \<open>The agent and what it reports\<close>

lemma read_task_ok:
  "read_task xr request = Inr (task, timeout, relative) \<Longrightarrow> task \<noteq> [] \<and> int (length task) \<le> max_task_chars \<and> 30 \<le> timeout \<and> timeout \<le> 1800"
  by (auto simp: read_task_def Let_def clamp_timeout_def split: if_splits)

lemma safe_workspace_ok:
  "safe_workspace xr relative fs = (Inr w, fs') \<Longrightarrow>
     (\<exists>dir. resolve_path (rr_links xr) fs (rr_root xr) = Inr dir \<and> below dir w)"
  unfolding safe_workspace_def by (auto simp: act_bind_Inr act_then_Inr split: if_splits)

definition env_model :: "runner_env \<Rightarrow> string" where
  "env_model xr = py_strip (env_text xr ''BUILDER_OPENHANDS_LLM_MODEL'' [])"

definition env_key :: "runner_env \<Rightarrow> string" where
  "env_key xr = py_strip (env_text xr ''BUILDER_OPENHANDS_LLM_API_KEY'' [])"

definition env_base :: "runner_env \<Rightarrow> string" where
  "env_base xr = py_strip (env_text xr ''BUILDER_OPENHANDS_LLM_BASE_URL'' [])"

lemma child_env_ok:
  "child_env xr w fs = (Inr env, fs') \<Longrightarrow>
     env = agent_variables xr (w @ [home_name]) (env_model xr) (env_key xr) (env_base xr) \<and> env_model xr \<noteq> [] \<and> env_key xr \<noteq> []"
  unfolding child_env_def env_model_def env_key_def env_base_def by (auto simp: act_Inr Let_def)

text \<open>Everything the agent may find in its environment.\<close>

definition allowed_variables :: "runner_env \<Rightarrow> path \<Rightarrow> (string \<times> string) set" where
  "allowed_variables xr cwd =
     {(''PATH'', env_text xr ''PATH'' ''/usr/local/bin:/usr/bin:/bin''), (''HOME'', path_str (cwd @ [home_name])),
      (''USER'', ''hermeteam-openhands''), (''LANG'', env_text xr ''LANG'' ''C.UTF-8''), (''LC_ALL'', env_text xr ''LC_ALL'' ''C.UTF-8''),
      (''OPENHANDS_SUPPRESS_BANNER'', ''1''), (''LLM_MODEL'', env_model xr), (''LLM_API_KEY'', env_key xr),
      (''LLM_BASE_URL'', env_base xr)}"

lemma agent_variables_allowed:
  "set (agent_variables xr (w @ [home_name]) (env_model xr) (env_key xr) (env_base xr)) \<subseteq> allowed_variables xr w"
  by (auto simp: agent_variables_def allowed_variables_def)

text \<open>The only calls of the agent: its program, arguments, directory, variables and time.\<close>

definition agent_call_ok :: "runner_env \<Rightarrow> fs \<Rightarrow> string list \<Rightarrow> path \<Rightarrow> (string \<times> string) list \<Rightarrow> int \<Rightarrow> bool" where
  "agent_call_ok xr fs args cwd env timeout \<longleftrightarrow>
     (\<exists>binary task. rr_which xr = Some binary \<and> args = agent_args binary task \<and> task \<noteq> [] \<and> int (length task) \<le> max_task_chars) \<and>
     (\<exists>dir. resolve_path (rr_links xr) fs (rr_root xr) = Inr dir \<and> below dir cwd) \<and>
     set env \<subseteq> allowed_variables xr cwd \<and>
     env_model xr \<noteq> [] \<and> env_key xr \<noteq> [] \<and> 30 \<le> timeout \<and> timeout \<le> 1800"

lemma collect_skills_agent: "collect_skills (xr\<lparr>rr_agent := a\<rparr>) fs dir names found = collect_skills xr fs dir names found"
  by (induction names arbitrary: found) (auto simp: skill_entry_def intro: result_bind_cong split: if_splits)

lemma verify_links_agent: "verify_links (xr\<lparr>rr_agent := a\<rparr>) fs m skills = verify_links xr fs m skills"
  by (induction skills) (auto split: sum.splits exn.splits)

lemma discover_agent: "discover_shared_skills (xr\<lparr>rr_agent := a\<rparr>) = discover_shared_skills xr"
  by (simp add: discover_shared_skills_def collect_skills_agent fun_eq_iff cong: if_cong)

lemma link_skill_agent: "link_skill (xr\<lparr>rr_agent := a\<rparr>) = link_skill xr"
  by (simp add: link_skill_def fun_eq_iff)

lemma prepare_agent: "prepare_shared_skills (xr\<lparr>rr_agent := a\<rparr>) home = prepare_shared_skills xr home"
  by (simp add: prepare_shared_skills_def ensure_safe_directory_def clear_managed_def discover_agent link_skill_agent cong: if_cong)

lemma verify_agent: "verify_shared_skills (xr\<lparr>rr_agent := a\<rparr>) = verify_shared_skills xr"
  by (simp add: verify_shared_skills_def verify_links_agent fun_eq_iff Let_def)

lemma git_agent: "git (xr\<lparr>rr_agent := a\<rparr>) = git xr"
  by (simp add: git_def fun_eq_iff)

lemma child_env_agent: "child_env (xr\<lparr>rr_agent := a\<rparr>) w = child_env xr w"
proof -
  have et: "env_text (xr\<lparr>rr_agent := a\<rparr>) = env_text xr" by (simp add: env_text_def fun_eq_iff)
  then have "agent_variables (xr\<lparr>rr_agent := a\<rparr>) = agent_variables xr" by (simp add: agent_variables_def fun_eq_iff)
  moreover have "exclude_home (xr\<lparr>rr_agent := a\<rparr>) = exclude_home xr" by (simp add: exclude_home_def fun_eq_iff cong: if_cong)
  ultimately show ?thesis by (simp add: child_env_def et)
qed

lemmas agent_frame = prepare_agent verify_agent git_agent child_env_agent

lemma run_agent_other: "safe_workspace (xr\<lparr>rr_agent := a\<rparr>) relative = safe_workspace xr relative"
  "ensure_local_git (xr\<lparr>rr_agent := a\<rparr>) w = ensure_local_git xr w"
  "read_task (xr\<lparr>rr_agent := a\<rparr>) request = read_task xr request"
  "check_outcome (xr\<lparr>rr_agent := a\<rparr>) w home skills outcome = check_outcome xr w home skills outcome"
  by (simp_all add: safe_workspace_def ensure_local_git_def git_remotes_def git_quiet_def read_task_def check_outcome_def
      try_prepare_def agent_frame cong: if_cong option.case_cong)

text \<open>
  (C27) The agent is confined: replacing it by any program that behaves the same on the calls of \<open>agent_call_ok\<close>
  changes no run. So it is started only as the installed binary on a task of 1 to 12000 characters, in a directory that
  resolves below the workspace root, for 30 to 1800 seconds, and with the nine variables of
  \<open>allowed_variables\<close> at most: no other variable of the runner reaches it.
\<close>

theorem agent_confined:
  assumes "\<And>args cwd env t g. agent_call_ok xr fs args cwd env t \<Longrightarrow> other args cwd env t g = rr_agent xr args cwd env t g"
  shows "run_task (xr\<lparr>rr_agent := other\<rparr>) request fs = run_task xr request fs"
proof -
  let ?xo = "xr\<lparr>rr_agent := other\<rparr>"
  have call: "run_agent ?xo args w env t g = run_agent xr args w env t g"
    if "agent_call_ok xr fs args w env t" for args w env t g
    using assms[OF that] by (simp add: run_agent_def)
  have "launch ?xo task timeout w g = launch xr task timeout w g"
    if task: "read_task xr request = Inr (task, timeout, relative)"
      and w: "safe_workspace xr relative fs = (Inr w, f2)" for task timeout relative w g f2
  proof (cases "rr_which xr")
    case (Some binary)
    have "agent_call_ok xr fs (agent_args binary task) w env timeout" if "child_env xr w g = (Inr env, g1)" for env g1
      using Some read_task_ok[OF task] safe_workspace_ok[OF w] child_env_ok[OF that] agent_variables_allowed
      unfolding agent_call_ok_def by blast
    then show ?thesis using Some
      by (simp add: launch_def agent_frame run_agent_other) (intro act_bind_cong, simp add: act_bind_def call run_agent_other split: prod.split sum.split)
  qed (simp add: launch_def)
  then show ?thesis
    unfolding run_task_def run_agent_other
    by (intro act_bind_cong) (auto intro!: act_bind_cong act_then_cong)
qed

text \<open>
  What holds of the file system and the programs when a run reports success: \<open>before\<close> is the state in which the
  agent started and \<open>checked\<close> the one in which git was asked for remotes for the last time.
\<close>

definition verified_run :: "runner_env \<Rightarrow> pydict \<Rightarrow> fs \<Rightarrow> bool" where
  "verified_run xr request checked \<longleftrightarrow>
     (\<exists>binary task timeout relative w env skills prior before out err after listed diag.
        read_task xr request = Inr (task, timeout, relative) \<and>
        prepare_shared_skills xr (w @ [home_name]) prior = (Inr skills, before) \<and>
        rr_agent xr (agent_args binary task) w env timeout before = (Exited 0 out err, after) \<and>
        rr_git xr [''remote''] w after = (Exited 0 listed diag, checked) \<and> split_ws listed = [] \<and>
        verify_shared_skills xr checked (w @ [home_name]) skills = Inr None)"

lemma git_Inr: "git xr args cwd True fs = (Inr out, fs') \<longleftrightarrow> (\<exists>err. rr_git xr args cwd fs = (Exited 0 out err, fs'))"
  by (auto simp: git_def split: prod.splits process.splits if_splits)

lemma git_remotes_Inr: "git_remotes xr w fs = (Inr remotes, fs') \<longleftrightarrow>
    (\<exists>out err. rr_git xr [''remote''] w fs = (Exited 0 out err, fs') \<and> remotes = split_ws out)"
  by (auto simp: git_remotes_def act_bind_Inr git_Inr)

lemma run_agent_Inr: "run_agent xr args cwd env t fs = (Inr (code, out, err), fs') \<longleftrightarrow>
    rr_agent xr args cwd env t fs = (Exited code out err, fs')"
  by (auto simp: run_agent_def split: prod.splits process.splits)

lemma success_keys [simp]: "dict_get (violation_json what code) ''success'' = JBool False"
  "dict_get (success_json w k changed (code, out, err)) ''success'' = JBool (code = 0)"
  by (simp_all add: violation_json_def success_json_def dict_get_def)

lemma violation_not_success [simp]: "violation_json what code \<noteq> success_json w k changed outcome"
  by (simp add: violation_json_def success_json_def split: prod.splits)

lemma check_outcome_success:
  assumes "check_outcome xr w home skills (code, out, err) fs = (Inr reply, fs')" "dict_get reply ''success'' = JBool True"
  shows "code = 0 \<and> (\<exists>listed diag checked. rr_git xr [''remote''] w fs = (Exited 0 listed diag, checked) \<and>
    split_ws listed = [] \<and> verify_shared_skills xr checked home skills = Inr None)"
  using assms unfolding check_outcome_def
  by (auto simp: act_bind_Inr act_then_Inr git_remotes_Inr split: if_splits option.split_asm)

text \<open>
  (C26) A run reports success only for work that was checked: the agent exited with 0, git, asked in the
  state the agent left, listed no remote, and every shared skill linked before the run was then
  still linked to its source, with nothing added.
\<close>

theorem success_means_verified:
  assumes "run_task xr request fs = (Inr reply, fs')" "dict_get reply ''success'' = JBool True"
  shows "\<exists>checked. verified_run xr request checked"
proof -
  obtain task timeout relative w f2 f3 where task: "read_task xr request = Inr (task, timeout, relative)"
    and "launch xr task timeout w f2 = (Inr reply, f3)"
    using assms(1) by (auto simp: run_task_def act_Inr)
  then obtain binary env skills f4 before code out err after f5 where
    prep: "prepare_shared_skills xr (w @ [home_name]) f4 = (Inr skills, before)"
    and agent: "rr_agent xr (agent_args binary task) w env timeout before = (Exited code out err, after)"
    and "check_outcome xr w (w @ [home_name]) skills (code, out, err) after = (Inr reply, f5)"
    by (auto simp: launch_def act_bind_Inr run_agent_Inr split: option.splits)
  from check_outcome_success[OF this(3) assms(2)] task prep agent show ?thesis
    unfolding verified_run_def by blast
qed

text \<open>A reply is one line, so that the reader, who stops at the first line break, has all of it.\<close>

lemma first_line_of: "one_line s \<Longrightarrow> first_line (s @ newline # rest) = s"
  unfolding first_line_def by (induction s) auto

definition no_floats :: "pydict \<Rightarrow> bool" where
  "no_floats d \<longleftrightarrow> json_floats (JObj d) = {}"

lemma reply_floats [simp]: "no_floats (violation_json what code)" "no_floats (success_json w k changed outcome)"
    "no_floats (failure_json e)"
  by (auto simp: no_floats_def violation_json_def success_json_def failure_json_def split: prod.splits)

lemma check_outcome_floats: "check_outcome xr w home skills outcome fs = (Inr reply, fs') \<Longrightarrow> no_floats reply"
  unfolding check_outcome_def by (auto simp: act_bind_Inr act_then_Inr split: if_splits option.split_asm)

lemma run_task_floats: "run_task xr request fs = (Inr reply, fs') \<Longrightarrow> no_floats reply"
  unfolding run_task_def launch_def by (auto simp: act_Inr split: option.splits dest!: check_outcome_floats)

lemma reply_is_one_line: "\<exists>s. fst (handle_connection xr chunks fs) = s @ [newline] \<and> one_line s"
proof -
  have "no_floats (case fst (act_bind m (run_task xr) fs) of Inr d \<Rightarrow> d | Inl e \<Rightarrow> failure_json e)" for m
    by (cases "act_bind m (run_task xr) fs") (auto simp: act_bind_Inr dest!: run_task_floats split: sum.split)
  then show ?thesis
    unfolding handle_connection_def Let_def fst_conv no_floats_def
    by (intro exI conjI) (rule refl, rule dumps_spaced_one_line, simp only: empty_iff)
qed

section \<open>Examples\<close>

text \<open>
  A workspace \<open>/w\<close> and one skill. Git here keeps the remotes in a file of the repository; the agent does nothing.
\<close>

definition fs_demo :: fs where
  "fs_demo = [([''w''], Directory), ([''w'', ''.git''], Directory), ([''k''], Directory), ([''k'', ''one''], Directory),
     ([''k'', ''one'', ''SKILL.md''], Regular ''do one thing'')]"

definition git_demo :: "string list \<Rightarrow> path \<Rightarrow> fs \<Rightarrow> process \<times> fs" where
  "git_demo args cwd fs =
     (if args = [''remote''] then
        (case node_at fs (cwd @ [''.git'', ''remotes'']) of Some (Regular t) \<Rightarrow> (Exited 0 t [], fs) | _ \<Rightarrow> (Exited 0 [] [], fs))
      else (Exited 0 [] [], fs))"

definition runner_demo :: runner_env where
  "runner_demo = \<lparr>rr_links = 4, rr_environ = [''BUILDER_OPENHANDS_LLM_MODEL'' \<mapsto> ''m'', ''BUILDER_OPENHANDS_LLM_API_KEY'' \<mapsto> ''s3'',
       ''GITHUB_TOKEN'' \<mapsto> ''t''],
     rr_root = [''w''], rr_skills = [''k''], rr_git = git_demo, rr_which = Some ''/bin/openhands'',
     rr_agent = (\<lambda>args cwd env t fs. (Exited 0 ''done'' [], fs)),
     rr_loads = (\<lambda>s. Inl (ValueError ''no JSON'')), rr_str = (\<lambda>_. []), rr_float_repr = (\<lambda>_. [])\<rparr>"

definition task_request :: pydict where
  "task_request = [(''task'', JStr '' fix it ''), (''timeout_seconds'', JInt 5)]"

definition demo_prepared :: "(string \<times> path) list result \<times> fs" where
  "demo_prepared = prepare_shared_skills runner_demo [''w'', home_name] fs_demo"

lemma fs_demo_wf: "fs_wf fs_demo" "real_dir fs_demo [''w'']"
  by (simp_all add: fs_wf_def fs_demo_def name_ok_def node_at_def real_dir_def le_Suc_eq)

lemma prepared_skills_verify_witness:
  "fst demo_prepared = Inr [(''one'', [''k'', ''one''])] \<and>
   verify_shared_skills runner_demo (snd demo_prepared) [''w'', home_name] [(''one'', [''k'', ''one''])] = Inr None"
proof -
  have run: "fst demo_prepared = Inr [(''one'', [''k'', ''one''])]" by code_simp
  then have "prepare_shared_skills runner_demo ([''w''] @ [home_name]) fs_demo = (Inr [(''one'', [''k'', ''one''])], snd demo_prepared)"
    by (simp add: demo_prepared_def prod_eq_iff)
  from run prepared_skills_verify[OF this fs_demo_wf] show ?thesis
    by (simp add: name_ok_def home_name_def runner_demo_def)
qed

lemma success_means_verified_witness:
  "\<exists>checked. verified_run runner_demo task_request checked"
proof -
  let ?r = "run_task runner_demo task_request fs_demo"
  have ok: "case fst ?r of Inr d \<Rightarrow> dict_get d ''success'' = JBool True | Inl e \<Rightarrow> False" by code_simp
  then obtain reply where reply: "fst ?r = Inr reply" "dict_get reply ''success'' = JBool True"
    by (auto split: sum.splits)
  then have "run_task runner_demo task_request fs_demo = (Inr reply, snd ?r)" by (simp add: prod_eq_iff)
  from success_means_verified[OF this reply(2)] show ?thesis .
qed

text \<open>An agent that does what it likes on any other call is never noticed.\<close>

definition wild_agent :: "fs \<Rightarrow> string list \<Rightarrow> path \<Rightarrow> (string \<times> string) list \<Rightarrow> int \<Rightarrow> fs \<Rightarrow> process \<times> fs" where
  "wild_agent start args cwd env t fs = (if agent_call_ok runner_demo start args cwd env t then (Exited 0 ''done'' [], fs) else (Expired, []))"

lemma agent_confined_witness:
  "run_task (runner_demo\<lparr>rr_agent := wild_agent fs_demo\<rparr>) task_request fs_demo = run_task runner_demo task_request fs_demo"
  by (rule agent_confined) (simp add: wild_agent_def runner_demo_def)

text \<open>
  A run that times out is not checked: a remote the agent added stays configured, and every later run in the
  workspace is refused because of it.
\<close>

definition slow_env :: runner_env where
  "slow_env = runner_demo\<lparr>rr_agent := (\<lambda>args cwd env t fs. (Expired, fs @ [(cwd @ [''.git'', ''remotes''], Regular ''origin'')]))\<rparr>"

lemma timeout_unchecked:
  "fst (run_task slow_env task_request fs_demo) = Inl (TimeoutExpired ''openhands'') \<and>
   fst (git_remotes slow_env [''w''] (snd (run_task slow_env task_request fs_demo))) = Inr [''origin''] \<and>
   fst (run_task runner_demo task_request (snd (run_task slow_env task_request fs_demo))) =
     Inl (ValueError ''OpenHands workspace must not have a git remote configured'')"
  by code_simp

end
