(* ===== verification/Bridge.thy ===== *)
theory Bridge
  imports RunnerFacts
begin

text \<open>
  \<open>hermeteam-openhands-bridge/__init__.py\<close>: the plugin by which the builder hands a task to the container
  runner over a socket. The runner is a parameter: a function from the request and the file system, which the two
  processes share, to the chunks of its response and the file system afterwards.
\<close>

record bridge_env =
  br_environ :: "string \<rightharpoonup> string"
  br_links :: nat
  br_root :: path
  br_socket :: "fs \<Rightarrow> bool"
  br_exchange :: "string \<Rightarrow> int \<Rightarrow> fs \<Rightarrow> string list result \<times> fs"
  br_loads :: "string \<Rightarrow> json result"
  br_str :: "json \<Rightarrow> string"
  br_float_repr :: "pyfloat \<Rightarrow> string"

definition plugin_version :: string where
  "plugin_version = ''0.3.0''"

definition max_reply_bytes :: int where
  "max_reply_bytes = 100000"

definition result_text :: "bridge_env \<Rightarrow> pydict \<Rightarrow> string" where
  "result_text br payload = dumps_spaced (br_float_repr br) (JObj payload)"

text \<open>The directory named by the request, created, and its path relative to the workspace root.\<close>

definition relative_text :: "path \<Rightarrow> path \<Rightarrow> string" where
  "relative_text dir p = (if drop (length dir) p = [] then ''.'' else join_str ''/'' (drop (length dir) p))"

definition bridge_workspace :: "bridge_env \<Rightarrow> string \<Rightarrow> (fs, string) act" where
  "bridge_workspace br relative =
     act_bind (act_get (\<lambda>fs. resolve_path (br_links br) fs (br_root br))) (\<lambda>dir.
     act_bind (act_get (\<lambda>fs. walk False fs (br_links br) (start_dir relative dir) (path_parts relative)))
       (\<lambda>candidate.
     if \<not> below dir candidate then act_raise (ValueError ''workspace must stay under /opt/data/workspace'')
     else act_then (make_dirs (br_links br) candidate) (act_return (relative_text dir candidate))))"

definition read_response :: "string list \<Rightarrow> string" where
  "read_response chunks = read_payload max_reply_bytes [] chunks"

definition call_runner :: "bridge_env \<Rightarrow> pydict \<Rightarrow> int \<Rightarrow> (fs, pydict) act" where
  "call_runner br request timeout =
     act_bind (act_get (\<lambda>fs. Inr (br_socket br fs))) (\<lambda>there.
     act_then (act_if (\<not> there) (RuntimeError ''OpenHands runner socket is unavailable''))
     (act_bind (br_exchange br (result_text br request @ [newline]) (timeout + 10)) (\<lambda>chunks.
       let payload = read_response chunks in
       if max_reply_bytes < int (length payload) then act_raise (RuntimeError ''OpenHands runner response exceeded limit'')
       else act_bind (act_result (br_loads br (first_line payload))) (\<lambda>v.
         case v of
           JObj d \<Rightarrow> act_return d
         | _ \<Rightarrow> act_raise (RuntimeError ''OpenHands runner returned an invalid response'')))))"

definition failure_text :: "bridge_env \<Rightarrow> string \<Rightarrow> string" where
  "failure_text br what = result_text br [(''success'', JBool False), (''error'', JStr what)]"

definition may_delegate :: "bridge_env \<Rightarrow> string option" where
  "may_delegate br =
     (if py_strip (case br_environ br ''ORCHESTRATOR_ROLE'' of Some v \<Rightarrow> v | None \<Rightarrow> []) \<noteq> ''builder''
      then Some ''openhands_delegate is restricted to the builder role''
      else if py_lower (case br_environ br ''BUILDER_OPENHANDS_ENABLED'' of Some v \<Rightarrow> v | None \<Rightarrow> ''true'')
          \<notin> {''1'', ''true'', ''yes'', ''on''}
      then Some ''OpenHands delegation is disabled''
      else None)"

text \<open>A time that is not a number counts as 900; an infinite one is an error the function does not catch.\<close>

definition delegate_timeout :: "pydict \<Rightarrow> int result" where
  "delegate_timeout params =
     (case json_int (if truthy (dict_get params ''timeout_seconds'') then dict_get params ''timeout_seconds'' else JInt 900) of
        Inr t \<Rightarrow> Inr (clamp_timeout t)
      | Inl (TypeError m) \<Rightarrow> Inr (clamp_timeout 900)
      | Inl (ValueError m) \<Rightarrow> Inr (clamp_timeout 900)
      | Inl e \<Rightarrow> Inl e)"

definition delegate_request :: "string \<Rightarrow> string \<Rightarrow> int \<Rightarrow> pydict" where
  "delegate_request task workspace timeout =
     [(''task'', JStr task), (''workspace'', JStr workspace), (''timeout_seconds'', JInt timeout)]"

definition wanted_workspace :: "bridge_env \<Rightarrow> pydict \<Rightarrow> string" where
  "wanted_workspace br params =
     (if truthy (dict_get params ''workspace'') then json_str (br_str br) (dict_get params ''workspace'') else ''.'')"

definition delegate_call :: "bridge_env \<Rightarrow> pydict \<Rightarrow> string \<Rightarrow> int \<Rightarrow> (fs, string) act" where
  "delegate_call br params task timeout = (\<lambda>fs.
     case act_bind (bridge_workspace br (wanted_workspace br params))
         (\<lambda>workspace. call_runner br (delegate_request task workspace timeout) timeout) fs of
       (Inr response, fs') \<Rightarrow> (Inr (result_text br (dict_set response ''plugin_version'' (JStr plugin_version))), fs')
     | (Inl e, fs') \<Rightarrow> (Inr (result_text br
         [(''success'', JBool False), (''error'', JStr (exn_text e)), (''plugin_version'', JStr plugin_version)]), fs'))"

definition delegate :: "bridge_env \<Rightarrow> pydict \<Rightarrow> (fs, string) act" where
  "delegate br params =
     (case may_delegate br of
        Some what \<Rightarrow> act_return (failure_text br what)
      | None \<Rightarrow>
          (let task = py_strip (str_field (br_str br) params [''task'']) in
           if task = [] then act_return (failure_text br ''task is required'')
           else if max_task_chars < int (length task) then act_return (failure_text br ''task exceeds 12000 characters'')
           else act_bind (act_result (delegate_timeout params)) (delegate_call br params task)))"

section \<open>What reaches the runner\<close>

lemma py_strip_strip: "py_strip (py_strip s) = py_strip s"
proof (rule py_strip_id)
  define t where "t = py_lstrip s"
  obtain w where w: "t = py_rstrip t @ w" using py_strip_rstrip_prefix by blast
  have head: "t = [] \<or> \<not> is_space (hd t)" unfolding t_def py_lstrip_def by (rule dropWhile_ends)
  have last: "py_rstrip t = [] \<or> \<not> is_space (last (py_rstrip t))"
    using dropWhile_ends[of is_space "rev t"] by (auto simp: py_rstrip_def last_rev)
  have "py_rstrip t \<noteq> [] \<Longrightarrow> hd (py_rstrip t) = hd t" using w by (metis hd_append2)
  then show "py_strip s = [] \<or> \<not> is_space (hd (py_strip s)) \<and> \<not> is_space (last (py_strip s))"
    using head last w unfolding py_strip_def t_def by (metis append_is_Nil_conv)
qed

lemma py_strip_Nil [simp]: "py_strip [] = []"
  by (simp add: py_strip_Nil_iff)

lemma clamp_timeout_range: "30 \<le> clamp_timeout t \<and> clamp_timeout t \<le> 1800"
  by (simp add: clamp_timeout_def)

lemma delegate_timeout_range: "delegate_timeout params = Inr t \<Longrightarrow> 30 \<le> t \<and> t \<le> 1800"
  using clamp_timeout_range by (auto simp: delegate_timeout_def split: sum.splits exn.splits)

lemma read_task_delegate:
  assumes "py_strip task = task" "task \<noteq> []" "int (length task) \<le> max_task_chars" "30 \<le> t" "t \<le> 1800" "ws \<noteq> []"
  shows "read_task xr (delegate_request task ws t) = Inr (task, t, ws)"
  using assms by (simp add: read_task_def delegate_request_def str_field_def clamp_timeout_def Let_def)

lemma delegate_request_line: "one_line (result_text br (delegate_request task ws t))"
  unfolding result_text_def by (rule dumps_spaced_one_line) (simp add: delegate_request_def)

text \<open>Where the workspace sent to the runner leads.\<close>

definition no_slash :: "string \<Rightarrow> bool" where
  "no_slash c \<longleftrightarrow> CHR ''/'' \<notin> set c"

lemma path_parts_no_slash: "list_all no_slash (path_parts s)"
  unfolding list_all_iff no_slash_def path_parts_def by (auto dest: split_char_parts)

lemma no_slash_butlast: "list_all no_slash p \<Longrightarrow> list_all no_slash (butlast p)"
  by (cases p rule: rev_cases) simp_all

lemma walk_no_slash:
  "walk strict fs n cur cs = Inr q \<Longrightarrow> list_all no_slash cur \<Longrightarrow> list_all no_slash cs \<Longrightarrow> list_all no_slash q"
proof (induction strict fs n cur cs rule: walk.induct)
  case (2 strict fs n cur c cs)
  have "list_all no_slash (butlast cur)" using "2.prems"(2) by (rule no_slash_butlast)
  then show ?case using 2
    by (auto simp: walk.simps(2) path_parts_no_slash split: if_splits option.splits node.splits nat.splits)
qed simp

lemma relative_text_not_Nil: "list_all proper p \<Longrightarrow> relative_text dir p \<noteq> []"
proof (cases "drop (length dir) p")
  case (Cons c q)
  assume "list_all proper p"
  moreover have "c \<in> set p" using Cons in_set_dropD[of c "length dir" p] by simp
  ultimately have "c \<noteq> []" by (simp add: list_all_iff proper_def)
  then show ?thesis by (cases q) (simp_all add: relative_text_def Cons)
qed (simp add: relative_text_def)

text \<open>The text sent for a directory below the root names that directory again, from the root.\<close>

lemma relative_text_walk:
  assumes "below dir p" "link_free fs p" "list_all proper p" "list_all no_slash p"
  shows "\<not> is_absolute (relative_text dir p) \<and> walk False fs n dir (path_parts (relative_text dir p)) = Inr p"
proof -
  obtain q where p: "p = dir @ q" using assms(1) by (auto simp: below_iff)
  show ?thesis
  proof (cases "q = []")
    case True
    then show ?thesis using p by (simp add: relative_text_def is_absolute_def path_parts_def walk_skip starts_with_def)
  next
    case False
    then have "path_parts (relative_text dir p) = q"
      using assms(4) p by (auto simp: relative_text_def path_parts_def no_slash_def list_all_iff intro!: split_join)
    moreover have "\<not> is_absolute (relative_text dir p)"
      using False assms(3,4) p
      by (cases q; cases "hd q"; cases "tl q") (auto simp: relative_text_def is_absolute_def starts_with_def proper_def no_slash_def)
    ultimately show ?thesis using walk_link_free_lenient[of fs dir q n] assms p by simp
  qed
qed

lemma bridge_workspace_served:
  assumes run: "bridge_workspace br relative fs = (Inr ws, fs1)"
    and same: "rr_links xr = br_links br" "rr_root xr = br_root br" and names: "list_all no_slash (br_root br)"
  obtains dir w where "resolve_path (br_links br) fs (br_root br) = Inr dir" "below dir w" "ws = relative_text dir w"
    "walk False fs (br_links br) (start_dir relative dir) (path_parts relative) = Inr w"
    "safe_workspace xr ws fs1 = (Inr w, fs1)" "ws \<noteq> []"
proof -
  obtain dir w where dir: "resolve_path (br_links br) fs (br_root br) = Inr dir" and below: "below dir w" and ws: "ws = relative_text dir w"
    and w: "walk False fs (br_links br) (start_dir relative dir) (path_parts relative) = Inr w"
    and made: "make_dirs (br_links br) w fs = (Inr (), fs1)"
    using run by (auto simp: bridge_workspace_def act_Inr split: if_splits)
  have d: "link_free fs dir" "list_all proper dir" using resolve_path_result[OF dir] by simp_all
  then have free: "link_free fs w" "list_all proper w" using walk_result[OF w] by (auto simp: start_dir_def split: if_splits)
  have "list_all no_slash dir" using walk_no_slash dir names unfolding resolve_path_def by fastforce
  then have slash: "list_all no_slash w" using walk_no_slash[OF w] path_parts_no_slash by (auto simp: start_dir_def split: if_splits)
  obtain new where real: "real_dir fs1 w" and fs1: "fs1 = fs @ new" "snd ` set new \<subseteq> {Directory}"
    using mkdir_all_link_free[OF made[unfolded make_dirs_def]] free by auto
  have "resolve_path (rr_links xr) fs1 (rr_root xr) = Inr dir"
    using dir same walk_add_dirs[OF fs1(2)] unfolding fs1(1) resolve_path_def by simp
  moreover have "\<not> is_absolute ws \<and> walk False fs1 (rr_links xr) dir (path_parts ws) = Inr w"
    unfolding ws by (rule relative_text_walk[OF below real_dir_link_free[OF real] free(2) slash])
  moreover have "make_dirs (rr_links xr) w fs1 = (Inr (), fs1)"
    unfolding make_dirs_def by (rule mkdir_all_proper) (use free real in simp_all)
  ultimately have "safe_workspace xr ws fs1 = (Inr w, fs1)"
    using below by (simp add: safe_workspace_def act_bind_def act_then_def start_dir_def)
  then show ?thesis using that dir below ws w relative_text_not_Nil[OF free(2)] by blast
qed

definition builder_enabled :: "bridge_env \<Rightarrow> bool" where
  "builder_enabled br \<longleftrightarrow> (\<exists>v. br_environ br ''ORCHESTRATOR_ROLE'' = Some v \<and> py_strip v = ''builder'') \<and>
     (case br_environ br ''BUILDER_OPENHANDS_ENABLED'' of
        None \<Rightarrow> True | Some v \<Rightarrow> py_lower v \<in> {''1'', ''true'', ''yes'', ''on''})"

lemma may_delegate_enabled: "may_delegate br = None \<Longrightarrow> builder_enabled br"
  by (auto simp: may_delegate_def builder_enabled_def py_strip_Nil split: option.splits if_splits)

text \<open>The requests that are sent: by an enabled builder, for a task and a time the runner accepts, after the workspace was made.\<close>

definition exchange_ok :: "bridge_env \<Rightarrow> fs \<Rightarrow> string \<Rightarrow> int \<Rightarrow> fs \<Rightarrow> bool" where
  "exchange_ok br fs wire wait g \<longleftrightarrow> builder_enabled br \<and>
     (\<exists>task ws t relative. wire = result_text br (delegate_request task ws t) @ [newline] \<and> wait = t + 10 \<and>
        task \<noteq> [] \<and> py_strip task = task \<and> int (length task) \<le> max_task_chars \<and> 30 \<le> t \<and> t \<le> 1800 \<and>
        bridge_workspace br relative fs = (Inr ws, g))"



section \<open>Examples\<close>

text \<open>A bridge to the runner of \<open>RunnerFacts\<close>, whose decoder knows one request.\<close>

definition bridge_demo :: bridge_env where
  "bridge_demo = \<lparr>br_environ = [''ORCHESTRATOR_ROLE'' \<mapsto> ''builder''], br_links = 4, br_root = [''w''],
     br_socket = (\<lambda>fs. True),
     br_exchange = (\<lambda>wire wait fs. case handle_connection (runner_demo\<lparr>rr_loads :=
         (\<lambda>s. Inr (JObj (delegate_request ''fix it'' ''sub'' 900)))\<rparr>) [wire] fs of (reply, fs') \<Rightarrow> (Inr [reply], fs')),
     br_loads = (\<lambda>s. Inr (JObj [(''success'', JBool (starts_with ''{'' s))])),
     br_str = (\<lambda>_. []), br_float_repr = (\<lambda>_. [])\<rparr>"

definition delegate_params :: pydict where
  "delegate_params = [(''task'', JStr ''fix it ''), (''workspace'', JStr ''x/../sub'')]"

lemma bridge_demo_text:
  "fst (delegate bridge_demo delegate_params fs_demo) = Inr ''{\"plugin_version\": \"0.3.0\", \"success\": true}''"
  by code_simp

lemma bridge_demo_refused:
  "delegate (bridge_demo\<lparr>br_environ := [''ORCHESTRATOR_ROLE'' \<mapsto> ''reviewer'']\<rparr>) delegate_params fs_demo =
     (Inr ''{\"error\": \"openhands_delegate is restricted to the builder role\", \"success\": false}'', fs_demo)"
  by code_simp

definition other_runner :: "fs \<Rightarrow> string \<Rightarrow> int \<Rightarrow> fs \<Rightarrow> string list result \<times> fs" where
  "other_runner start wire wait g =
     (if exchange_ok bridge_demo start wire wait g then br_exchange bridge_demo wire wait g else (Inr [''{}''], []))"


definition wire_demo :: string where
  "wire_demo = result_text bridge_demo (delegate_request ''fix it'' ''sub'' 900) @ [newline]"


text \<open>A time that is infinite is not refused: the error of its conversion leaves the tool.\<close>

lemma infinite_timeout_raises:
  "delegate bridge_demo [(''task'', JStr ''fix it''), (''timeout_seconds'', JFloat PosInf)] fs_demo =
     (Inl (OverflowError ''cannot convert float infinity to integer''), fs_demo)"
  by code_simp

end
