(* ===== verification/AppendFile.thy ===== *)
theory AppendFile
  imports FileSystem
begin

text \<open>
  Files that only grow: the directories of a path are made and a text is appended to the file, as the artifacts of the
  workspace and the log of the intent action gate do.
\<close>

text \<open>\<open>open("a")\<close> and one write: a link at the end of the path is followed.\<close>

definition append_file :: "nat \<Rightarrow> path \<Rightarrow> string \<Rightarrow> fs \<Rightarrow> fs result" where
  "append_file n p t fs =
     result_bind (walk False fs n [] p) (\<lambda>q. case node_at fs q of
       Some (Regular old) \<Rightarrow> Inr (AList.update q (Regular (old @ t)) fs)
     | None \<Rightarrow> if node_at fs (butlast q) = Some Directory then Inr (fs @ [(q, Regular t)])
         else Inl (FileNotFoundError ''No such file or directory'')
     | Some _ \<Rightarrow> Inl (OSError ''Is a directory''))"

definition append_below :: "nat \<Rightarrow> path \<Rightarrow> string \<Rightarrow> (fs, unit) act" where
  "append_below n p t = act_then (make_dirs n (butlast p)) (act_put (append_file n p t))"

text \<open>What a file holds: nothing, if there is none.\<close>

definition file_text :: "fs \<Rightarrow> path \<Rightarrow> string" where
  "file_text fs p = (case node_at fs p of Some (Regular t) \<Rightarrow> t | _ \<Rightarrow> [])"

lemma node_at_update: "node_at (AList.update q x fs) p = (if p = q \<and> p \<noteq> [] then Some x else node_at fs p)"
  by (auto simp: node_at_def update_conv')

lemma append_file_frame:
  assumes "append_file n (p @ [c]) t fs = Inr fs'" "real_dir fs p" "list_all proper (p @ [c])"
    and "\<not> is_link_node (node_at fs (p @ [c]))"
  shows "node_at fs' (p @ [c]) = Some (Regular (file_text fs (p @ [c]) @ t)) \<and> (\<forall>q. q \<noteq> p @ [c] \<longrightarrow> node_at fs' q = node_at fs q)"
proof -
  have "walk False fs n [] (p @ [c]) = Inr (p @ [c])"
    using assms walk_link_free_lenient[of fs "[]" "p @ [c]" n] by (simp add: link_free_snoc real_dir_link_free)
  then show ?thesis using assms(1)
    by (auto simp: append_file_def file_text_def node_at_update node_at_add node_at_add_other split: option.splits node.splits if_splits)
qed

text \<open>Appending changes the file, by the text or not at all, and makes directories on the way to it.\<close>

lemma append_below_frame:
  assumes free: "link_free fs (p @ [c])" "list_all proper (p @ [c])" and run: "append_below n (p @ [c]) t fs = (res, fs')"
  shows "(\<forall>q. node_at fs' q \<noteq> node_at fs q \<longrightarrow> q = p @ [c] \<or> below q p \<and> node_at fs' q = Some Directory) \<and>
    (if isl res then node_at fs' (p @ [c]) = node_at fs (p @ [c])
     else node_at fs' (p @ [c]) = Some (Regular (file_text fs (p @ [c]) @ t)))"
proof -
  let ?p = "p @ [c]"
  have dir: "link_free fs p" "list_all proper p" and plain: "\<not> is_link_node (node_at fs ?p)"
    using free by (simp_all add: link_free_snoc)
  obtain made f1 where f1: "make_dirs n p fs = (made, f1)" by (cases "make_dirs n p fs")
  obtain new where new: "f1 = fs @ new" "snd ` set new \<subseteq> {Directory}" "\<forall>q\<in>fst ` set new. below q p"
    and real: "\<not> isl made \<Longrightarrow> real_dir f1 p"
    using mkdir_all_link_free[OF f1[unfolded make_dirs_def]] dir by auto
  have changed: "below q p \<and> node_at f1 q = Some Directory" if "node_at f1 q \<noteq> node_at fs q" for q
  proof -
    from that obtain x where "map_of new q = Some x" "node_at f1 q = Some x"
      unfolding new(1) by (auto simp: node_at_def map_add_def split: option.splits if_splits)
    then have "(q, x) \<in> set new" by (simp add: map_of_SomeD)
    then show ?thesis using new(2,3) \<open>node_at f1 q = Some x\<close> by force
  qed
  have "\<not> below ?p p" by (auto simp: below_iff)
  then have p: "node_at f1 ?p = node_at fs ?p" using changed by blast
  show ?thesis
  proof (cases "\<exists>u f2. made = Inr u \<and> append_file n ?p t f1 = Inr f2")
    case True
    then obtain f2 where made: "\<not> isl made" and f2: "append_file n ?p t f1 = Inr f2" by auto
    then have "fs' = f2" "res = Inr ()" using True run f1 by (auto simp: append_below_def act_bind_def act_then_def act_put_def)
    moreover have "node_at f2 ?p = Some (Regular (file_text f1 ?p @ t)) \<and> (\<forall>q. q \<noteq> ?p \<longrightarrow> node_at f2 q = node_at f1 q)"
      using append_file_frame[OF f2 real[OF made]] free plain p by simp
    ultimately show ?thesis using changed p by (auto simp: file_text_def)
  next
    case False
    then have "fs' = f1 \<and> isl res"
      using run f1 by (auto simp: append_below_def act_bind_def act_then_def act_put_def split: sum.splits)
    then show ?thesis using changed p by auto
  qed
qed

text \<open>In an existing directory, and if there is no directory in its place, the file can be appended to.\<close>

lemma append_below_real:
  assumes "real_dir fs p" "list_all proper (p @ [c])" "\<not> is_link_node (node_at fs (p @ [c]))" "node_at fs (p @ [c]) \<noteq> Some Directory"
  shows "\<exists>fs'. append_below n (p @ [c]) t fs = (Inr (), fs')"
proof -
  have "make_dirs n p fs = (Inr (), fs)" using mkdir_all_proper[of "[]" p fs n] assms by (simp add: make_dirs_def)
  moreover have "walk False fs n [] (p @ [c]) = Inr (p @ [c])"
    using assms walk_link_free_lenient[of fs "[]" "p @ [c]" n] by (simp add: link_free_snoc real_dir_link_free)
  then have "\<exists>fs'. append_file n (p @ [c]) t fs = Inr fs'"
    using assms by (cases "node_at fs (p @ [c])") (auto simp: append_file_def real_dir_node split: node.split)
  ultimately show ?thesis by (auto simp: append_below_def act_then_step act_put_def)
qed

end
