(* ===== verification/Artifacts.thy ===== *)
theory Artifacts
  imports AppendFile JsonLines FinalResponse WorkItems
begin

text \<open>
  \<open>workspace_artifacts.py\<close>: the line a completed run may leave in a file of the workspace. Modes of directories
  are not modelled, so the call of \<open>chmod\<close>, whose failure is ignored, has no effect here.
\<close>

section \<open>What is recorded\<close>

text \<open>The environment, the user's expansion of a path and the current directory, the clock, and the encoder of floats.\<close>

record artifact_env =
  ae_environ :: "string \<rightharpoonup> string"
  ae_expanduser :: "string \<Rightarrow> string result"
  ae_cwd :: path
  ae_links :: nat
  ae_now :: string
  ae_float_repr :: "pyfloat \<Rightarrow> string"

definition safe_root :: path where
  "safe_root = [''opt'', ''data'']"

definition default_workspace :: string where
  "default_workspace = ''/opt/data/workspace''"

definition artifact_file :: string where
  "artifact_file = ''self-evolution-results.jsonl''"

definition artifact_text_chars :: int where
  "artifact_text_chars = 4000"

definition artifact_value_chars :: int where
  "artifact_value_chars = 8000"

definition should_record :: "artifact_env \<Rightarrow> final_response \<Rightarrow> bool" where
  "should_record ae r =
     (if fr_final_status r = PROPOSED_FOR_HUMAN_REVIEW then True
      else (case fr_next_handoff r of
        None \<Rightarrow> False
      | Some d \<Rightarrow> (let txt = py_lower (dumps_spaced (ae_float_repr ae) (JObj d)) in
          list_ex (\<lambda>marker. contains_str marker txt) [''learning'', ''self-evolution'', ''hermes-agent-self-evolution''])))"

definition workspace_dir :: "artifact_env \<Rightarrow> fs \<Rightarrow> path result" where
  "workspace_dir ae fs =
     (let raw = (case ae_environ ae ''HERMES_WORKSPACE_DIR'' of
        None \<Rightarrow> default_workspace | Some v \<Rightarrow> if v = [] then default_workspace else v) in
      result_bind (ae_expanduser ae raw) (\<lambda>p.
      result_bind (resolve_path (ae_links ae) fs (start_dir p (ae_cwd ae) @ path_parts p)) (\<lambda>workspace.
      result_bind (resolve_path (ae_links ae) fs safe_root) (\<lambda>safe.
      if below safe workspace then Inr workspace
      else Inl (ValueError (''HERMES_WORKSPACE_DIR must resolve under '' @ path_str safe @ '': '' @ path_str workspace))))))"

definition truncate_text :: "string option \<Rightarrow> json" where
  "truncate_text v = (case v of None \<Rightarrow> JNull | Some s \<Rightarrow> JStr (take (nat artifact_text_chars) s))"

definition bounded_value :: "artifact_env \<Rightarrow> json \<Rightarrow> json" where
  "bounded_value ae v =
     (if v = JNull then JNull
      else let serialized = dumps_spaced (ae_float_repr ae) v in
        if int (length serialized) \<le> artifact_value_chars then v
        else JObj [(''truncated'', JBool True), (''preview'', JStr (take (nat artifact_value_chars) serialized))])"

definition artifact_record :: "artifact_env \<Rightarrow> work_item \<Rightarrow> final_response \<Rightarrow> pydict" where
  "artifact_record ae w r =
     [(''created_at'', JStr (ae_now ae)), (''role'', JStr (fr_role r)), (''assignment_key'', JStr (fr_assignment_key r)),
      (''provider'', JStr (wi_provider w)), (''repository_id'', JStr (wi_repository_id w)), (''kind'', JStr (wi_kind w)),
      (''external_id'', JStr (wi_external_id w)), (''url'', JStr (wi_url w)),
      (''final_status'', JStr (status_value (fr_final_status r))),
      (''summary'', truncate_text (Some (fr_summary r))), (''block_reason'', truncate_text (fr_block_reason r)),
      (''next_handoff'', bounded_value ae (case fr_next_handoff r of Some d \<Rightarrow> JObj d | None \<Rightarrow> JNull)),
      (''evidence'', bounded_value ae (JArr (fr_evidence r))),
      (''decision_log'', bounded_value ae (JArr (map JStr (fr_decision_log r)))),
      (''risks'', bounded_value ae (JArr (map JStr (fr_risks r)))),
      (''assumptions'', bounded_value ae (JArr (map JStr (fr_assumptions r))))]"

section \<open>Writing it\<close>

definition artifact_line :: "artifact_env \<Rightarrow> work_item \<Rightarrow> final_response \<Rightarrow> string" where
  "artifact_line ae w r = dumps (ae_float_repr ae) (JObj (artifact_record ae w r))"

definition write_artifact :: "artifact_env \<Rightarrow> work_item \<Rightarrow> final_response \<Rightarrow> (fs, unit) act" where
  "write_artifact ae w r =
     act_bind (act_get (workspace_dir ae)) (\<lambda>workspace.
     append_below (ae_links ae) (workspace @ [artifact_file]) (artifact_line ae w r @ [newline]))"

definition maybe_record :: "artifact_env \<Rightarrow> work_item \<Rightarrow> final_response \<Rightarrow> fs \<Rightarrow> bool \<times> fs" where
  "maybe_record ae w r fs =
     (if \<not> should_record ae r then (False, fs)
      else (case write_artifact ae w r fs of (Inr _, fs') \<Rightarrow> (True, fs') | (Inl e, fs') \<Rightarrow> (False, fs')))"

section \<open>The file holds complete lines and nothing else changes\<close>

lemma artifact_file_proper: "proper artifact_file"
  by (simp add: proper_def artifact_file_def)

lemma workspace_dir_ok: "workspace_dir ae fs = Inr dir \<Longrightarrow>
    link_free fs dir \<and> list_all proper dir \<and> (\<exists>safe. resolve_path (ae_links ae) fs safe_root = Inr safe \<and> below safe dir)"
  by (auto simp: workspace_dir_def Let_def dest: resolve_path_result split: if_splits)

lemma write_artifact_frame:
  assumes dir: "workspace_dir ae fs = Inr dir" and plain: "\<not> is_link_node (node_at fs (dir @ [artifact_file]))"
    and run: "write_artifact ae w r fs = (res, fs')"
  shows "(\<forall>t. node_at fs' t \<noteq> node_at fs t \<longrightarrow> t = dir @ [artifact_file] \<or> below t dir) \<and>
    (isl res \<or> node_at fs' (dir @ [artifact_file]) =
       Some (Regular (file_text fs (dir @ [artifact_file]) @ artifact_line ae w r @ [newline])))"
proof -
  have "link_free fs (dir @ [artifact_file])" "list_all proper (dir @ [artifact_file])"
    using workspace_dir_ok[OF dir] plain by (simp_all add: link_free_snoc artifact_file_proper)
  moreover have "append_below (ae_links ae) (dir @ [artifact_file]) (artifact_line ae w r @ [newline]) fs = (res, fs')"
    using run dir by (simp add: write_artifact_def act_bind_def)
  ultimately show ?thesis using append_below_frame by (cases "isl res") fastforce+
qed


text \<open>
  Recording, whether it succeeds or not, changes at most the file of records and directories on the way to it;
  and nothing at all if the workspace does not resolve below \<open>/opt/data\<close>.
\<close>

theorem artifact_confined:
  assumes "node_at (snd (maybe_record ae w r fs)) t \<noteq> node_at fs t"
    and "\<And>dir. workspace_dir ae fs = Inr dir \<Longrightarrow> \<not> is_link_node (node_at fs (dir @ [artifact_file]))"
  shows "\<exists>dir safe. workspace_dir ae fs = Inr dir \<and> resolve_path (ae_links ae) fs safe_root = Inr safe \<and> below safe dir \<and>
    (t = dir @ [artifact_file] \<or> below t dir)"
proof -
  obtain res fs' where run: "write_artifact ae w r fs = (res, fs')" by (cases "write_artifact ae w r fs")
  have changed: "node_at fs' t \<noteq> node_at fs t"
    using assms(1) run by (auto simp: maybe_record_def split: if_splits sum.splits)
  then obtain dir where dir: "workspace_dir ae fs = Inr dir"
    using run by (cases "workspace_dir ae fs") (auto simp: write_artifact_def act_bind_def)
  then show ?thesis using write_artifact_frame[OF dir assms(2)[OF dir] run] workspace_dir_ok[OF dir] changed by blast
qed

text \<open>What a record can hold: texts of 4000 characters, and values that are short or replaced by a preview.\<close>

definition value_short :: "artifact_env \<Rightarrow> json \<Rightarrow> json \<Rightarrow> bool" where
  "value_short ae v out \<longleftrightarrow>
     out = v \<and> int (length (dumps_spaced (ae_float_repr ae) v)) \<le> artifact_value_chars \<or>
     (\<exists>preview. out = JObj [(''truncated'', JBool True), (''preview'', JStr preview)] \<and>
        int (length preview) = artifact_value_chars \<and> (\<exists>rest. dumps_spaced (ae_float_repr ae) v = preview @ rest))"

lemma take_prefix: "\<exists>rest. s = take k s @ rest"
  by (rule exI[of _ "drop k s"]) simp

lemma bounded_value_short: "value_short ae v (bounded_value ae v)"
  by (auto simp: value_short_def bounded_value_def artifact_value_chars_def take_prefix Let_def)

lemma truncate_text_short:
  "truncate_text v = JStr s \<Longrightarrow> int (length s) \<le> artifact_text_chars \<and> (\<exists>rest. v = Some (s @ rest))"
  by (auto simp: truncate_text_def artifact_text_chars_def take_prefix split: option.splits)

lemma artifact_fields:
  "dict_get (artifact_record ae w r) ''summary'' = truncate_text (Some (fr_summary r))"
  "dict_get (artifact_record ae w r) ''evidence'' = bounded_value ae (JArr (fr_evidence r))"
  by (simp_all add: artifact_record_def)

lemma artifact_short:
  assumes "(k, v) \<in> set (artifact_record ae w r)" "k \<in> {''next_handoff'', ''evidence'', ''decision_log'', ''risks'', ''assumptions''}"
  shows "\<exists>u. value_short ae u v"
proof -
  have "\<exists>u. v = bounded_value ae u" using assms by (auto simp: artifact_record_def)
  then show ?thesis using bounded_value_short by blast
qed

section \<open>Examples\<close>

definition artifact_demo :: artifact_env where
  "artifact_demo = \<lparr>ae_environ = Map.empty, ae_expanduser = Inr, ae_cwd = [''app''], ae_links = 4,
     ae_now = ''2026-01-01T00:00:00Z'', ae_float_repr = (\<lambda>_. [])\<rparr>"

definition artifact_fs :: fs where
  "artifact_fs = [([''opt''], Directory), ([''opt'', ''data''], Directory)]"

definition artifact_item :: work_item where
  "artifact_item = \<lparr>wi_provider = ''github'', wi_repository_id = ''o/r'', wi_kind = ''issue'', wi_external_id = ''7'',
     wi_title = ''t'', wi_body = [], wi_body_hash = ''h'', wi_url = ''u'', wi_labels = [], wi_assignees = [], wi_updated_at = None\<rparr>"

definition artifact_response :: final_response where
  "artifact_response = \<lparr>fr_assignment_key = ''k'', fr_role = ''planner'', fr_final_status = PROPOSED_FOR_HUMAN_REVIEW,
     fr_summary = ''a'' @ [newline] @ ''b'', fr_evidence = [], fr_decision_log = [], fr_risks = [], fr_assumptions = [],
     fr_next_handoff = None, fr_block_reason = None\<rparr>"

abbreviation demo_workspace :: path where
  "demo_workspace \<equiv> [''opt'', ''data'', ''workspace'']"

lemma artifact_demo_run:
  "fst (maybe_record artifact_demo artifact_item artifact_response artifact_fs) = True"
  "workspace_dir artifact_demo artifact_fs = Inr demo_workspace"
  "node_at artifact_fs (demo_workspace @ [artifact_file]) = None"
  by code_simp+


lemma artifact_confined_witness:
  "\<exists>dir safe. workspace_dir artifact_demo artifact_fs = Inr dir \<and>
     resolve_path (ae_links artifact_demo) artifact_fs safe_root = Inr safe \<and> below safe dir \<and>
     (demo_workspace = dir @ [artifact_file] \<or> below demo_workspace dir)"
proof (rule artifact_confined[where w=artifact_item and r=artifact_response])
  show "node_at (snd (maybe_record artifact_demo artifact_item artifact_response artifact_fs)) demo_workspace \<noteq>
      node_at artifact_fs demo_workspace" by code_simp
  fix dir
  assume "workspace_dir artifact_demo artifact_fs = Inr dir"
  then have "dir = demo_workspace" by (simp add: artifact_demo_run(2))
  then show "\<not> is_link_node (node_at artifact_fs (dir @ [artifact_file]))" using artifact_demo_run(3) by simp
qed

text \<open>The directory is checked and the file in it is not: a link there leads the record out of \<open>/opt/data\<close>.\<close>

lemma artifact_follows_link:
  "let fs = artifact_fs @ [(demo_workspace, Directory), ([''etc''], Directory),
        (demo_workspace @ [artifact_file], Symlink ''/etc/motd'')] in
   node_at (snd (maybe_record artifact_demo artifact_item artifact_response fs)) [''etc'', ''motd''] \<noteq> None"
  by code_simp

end
