(* ===== verification/HttpOut.thy ===== *)
theory HttpOut
  imports Actions
begin

text \<open>
  What a handler of \<open>BaseHTTPRequestHandler\<close> writes to its client, as a trace, and how to show that an operation
  writes only certain things.
\<close>

section \<open>What is written to the client\<close>

datatype sent = Status int | Header string string | EndHeaders | Body string | CloseConnection

text \<open>
  The status line and headers are kept back until the headers end; only then, and for bodies, the client is written to,
  which may fail, given what was written so far.
\<close>

definition buffer :: "sent \<Rightarrow> (sent list, unit) act" where
  "buffer x = (\<lambda>s. (Inr (), s @ [x]))"

definition write_client :: "(sent list \<Rightarrow> exn option) \<Rightarrow> sent \<Rightarrow> (sent list, unit) act" where
  "write_client client x = (\<lambda>s. case client s of Some e \<Rightarrow> (Inl e, s) | None \<Rightarrow> (Inr (), s @ [x]))"

text \<open>\<open>try\<close> with one \<open>except\<close>, and a clause that raises another exception.\<close>

definition act_catch :: "('s, 'a) act \<Rightarrow> (exn \<Rightarrow> ('s, 'a) act) \<Rightarrow> ('s, 'a) act" where
  "act_catch m h = (\<lambda>s. case m s of (Inl e, s') \<Rightarrow> h e s' | (Inr x, s') \<Rightarrow> (Inr x, s'))"

definition map_error :: "(exn \<Rightarrow> exn) \<Rightarrow> ('s, 'a) act \<Rightarrow> ('s, 'a) act" where
  "map_error f m = (\<lambda>s. case m s of (Inl e, s') \<Rightarrow> (Inl (f e), s') | (Inr x, s') \<Rightarrow> (Inr x, s'))"

section \<open>What an answer looks like\<close>

fun is_header :: "sent \<Rightarrow> bool" where
  "is_header (Header n v) = True"
| "is_header _ = False"

fun is_status :: "sent \<Rightarrow> bool" where
  "is_status (Status n) = True"
| "is_status _ = False"

fun is_tail :: "sent \<Rightarrow> bool" where
  "is_tail (Body b) = True"
| "is_tail CloseConnection = True"
| "is_tail _ = False"

fun body_size :: "sent \<Rightarrow> int" where
  "body_size (Body b) = int (length b)"
| "body_size _ = 0"

definition body_bytes :: "sent list \<Rightarrow> int" where
  "body_bytes tr = sum_list (map body_size tr)"

definition status_count :: "sent list \<Rightarrow> nat" where
  "status_count tr = length (filter is_status tr)"

lemma trace_counts [simp]:
  "body_bytes [] = 0" "body_bytes (x # tr) = body_size x + body_bytes tr" "body_bytes (tr @ us) = body_bytes tr + body_bytes us"
  "status_count [] = 0" "status_count (x # tr) = (if is_status x then 1 else 0) + status_count tr"
  "status_count (tr @ us) = status_count tr + status_count us"
  by (simp_all add: body_bytes_def status_count_def)

text \<open>One status line, headers, their end, and a body.\<close>

definition one_answer :: "sent list \<Rightarrow> bool" where
  "one_answer tr \<longleftrightarrow> (\<exists>n hs bs. tr = Status n # hs @ EndHeaders # bs \<and> list_all is_header hs \<and> list_all is_tail bs)"

lemma one_answer_intro: "list_all is_header hs \<Longrightarrow> list_all is_tail bs \<Longrightarrow> one_answer (Status n # hs @ EndHeaders # bs)"
  unfolding one_answer_def by blast

lemma one_answer_status: "one_answer tr \<Longrightarrow> status_count tr = 1"
proof -
  have "list_all is_header hs \<Longrightarrow> status_count hs = 0" "list_all is_tail bs \<Longrightarrow> status_count bs = 0" for hs bs
    unfolding status_count_def by (auto simp: list_all_iff filter_empty_conv elim!: is_header.elims is_tail.elims)
  then show "one_answer tr \<Longrightarrow> status_count tr = 1" by (auto simp: one_answer_def)
qed

lemma headers_no_body: "list_all is_header hs \<Longrightarrow> body_bytes hs = 0"
  by (induction hs) (auto elim!: is_header.elims)

section \<open>Steps\<close>

lemma reliable [simp]: "client = (\<lambda>_. None) \<Longrightarrow> write_client client x s = (Inr (), s @ [x])"
  by (simp add: write_client_def)

lemma buffer_step [simp]: "buffer x s = (Inr (), s @ [x])"
  by (simp add: buffer_def)

lemma act_each_buffer: "act_each buffer xs s = (Inr (), s @ xs)"
  by (induction xs arbitrary: s) (simp_all add: act_then_step)

lemma snd_map_error [simp]: "snd (map_error f m s) = snd (m s)"
  by (simp add: map_error_def split: prod.split sum.split)

lemma act_catch_Inr: "m s = (Inr x, s') \<Longrightarrow> act_catch m h s = (Inr x, s')"
  by (simp add: act_catch_def)

lemma act_catch_Inl: "m s = (Inl e, s') \<Longrightarrow> act_catch m h s = h e s'"
  by (simp add: act_catch_def)

section \<open>What an operation adds\<close>

text \<open>An operation only adds to what was sent; \<open>adds P m\<close> says what it adds, also when it raises.\<close>

definition adds :: "(sent list \<Rightarrow> bool) \<Rightarrow> (sent list, 'a) act \<Rightarrow> bool" where
  "adds P m \<longleftrightarrow> (\<forall>s. \<exists>new. snd (m s) = s @ new \<and> P new)"

lemma addsI: "(\<And>s. \<exists>new. snd (m s) = s @ new \<and> P new) \<Longrightarrow> adds P m"
  by (simp add: adds_def)

lemma adds_bind:
  assumes "adds P m" "\<And>x. adds Q (f x)" "\<And>xs. P xs \<Longrightarrow> R xs" "\<And>xs ys. P xs \<Longrightarrow> Q ys \<Longrightarrow> R (xs @ ys)"
  shows "adds R (act_bind m f)"
proof (rule addsI)
  fix s
  obtain r s1 xs where m: "m s = (r, s1)" "s1 = s @ xs" "P xs"
    using assms(1) unfolding adds_def by (metis prod.collapse)
  show "\<exists>new. snd (act_bind m f s) = s @ new \<and> R new"
  proof (cases r)
    case (Inl e)
    then show ?thesis using m assms(3) by (simp add: act_bind_def)
  next
    case (Inr x)
    obtain ys where "snd (f x s1) = s1 @ ys" "Q ys" using assms(2) unfolding adds_def by blast
    then show ?thesis using m Inr assms(4) by (simp add: act_bind_def)
  qed
qed

lemma adds_then:
  assumes "adds P m" "adds Q k" "\<And>xs. P xs \<Longrightarrow> R xs" "\<And>xs ys. P xs \<Longrightarrow> Q ys \<Longrightarrow> R (xs @ ys)"
  shows "adds R (act_then m k)"
  unfolding act_then_def by (rule adds_bind[where P=P and Q=Q and R=R]) (use assms in auto)

lemma adds_mono: "adds P m \<Longrightarrow> (\<And>xs. P xs \<Longrightarrow> Q xs) \<Longrightarrow> adds Q m"
  unfolding adds_def by blast

lemma adds_simple:
  "P [x] \<Longrightarrow> adds P (buffer x)" "P [] \<Longrightarrow> adds P (act_return u)" "P [] \<Longrightarrow> adds P (act_raise e)" "P [] \<Longrightarrow> adds P (act_result r)"
  "P [] \<Longrightarrow> P [x] \<Longrightarrow> adds P (write_client client x)"
  by (auto simp: adds_def buffer_def write_client_def split: option.splits)

lemma adds_if: "(c \<Longrightarrow> adds P m) \<Longrightarrow> (\<not> c \<Longrightarrow> adds P k) \<Longrightarrow> adds P (if c then m else k)"
  by simp

lemma adds_map_error: "adds P m \<Longrightarrow> adds P (map_error f m)"
  by (simp add: adds_def)

text \<open>A property of traces that holds of nothing and of what is sent one after the other.\<close>

locale trace_property =
  fixes P :: "sent list \<Rightarrow> bool"
  assumes silent: "P []" and joined: "P us \<Longrightarrow> P ws \<Longrightarrow> P (us @ ws)"
begin

lemma bind_adds: "adds P m \<Longrightarrow> (\<And>x. adds P (f x)) \<Longrightarrow> adds P (act_bind m f)"
  by (rule adds_bind[where P=P and Q=P]) (auto intro: joined)

lemma then_adds: "adds P m \<Longrightarrow> adds P k \<Longrightarrow> adds P (act_then m k)"
  by (rule adds_then[where P=P and Q=P]) (auto intro: joined)

lemma quiet_adds: "adds P (act_return u)" "adds P (act_raise e)" "adds P (act_result r)"
  by (simp_all add: adds_simple silent)

lemma write_adds: "P [x] \<Longrightarrow> adds P (write_client client x)"
  by (rule adds_simple(5)[where P=P, OF silent])

lemma each_adds: "(\<And>x. x \<in> set xs \<Longrightarrow> adds P (f x)) \<Longrightarrow> adds P (act_each f xs)"
  by (induction xs) (auto intro: then_adds quiet_adds)

lemma catch_adds:
  assumes "adds P m" "\<And>e. adds P (h e)"
  shows "adds P (act_catch m h)"
proof (rule addsI)
  fix s
  obtain r s1 xs where m: "m s = (r, s1)" "s1 = s @ xs" "P xs"
    using assms(1) unfolding adds_def by (metis prod.collapse)
  show "\<exists>new. snd (act_catch m h s) = s @ new \<and> P new"
  proof (cases r)
    case (Inl e)
    obtain ys where "snd (h e s1) = s1 @ ys" "P ys" using assms(2) unfolding adds_def by blast
    then show ?thesis using m Inl joined by (simp add: act_catch_def)
  qed (use m in \<open>simp add: act_catch_def\<close>)
qed

end

end
