(* ===== verification/JsonPlain.thy ===== *)
theory JsonPlain
  imports PyJson
begin

text \<open>The JSON encoder as the gateway uses it for answers and tokens: compact, in ASCII, members in their order.\<close>

text \<open>\<open>json.dumps(v, separators=(",", ":"))\<close>, which escapes everything outside ASCII.\<close>

fun dumps_plain :: "(pyfloat \<Rightarrow> string) \<Rightarrow> json \<Rightarrow> string" where
  "dumps_plain fr JNull = ''null''"
| "dumps_plain fr (JBool b) = (if b then ''true'' else ''false'')"
| "dumps_plain fr (JInt i) = str_of_int i"
| "dumps_plain fr (JFloat f) = fr f"
| "dumps_plain fr (JStr s) = quote_str s"
| "dumps_plain fr (JArr xs) = ''['' @ join_str '','' (map (dumps_plain fr) xs) @ '']''"
| "dumps_plain fr (JObj d) =
     ''{'' @ join_str '','' (map (\<lambda>kv. quote_str (fst kv) @ '':'' @ dumps_plain fr (snd kv)) d) @ ''}''"

definition escape_ascii :: "string \<Rightarrow> string" where
  "escape_ascii s = concat (map (\<lambda>c. let n = ord_of c in
     if n < 127 then [c]
     else [CHR 0x5C, CHR ''u'', CHR ''0'', CHR ''0'', hex_digit (n div 16), hex_digit (n mod 16)]) s)"

definition dumps_compact :: "(pyfloat \<Rightarrow> string) \<Rightarrow> json \<Rightarrow> string" where
  "dumps_compact fr j = escape_ascii (dumps_plain fr j)"

end
