(* ===== verification/Relay.thy ===== *)
theory Relay
  imports Service HttpOut JsonPlain
begin

text \<open>
  The answers of the proxy's path: \<open>_forward_upstream\<close> and \<open>send_mcp_error\<close> of \<open>mcp_proxy.py\<close>, and
  \<open>_mcp\<close> and \<open>_json\<close> of \<open>service.py\<close> with what they write to the client, as a trace.
\<close>

section \<open>The two sides\<close>

text \<open>
  The reply of the upstream server: \<open>getheader\<close>, what successive reads of a chunk return, and the whole body.
\<close>

record upstream_reply =
  ur_status :: int
  ur_header :: "string \<Rightarrow> string option"
  ur_chunks :: "string result list"
  ur_body :: "string result"

text \<open>
  The parts of the upstream URL, the upstream server, the client, which may fail at a write given what was
  written, the name of an exception's class, and the text of a float.
\<close>

record relay_env =
  re_scheme :: string
  re_host :: string
  re_port :: "int option result"
  re_path :: string
  re_query :: string
  re_request :: "bool \<Rightarrow> string \<Rightarrow> int \<Rightarrow> string \<Rightarrow> string \<Rightarrow> string option \<Rightarrow> (string \<times> string) list \<Rightarrow> upstream_reply result"
  re_client :: "sent list \<Rightarrow> exn option"
  re_name :: "exn \<Rightarrow> string"
  re_float_repr :: "pyfloat \<Rightarrow> string"

abbreviation write_out :: "relay_env \<Rightarrow> sent \<Rightarrow> (sent list, unit) act" where
  "write_out re \<equiv> write_client (re_client re)"

definition json_answer :: "relay_env \<Rightarrow> int \<Rightarrow> json \<Rightarrow> (sent list, unit) act" where
  "json_answer re status v =
     (let raw = dumps_compact (re_float_repr re) v in
      act_then (buffer (Status status))
      (act_then (act_each buffer [Header ''Content-Type'' ''application/json'', Header ''Cache-Control'' ''no-store'',
         Header ''X-Content-Type-Options'' ''nosniff'', Header ''Content-Length'' (str_of_int (int (length raw)))])
      (act_then (write_out re EndHeaders) (write_out re (Body raw)))))"

definition send_mcp_error :: "relay_env \<Rightarrow> int \<Rightarrow> string \<Rightarrow> string \<Rightarrow> refusal_data \<Rightarrow> json \<Rightarrow> (sent list, unit) act" where
  "send_mcp_error re status code message details rid =
     json_answer re status (JObj [(''jsonrpc'', JStr ''2.0''), (''id'', rid),
       (''error'', JObj [(''code'', JInt (- 32001)), (''message'', JStr code), (''data'', JObj ((''detail'', JStr message) # map (\<lambda>(k, v). (k, case v of Some t \<Rightarrow> JStr t | None \<Rightarrow> JNull)) details))])])"

section \<open>Relaying the upstream's answer\<close>

definition max_mcp_response_bytes :: int where
  "max_mcp_response_bytes = 16 * 1024 * 1024"

definition copied_headers :: "string list" where
  "copied_headers = [''Mcp-Session-Id'', ''Mcp-Protocol-Version'', ''Cache-Control'']"

definition copy_header :: "upstream_reply \<Rightarrow> string \<Rightarrow> (sent list, unit) act" where
  "copy_header up name = (case ur_header up name of
     Some v \<Rightarrow> if v \<noteq> [] then buffer (Header name v) else act_return () | None \<Rightarrow> act_return ())"

definition content_type :: "upstream_reply \<Rightarrow> string" where
  "content_type up = (case ur_header up ''Content-Type'' of
     Some v \<Rightarrow> if v \<noteq> [] then v else ''application/octet-stream'' | None \<Rightarrow> ''application/octet-stream'')"

definition send_head :: "relay_env \<Rightarrow> upstream_reply \<Rightarrow> sent \<Rightarrow> (sent list, unit) act" where
  "send_head re up last_header =
     act_then (buffer (Status (ur_status up)))
     (act_then (buffer (Header ''Content-Type'' (content_type up)))
     (act_then (act_each (copy_header up) copied_headers)
     (act_then (buffer (Header ''X-Content-Type-Options'' ''nosniff''))
     (act_then (buffer last_header) (write_out re EndHeaders)))))"

fun stream_body :: "relay_env \<Rightarrow> int \<Rightarrow> string result list \<Rightarrow> (sent list, unit) act" where
  "stream_body re sofar [] = act_return ()"
| "stream_body re sofar (Inl e # chunks) = act_raise e"
| "stream_body re sofar (Inr chunk # chunks) =
     (if chunk = [] \<or> max_mcp_response_bytes < sofar + int (length chunk) then act_return ()
      else act_then (write_out re (Body chunk)) (stream_body re (sofar + int (length chunk)) chunks))"

definition is_stream :: "string \<Rightarrow> upstream_reply \<Rightarrow> bool" where
  "is_stream command up \<longleftrightarrow> command = ''GET'' \<or> starts_with ''text/event-stream'' (py_lower (content_type up))"

text \<open>\<open>response.read(n)\<close>.\<close>

definition read_up_to :: "int \<Rightarrow> string \<Rightarrow> string" where
  "read_up_to n s = (if int (length s) \<le> n then s else take (nat n) s)"

definition relay_answer :: "relay_env \<Rightarrow> string \<Rightarrow> upstream_reply \<Rightarrow> (sent list, unit) act" where
  "relay_answer re command up =
     (if is_stream command up then
        act_then (send_head re up (Header ''Connection'' ''close''))
        (act_then (stream_body re 0 (ur_chunks up)) (buffer CloseConnection))
      else act_bind (act_result (ur_body up)) (\<lambda>full.
        let raw = read_up_to (max_mcp_response_bytes + 1) full in
        if max_mcp_response_bytes < int (length raw)
        then act_raise (MCPProxyUnavailable ''upstream MCP response exceeded allowed size'')
        else act_then (send_head re up (Header ''Content-Length'' (str_of_int (int (length raw))))) (write_out re (Body raw))))"

text \<open>The exceptions that count as a failure of the connection: \<open>OSError\<close>, its subclasses, and those of \<open>http.client\<close>.\<close>

fun connection_error :: "exn \<Rightarrow> bool" where
  "connection_error (OSError m) = True"
| "connection_error (TimeoutError m) = True"
| "connection_error (FileNotFoundError m) = True"
| "connection_error (HTTPException m) = True"
| "connection_error e = False"

definition upstream_port :: "relay_env \<Rightarrow> int option \<Rightarrow> int" where
  "upstream_port re port = (case port of
     Some p \<Rightarrow> if p \<noteq> 0 then p else if re_scheme re = ''https'' then 443 else 80
   | None \<Rightarrow> if re_scheme re = ''https'' then 443 else 80)"

definition upstream_target :: "relay_env \<Rightarrow> string" where
  "upstream_target re =
     (let p = (if re_path re \<noteq> [] then re_path re else ''/'') in if re_query re \<noteq> [] then p @ ''?'' @ re_query re else p)"

definition forward_upstream :: "relay_env \<Rightarrow> string \<Rightarrow> string \<Rightarrow> (string \<times> string) list \<Rightarrow> string option \<Rightarrow> (sent list, unit) act" where
  "forward_upstream re token command incoming body =
     act_bind (act_result (re_port re)) (\<lambda>port.
     map_error (\<lambda>e. if connection_error e then MCPProxyUnavailable (''upstream MCP request failed: '' @ re_name re e) else e)
       (act_bind (act_result (re_request re (re_scheme re = ''https'') (re_host re) (upstream_port re port) command
           (upstream_target re) body (outgoing_headers token incoming body)))
         (relay_answer re command)))"

section \<open>The whole answer\<close>

text \<open>What \<open>_mcp\<close> sends for an exception, after whatever was sent before it.\<close>

definition answer_failure :: "relay_env \<Rightarrow> (string \<Rightarrow> json option) \<Rightarrow> string option \<Rightarrow> exn \<Rightarrow> (sent list, unit) act" where
  "answer_failure re loads body e =
     (case mcp_failure loads body e of
        Inr (McpError status code message details rid) \<Rightarrow> send_mcp_error re status code message details rid
      | Inr other \<Rightarrow> act_return ()
      | Inl e' \<Rightarrow> act_raise e')"

definition answer_permit :: "relay_env \<Rightarrow> (string \<Rightarrow> json option) \<Rightarrow> string \<Rightarrow> (string \<times> string) list \<Rightarrow> string option
    \<Rightarrow> permit result \<Rightarrow> (sent list, unit) act" where
  "answer_permit re loads command incoming body outcome = (\<lambda>s.
     case act_bind (act_result outcome) (\<lambda>p. forward_upstream re (pt_token (pm_token p)) command incoming body) s of
       (Inl e, s') \<Rightarrow> answer_failure re loads body e s'
     | (Inr _, s') \<Rightarrow> (Inr (), s'))"

definition answer_mcp :: "relay_env \<Rightarrow> gateway_env \<Rightarrow> gateway \<Rightarrow> 'b issuer \<Rightarrow> schedule \<Rightarrow> string \<Rightarrow> (string \<times> string) list
    \<Rightarrow> http_in \<Rightarrow> governance \<Rightarrow> 'b \<Rightarrow> (sent list, unit) act \<times> governance \<times> 'b" where
  "answer_mcp re xe gw issue sc command incoming rq g b =
     (case gw_proxy gw of
        None \<Rightarrow> (json_answer re 503 (error_json ''dynamic_execution_unconfigured''), g, b)
      | Some px \<Rightarrow>
          (case read_mcp_body (hi_read rq) command (hi_headers rq ''Content-Length'') of
             Inl e \<Rightarrow> (answer_failure re (xe_body xe) None e, g, b)
           | Inr body \<Rightarrow>
               (case proxy_permit (xe_float_repr xe) (xe_sha xe) (xe_body xe) issue px sc (hi_headers rq) body g b of
                  (outcome, g', b') \<Rightarrow> (answer_permit re (xe_body xe) command incoming body outcome, g', b'))))"

section \<open>What reaches the client\<close>

text \<open>Headers the client can receive from the proxy.\<close>

definition relayed_headers :: "string list" where
  "relayed_headers = copied_headers @ [''Content-Type'', ''X-Content-Type-Options'', ''Connection'', ''Content-Length'']"

definition head_ok :: "sent list \<Rightarrow> bool" where
  "head_ok tr \<longleftrightarrow> body_bytes tr = 0 \<and> status_count tr = 0 \<and> (\<forall>n v. Header n v \<in> set tr \<longrightarrow> n \<in> set relayed_headers)"

lemma head_ok_simple: "head_ok []" "head_ok [EndHeaders]" "head_ok [CloseConnection]" "head_ok [Header n v] \<longleftrightarrow> n \<in> set relayed_headers"
  by (auto simp: head_ok_def)

interpretation heads: trace_property head_ok
  by unfold_locales (auto simp: head_ok_def)

definition relay_ok :: "sent list \<Rightarrow> bool" where
  "relay_ok tr \<longleftrightarrow> body_bytes tr \<le> max_mcp_response_bytes \<and> status_count tr \<le> 1 \<and>
     (\<forall>n v. Header n v \<in> set tr \<longrightarrow> n \<in> set relayed_headers)"

definition body_ok :: "int \<Rightarrow> sent list \<Rightarrow> bool" where
  "body_ok sofar tr \<longleftrightarrow> sofar + body_bytes tr \<le> max_mcp_response_bytes \<and> status_count tr = 0 \<and> (\<forall>n v. Header n v \<notin> set tr)"

lemma adds_copy_header: "name \<in> set copied_headers \<Longrightarrow> adds head_ok (copy_header up name)"
  unfolding copy_header_def by (auto simp: head_ok_simple relayed_headers_def intro!: adds_simple split: option.splits)

lemma adds_send_head:
  assumes "head_ok [last_header]"
  shows "adds (\<lambda>tr. \<exists>n hs. tr = Status n # hs \<and> head_ok hs) (send_head re up last_header)"
proof -
  have rest: "adds head_ok (act_then (buffer (Header ''Content-Type'' (content_type up)))
     (act_then (act_each (copy_header up) copied_headers)
     (act_then (buffer (Header ''X-Content-Type-Options'' ''nosniff''))
     (act_then (buffer last_header) (write_out re EndHeaders)))))"
    using assms by (intro heads.then_adds heads.each_adds heads.write_adds adds_simple(1) adds_copy_header)
      (auto simp: head_ok_simple relayed_headers_def)
  have status: "adds (\<lambda>tr. tr = [Status (ur_status up)]) (buffer (Status (ur_status up)))" by (rule adds_simple) simp
  show ?thesis unfolding send_head_def by (rule adds_then[OF status rest]) (auto simp: head_ok_simple)
qed

lemma adds_stream: "sofar \<le> max_mcp_response_bytes \<Longrightarrow> adds (body_ok sofar) (stream_body re sofar chunks)"
proof (induction re sofar chunks rule: stream_body.induct)
  case (3 re sofar chunk chunks)
  show ?case
  proof (cases "chunk = [] \<or> max_mcp_response_bytes < sofar + int (length chunk)")
    case False
    then have "adds (body_ok (sofar + int (length chunk))) (stream_body re (sofar + int (length chunk)) chunks)"
      using 3 by simp
    moreover have "adds (\<lambda>tr. tr = [] \<or> tr = [Body chunk]) (write_out re (Body chunk))"
      by (rule adds_simple) simp_all
    ultimately have "adds (body_ok sofar) (act_then (write_out re (Body chunk)) (stream_body re (sofar + int (length chunk)) chunks))"
      using 3(2) False by (elim adds_then[rotated]) (auto simp: body_ok_def)
    moreover have "stream_body re sofar (Inr chunk # chunks) =
        act_then (write_out re (Body chunk)) (stream_body re (sofar + int (length chunk)) chunks)"
      unfolding stream_body.simps if_not_P[OF False] by (rule refl)
    ultimately show ?thesis by (simp only:)
  next
    case True
    then have "stream_body re sofar (Inr chunk # chunks) = act_return ()" unfolding stream_body.simps by (rule if_P)
    moreover have "adds (body_ok sofar) (act_return ())" using 3(2) by (intro adds_simple) (simp add: body_ok_def)
    ultimately show ?thesis by (simp only:)
  qed
next
  case (1 re sofar)
  then show ?case unfolding stream_body.simps by (intro adds_simple) (simp add: body_ok_def)
next
  case (2 re sofar e chunks)
  then show ?case unfolding stream_body.simps by (intro adds_simple) (simp add: body_ok_def)
qed

lemma head_relay: "head_ok hs \<Longrightarrow> relay_ok (Status n # hs)"
  by (auto simp: head_ok_def relay_ok_def max_mcp_response_bytes_def)

lemma relay_ok_Nil: "relay_ok []"
  by (simp add: relay_ok_def max_mcp_response_bytes_def)

lemma head_body_relay: "head_ok hs \<Longrightarrow> body_ok 0 bs \<Longrightarrow> relay_ok (Status n # hs @ bs)"
  by (auto simp: head_ok_def body_ok_def relay_ok_def)

lemma adds_stream_answer:
  "adds relay_ok (act_then (send_head re up (Header ''Connection'' ''close''))
     (act_then (stream_body re 0 chunks) (buffer CloseConnection)))"
proof -
  have head: "adds (\<lambda>tr. \<exists>n hs. tr = Status n # hs \<and> head_ok hs) (send_head re up (Header ''Connection'' ''close''))"
    by (rule adds_send_head) (simp add: head_ok_simple relayed_headers_def)
  have body: "adds (body_ok 0) (stream_body re 0 chunks)" by (rule adds_stream) (simp add: max_mcp_response_bytes_def)
  have close: "adds (\<lambda>tr. tr = [CloseConnection]) (buffer CloseConnection)" by (rule adds_simple) simp
  have "adds (body_ok 0) (act_then (stream_body re 0 chunks) (buffer CloseConnection))"
    by (rule adds_then[OF body close]) (auto simp: body_ok_def)
  then show ?thesis by (rule adds_then[OF head]) (auto simp: head_relay head_body_relay)
qed

lemma adds_whole_answer:
  assumes "int (length raw) \<le> max_mcp_response_bytes"
  shows "adds relay_ok (act_then (send_head re up (Header ''Content-Length'' len)) (write_out re (Body raw)))"
proof -
  have head: "adds (\<lambda>tr. \<exists>n hs. tr = Status n # hs \<and> head_ok hs) (send_head re up (Header ''Content-Length'' len))"
    by (rule adds_send_head) (simp add: head_ok_simple relayed_headers_def)
  have "adds (body_ok 0) (write_out re (Body raw))"
    by (rule adds_simple) (use assms in \<open>simp_all add: body_ok_def max_mcp_response_bytes_def\<close>)
  then show ?thesis by (rule adds_then[OF head]) (auto simp: head_relay head_body_relay)
qed

lemma adds_relay: "adds relay_ok (relay_answer re command up)"
proof (cases "is_stream command up")
  case True
  show ?thesis unfolding relay_answer_def if_P[OF True] by (rule adds_stream_answer)
next
  case False
  have "adds relay_ok (let raw = read_up_to (max_mcp_response_bytes + 1) full in
        if max_mcp_response_bytes < int (length raw)
        then act_raise (MCPProxyUnavailable ''upstream MCP response exceeded allowed size'')
        else act_then (send_head re up (Header ''Content-Length'' (str_of_int (int (length raw))))) (write_out re (Body raw)))" for full
    unfolding Let_def by (intro adds_if adds_simple(3) relay_ok_Nil adds_whole_answer) (simp only: not_less)
  moreover have "adds (\<lambda>tr. tr = []) (act_result (ur_body up))" by (rule adds_simple) simp
  ultimately show ?thesis unfolding relay_answer_def if_not_P[OF False]
    by (intro adds_bind[where P="\<lambda>tr. tr = []" and Q=relay_ok]) (auto simp: relay_ok_Nil)
qed

text \<open>
  (C32) What a forwarded request can send to the agent: at most one status line, at most 16 MiB of body, whatever the
  upstream server sends and however long it streams, and no header but the seven named; so no credential that travels
  in a header of the upstream server reaches the agent.
\<close>

theorem relay_bounded:
  "\<exists>new. snd (forward_upstream re token command incoming body s) = s @ new \<and>
     body_bytes new \<le> max_mcp_response_bytes \<and> status_count new \<le> 1 \<and>
     {n. \<exists>v. Header n v \<in> set new} \<subseteq> set relayed_headers"
proof -
  have "adds relay_ok (forward_upstream re token command incoming body)"
    unfolding forward_upstream_def
    by (intro adds_bind[where P="\<lambda>tr. tr = []" and Q=relay_ok] adds_map_error adds_relay adds_simple) (auto simp: relay_ok_Nil)
  then obtain new where "snd (forward_upstream re token command incoming body s) = s @ new" "relay_ok new"
    unfolding adds_def by blast
  then show ?thesis by (auto simp: relay_ok_def)
qed

section \<open>One answer for one request\<close>

lemma copy_header_step: "\<exists>hs. copy_header up name s = (Inr (), s @ hs) \<and> list_all is_header hs"
  by (auto simp: copy_header_def split: option.splits)

lemma copy_headers_step: "\<exists>hs. act_each (copy_header up) names s = (Inr (), s @ hs) \<and> list_all is_header hs"
proof (induction names arbitrary: s)
  case (Cons name names)
  obtain hs where hs: "copy_header up name s = (Inr (), s @ hs)" "list_all is_header hs" using copy_header_step by blast
  obtain gs where "act_each (copy_header up) names (s @ hs) = (Inr (), s @ hs @ gs)" "list_all is_header gs"
    using Cons[of "s @ hs"] by auto
  with hs show ?case by (auto simp: act_then_step)
qed simp

lemma send_head_step:
  assumes "re_client re = (\<lambda>_. None)" "is_header h"
  shows "\<exists>hs. send_head re up h s = (Inr (), s @ Status (ur_status up) # hs @ [EndHeaders]) \<and> list_all is_header hs \<and> h \<in> set hs"
proof -
  obtain hs where hs: "act_each (copy_header up) copied_headers (s @ [Status (ur_status up), Header ''Content-Type'' (content_type up)]) =
      (Inr (), (s @ [Status (ur_status up), Header ''Content-Type'' (content_type up)]) @ hs)" "list_all is_header hs"
    using copy_headers_step by blast
  then have "send_head re up h s = (Inr (), s @ Status (ur_status up) #
      (Header ''Content-Type'' (content_type up) # hs @ [Header ''X-Content-Type-Options'' ''nosniff'', h]) @ [EndHeaders])"
    using assms(1) by (simp add: send_head_def act_then_step)
  then show ?thesis using hs(2) assms(2)
    by (intro exI[of _ "Header ''Content-Type'' (content_type up) # hs @ [Header ''X-Content-Type-Options'' ''nosniff'', h]"]) simp
qed

lemma stream_body_step:
  "re_client re = (\<lambda>_. None) \<Longrightarrow> \<forall>c\<in>set chunks. \<not> isl c \<Longrightarrow>
     \<exists>bs. stream_body re sofar chunks s = (Inr (), s @ bs) \<and> list_all is_tail bs"
proof (induction re sofar chunks arbitrary: s rule: stream_body.induct)
  case (3 re sofar chunk chunks)
  show ?case
  proof (cases "chunk = [] \<or> max_mcp_response_bytes < sofar + int (length chunk)")
    case False
    obtain bs where bs: "stream_body re (sofar + int (length chunk)) chunks (s @ [Body chunk]) = (Inr (), (s @ [Body chunk]) @ bs)"
      "list_all is_tail bs" using 3(1)[OF False 3(2), of "s @ [Body chunk]"] 3(3) by auto
    have "stream_body re sofar (Inr chunk # chunks) s = (Inr (), s @ Body chunk # bs)"
      using False bs(1) 3(2) by (simp add: act_then_step)
    then show ?thesis using bs(2) by (intro exI[of _ "Body chunk # bs"]) simp
  next
    case True
    then show ?thesis by (intro exI[of _ "[]"]) auto
  qed
qed simp_all

lemma json_answer_step:
  assumes "re_client re = (\<lambda>_. None)"
  shows "\<exists>tr. json_answer re status v s = (Inr (), s @ tr) \<and> one_answer tr"
proof -
  define raw where "raw = dumps_compact (re_float_repr re) v"
  define hs where "hs = [Header ''Content-Type'' ''application/json'', Header ''Cache-Control'' ''no-store'',
    Header ''X-Content-Type-Options'' ''nosniff'', Header ''Content-Length'' (str_of_int (int (length raw)))]"
  have "json_answer re status v s = (Inr (), s @ Status status # hs @ [EndHeaders, Body raw])"
    unfolding json_answer_def Let_def raw_def[symmetric] hs_def[symmetric]
    using assms by (simp add: act_then_step act_each_buffer)
  moreover have "one_answer (Status status # hs @ [EndHeaders, Body raw])"
    by (rule one_answer_intro) (simp_all add: hs_def)
  ultimately show ?thesis by blast
qed

lemma relay_answer_once:
  assumes "re_client re = (\<lambda>_. None)" "is_stream command up \<Longrightarrow> \<forall>c\<in>set (ur_chunks up). \<not> isl c"
  shows "\<exists>tr. relay_answer re command up [] = (Inr (), tr) \<and> one_answer tr \<and>
      (\<not> is_stream command up \<longrightarrow> Header ''Content-Length'' (str_of_int (body_bytes tr)) \<in> set tr) \<or>
    (\<exists>e. relay_answer re command up [] = (Inl e, []))"
proof (cases "is_stream command up")
  case True
  obtain hs where hs: "send_head re up (Header ''Connection'' ''close'') [] = (Inr (), [] @ Status (ur_status up) # hs @ [EndHeaders])"
    "list_all is_header hs" using send_head_step[OF assms(1), of "Header ''Connection'' ''close''" up "[]"] by auto
  obtain bs where "stream_body re 0 (ur_chunks up) (Status (ur_status up) # hs @ [EndHeaders]) =
      (Inr (), (Status (ur_status up) # hs @ [EndHeaders]) @ bs)" "list_all is_tail bs"
    using stream_body_step[OF assms(1) assms(2)[OF True]] by blast
  with hs True show ?thesis by (simp add: relay_answer_def act_then_step one_answer_intro)
next
  case False
  show ?thesis
  proof (cases "ur_body up")
    case (Inr full)
    define raw where "raw = read_up_to (max_mcp_response_bytes + 1) full"
    obtain hs where hs: "send_head re up (Header ''Content-Length'' (str_of_int (int (length raw)))) [] =
        (Inr (), [] @ Status (ur_status up) # hs @ [EndHeaders])" "list_all is_header hs"
      "Header ''Content-Length'' (str_of_int (int (length raw))) \<in> set hs"
      using send_head_step[OF assms(1), of "Header ''Content-Length'' (str_of_int (int (length raw)))" up "[]"] by auto
    have "body_bytes hs = 0" using hs(2) by (rule headers_no_body)
    moreover have "relay_answer re command up [] =
        (if max_mcp_response_bytes < int (length raw)
         then (Inl (MCPProxyUnavailable ''upstream MCP response exceeded allowed size''), [])
         else (Inr (), Status (ur_status up) # hs @ [EndHeaders, Body raw]))"
      using False Inr hs(1) assms(1)
      by (simp add: relay_answer_def act_bind_def act_then_step Let_def raw_def[symmetric])
    moreover have "one_answer (Status (ur_status up) # hs @ [EndHeaders, Body raw])"
      using hs(2) by (intro one_answer_intro) simp_all
    ultimately show ?thesis using hs(3) by auto
  qed (use False in \<open>simp add: relay_answer_def act_bind_def\<close>)
qed

lemma answer_failure_step:
  assumes "re_client re = (\<lambda>_. None)"
  shows "\<exists>tr. answer_failure re loads body e s = (Inr (), s @ tr) \<and> one_answer tr \<or>
    answer_failure re loads body e s = (Inl e, s)"
  using json_answer_step[OF assms]
  by (cases e) (auto simp: answer_failure_def send_mcp_error_def)

definition stream_unbroken :: "relay_env \<Rightarrow> string \<Rightarrow> (string \<times> string) list \<Rightarrow> string option \<Rightarrow> string \<Rightarrow> bool" where
  "stream_unbroken re command incoming body token \<longleftrightarrow>
     (case re_port re of Inl e \<Rightarrow> True | Inr port \<Rightarrow>
        (case re_request re (re_scheme re = ''https'') (re_host re) (upstream_port re port) command (upstream_target re) body
            (outgoing_headers token incoming body) of
           Inl e \<Rightarrow> True
         | Inr up \<Rightarrow> is_stream command up \<longrightarrow> list_all (\<lambda>c. \<not> isl c) (ur_chunks up)))"

lemma forward_once:
  assumes "re_client re = (\<lambda>_. None)" "stream_unbroken re command incoming body token"
  shows "(\<exists>tr. forward_upstream re token command incoming body [] = (Inr (), tr) \<and> one_answer tr) \<or>
    (\<exists>e. forward_upstream re token command incoming body [] = (Inl e, []))"
proof (cases "re_port re")
  case (Inr port)
  show ?thesis
  proof (cases "re_request re (re_scheme re = ''https'') (re_host re) (upstream_port re port) command (upstream_target re) body
      (outgoing_headers token incoming body)")
    case (Inr up)
    have "is_stream command up \<Longrightarrow> \<forall>c\<in>set (ur_chunks up). \<not> isl c"
      using assms(2) Inr \<open>re_port re = Inr port\<close> by (simp add: stream_unbroken_def list_all_iff)
    from relay_answer_once[of re command up, OF assms(1) this]
    consider tr where "relay_answer re command up [] = (Inr (), tr)" "one_answer tr" | e where "relay_answer re command up [] = (Inl e, [])"
      by blast
    then show ?thesis
      by cases (simp_all add: forward_upstream_def act_bind_def map_error_def Inr \<open>re_port re = Inr port\<close>)
  qed (simp add: forward_upstream_def act_bind_def map_error_def Inr)
qed (simp add: forward_upstream_def act_bind_def)


text \<open>
  What \<open>handle_mcp\<close> says of a request, and the trace: a refusal is sent by \<open>send_mcp_error\<close>, after what a failed
  relay may have sent, a forwarded request is what \<open>forward_upstream\<close> sent, an exception is raised.
\<close>

definition relay_outcome :: "relay_env \<Rightarrow> string \<Rightarrow> (string \<times> string) list \<Rightarrow> permit \<Rightarrow> string option \<Rightarrow> exn option" where
  "relay_outcome re command incoming p body =
     (case fst (forward_upstream re (pt_token (pm_token p)) command incoming body []) of Inl e \<Rightarrow> Some e | Inr u \<Rightarrow> None)"

fun explains :: "relay_env \<Rightarrow> string \<Rightarrow> (string \<times> string) list \<Rightarrow> mcp_reply result \<Rightarrow> unit result \<times> sent list \<Rightarrow> bool" where
  "explains re command incoming (Inl e) out = (fst out = Inl e)"
| "explains re command incoming (Inr McpUnconfigured) out =
     (out = json_answer re 503 (error_json ''dynamic_execution_unconfigured'') [])"
| "explains re command incoming (Inr (McpError status code message details rid)) out =
     (\<exists>sent. out = send_mcp_error re status code message details rid sent \<and>
        (sent = [] \<or> (\<exists>token body e. forward_upstream re token command incoming body [] = (Inl e, sent))))"
| "explains re command incoming (Inr (McpForwarded p body)) out =
     (out = forward_upstream re (pt_token (pm_token p)) command incoming body [])"

lemma explains_failure:
  assumes "s = [] \<or> (\<exists>token body e. forward_upstream re token command incoming body [] = (Inl e, s))"
  shows "explains re command incoming (mcp_failure loads body e) (answer_failure re loads body e s)"
  using assms by (cases e) (auto simp: answer_failure_def)

lemma answer_decision:
  assumes "answer_mcp re xe gw issue sc command incoming rq g b = (answer, g1, b1)"
    and "handle_mcp xe gw issue (relay_outcome re command incoming) sc command rq g b = (r, g2, b2)"
  shows "g1 = g2 \<and> b1 = b2 \<and> explains re command incoming r (answer [])"
proof (cases "gw_proxy gw")
  case None
  then show ?thesis using assms by (auto simp: answer_mcp_def handle_mcp_def)
next
  case (Some px)
  show ?thesis
  proof (cases "read_mcp_body (hi_read rq) command (hi_headers rq ''Content-Length'')")
    case (Inl e)
    then show ?thesis using assms Some explains_failure[of "[]" re command incoming] by (auto simp: answer_mcp_def handle_mcp_def)
  next
    case (Inr body)
    obtain outcome g' b' where permit: "proxy_permit (xe_float_repr xe) (xe_sha xe) (xe_body xe) issue px sc (hi_headers rq) body g b =
        (outcome, g', b')" by (metis prod_cases3)
    have answer: "answer = answer_permit re (xe_body xe) command incoming body outcome" "g1 = g'" "b1 = b'"
      using assms(1) Some Inr permit by (auto simp: answer_mcp_def)
    show ?thesis
    proof (cases outcome)
      case (Inl e)
      then show ?thesis using answer assms(2) Some Inr permit explains_failure[of "[]" re command incoming]
        by (auto simp: handle_mcp_def answer_permit_def act_bind_def)
    next
      case (Inr p)
      obtain res sent where fw: "forward_upstream re (pt_token (pm_token p)) command incoming body [] = (res, sent)" by force
      show ?thesis
      proof (cases res)
        case (Inl e)
        then have "explains re command incoming (mcp_failure (xe_body xe) body e) (answer_failure re (xe_body xe) body e sent)"
          using fw by (intro explains_failure) auto
        then show ?thesis
          using answer assms(2) Some Inr Inl permit fw \<open>read_mcp_body _ _ _ = Inr body\<close>
          by (auto simp: handle_mcp_def answer_permit_def act_bind_def relay_outcome_def)
      next
        case (Inr u)
        then show ?thesis
          using answer assms(2) Some \<open>outcome = Inr p\<close> permit fw \<open>read_mcp_body _ _ _ = Inr body\<close>
          by (auto simp: handle_mcp_def answer_permit_def act_bind_def relay_outcome_def)
      qed
    qed
  qed
qed


section \<open>Examples\<close>

text \<open>An upstream server that answers a call at once, and one whose stream breaks after its first chunk.\<close>

definition reply_demo :: upstream_reply where
  "reply_demo = \<lparr>ur_status = 200, ur_header = [''Content-Type'' \<mapsto> ''application/json'', ''Set-Cookie'' \<mapsto> ''s=1''],
     ur_chunks = [], ur_body = Inr ''{}''\<rparr>"

definition broken_stream :: upstream_reply where
  "broken_stream = \<lparr>ur_status = 200, ur_header = [''Content-Type'' \<mapsto> ''text/event-stream''],
     ur_chunks = [Inr ''data'', Inl (OSError ''reset'')], ur_body = Inr []\<rparr>"

definition relay_demo :: "upstream_reply \<Rightarrow> relay_env" where
  "relay_demo up = \<lparr>re_scheme = ''https'', re_host = ''h'', re_port = Inr None, re_path = ''/mcp'', re_query = [],
     re_request = (\<lambda>tls host port command target body hs. if port = 443 then Inr up else Inl (OSError ''refused'')),
     re_client = (\<lambda>_. None), re_name = (\<lambda>_. ''OSError''), re_float_repr = (\<lambda>_. [])\<rparr>"

definition permit_demo :: permit where
  "permit_demo = \<lparr>pm_token = \<lparr>pt_token = ''t'', pt_expires_at = [], pt_fingerprint = [], pt_repository = [], pt_permissions = JNull\<rparr>,
     pm_grant_id = None, pm_source = ''DISCOVERY'', pm_context = None\<rparr>"


text \<open>
  When a stream breaks, the headers have gone out and so has a part of the body; the failure is then answered as if
  nothing had been sent: a second status line and an error object in the middle of the stream.
\<close>

lemma broken_stream_answered_twice:
  "status_count (snd (answer_permit (relay_demo broken_stream) (\<lambda>_. None) ''GET'' [] None (Inr permit_demo) [])) = 2"
proof -
  let ?re = "relay_demo broken_stream"
  have sent: "forward_upstream ?re (pt_token (pm_token permit_demo)) ''GET'' [] None [] =
      (Inl (MCPProxyUnavailable ''upstream MCP request failed: OSError''),
       [Status 200, Header ''Content-Type'' ''text/event-stream'', Header ''X-Content-Type-Options'' ''nosniff'',
        Header ''Connection'' ''close'', EndHeaders, Body ''data''])" (is "_ = (Inl ?e, ?sent)")
    by code_simp
  have client: "re_client ?re = (\<lambda>_. None)" by (simp add: relay_demo_def)
  have failed: "answer_failure ?re (\<lambda>_. None) None ?e = send_mcp_error ?re 503 ''provider_authority_unavailable''
      ''dynamic provider authority is temporarily unavailable'' [] (rpc_request_id (\<lambda>_. None) None)"
    by (simp add: answer_failure_def)
  obtain tr where "answer_failure ?re (\<lambda>_. None) None ?e ?sent = (Inr (), ?sent @ tr)" "one_answer tr"
    unfolding failed send_mcp_error_def using json_answer_step[OF client] by blast
  then show ?thesis using sent one_answer_status[of tr] by (simp add: answer_permit_def act_bind_def)
qed

text \<open>A port that is no number is not refused when the proxy is made, and leaves every request without an answer.\<close>

lemma bad_port_unanswered:
  "answer_permit (relay_demo reply_demo\<lparr>re_port := Inl (ValueError ''Port could not be cast to integer value'')\<rparr>) (\<lambda>_. None)
     ''POST'' [] (Some ''{}'') (Inr permit_demo) [] = (Inl (ValueError ''Port could not be cast to integer value''), [])"
  by code_simp

end
