(* ===== verification/AppJwt.thy ===== *)
theory AppJwt
  imports GithubApp JsonPlain
begin

text \<open>
  The signed token by which the broker of \<open>github_app.py\<close> introduces itself: \<open>_b64url\<close> and \<open>_app_jwt\<close>. The
  signature is made by \<open>openssl\<close>, a function of the signed text that may fail.
\<close>

section \<open>Base64 for URLs, without padding\<close>

definition url_alphabet :: string where
  "url_alphabet = ''ABCDEFGHIJKLMNOPQRSTUVWXYZabcdefghijklmnopqrstuvwxyz0123456789-_''"

definition symbol :: "nat \<Rightarrow> char" where
  "symbol n = url_alphabet ! n"

text \<open>Three bytes are four symbols of six bits; one or two bytes at the end are two or three.\<close>

fun b64url :: "string \<Rightarrow> string" where
  "b64url [] = []"
| "b64url [a] = [symbol (ord_of a div 4), symbol (ord_of a mod 4 * 16)]"
| "b64url [a, b] = [symbol (ord_of a div 4), symbol (ord_of a mod 4 * 16 + ord_of b div 16), symbol (ord_of b mod 16 * 4)]"
| "b64url (a # b # c # s) =
     symbol (ord_of a div 4) # symbol (ord_of a mod 4 * 16 + ord_of b div 16) #
     symbol (ord_of b mod 16 * 4 + ord_of c div 64) # symbol (ord_of c mod 64) # b64url s"

text \<open>The reader of the token: the number of a symbol, and the bytes.\<close>

definition sextet :: "char \<Rightarrow> nat" where
  "sextet c = length (takeWhile (\<lambda>d. d \<noteq> c) url_alphabet)"

fun b64url_decode :: "string \<Rightarrow> string option" where
  "b64url_decode [] = Some []"
| "b64url_decode [w] = None"
| "b64url_decode [w, x] = Some [char_of (sextet w * 4 + sextet x div 16)]"
| "b64url_decode [w, x, y] = Some [char_of (sextet w * 4 + sextet x div 16), char_of (sextet x mod 16 * 16 + sextet y div 4)]"
| "b64url_decode (w # x # y # z # s) =
     map_option (\<lambda>rest. char_of (sextet w * 4 + sextet x div 16) # char_of (sextet x mod 16 * 16 + sextet y div 4) #
       char_of (sextet y mod 4 * 64 + sextet z) # rest) (b64url_decode s)"

lemma url_alphabet_length: "length url_alphabet = 64"
  by code_simp

lemma sextet_symbol: "n < 64 \<Longrightarrow> sextet (symbol n) = n"
proof -
  have "list_all (\<lambda>n. sextet (symbol n) = n) [0..<64]" by code_simp
  then show "n < 64 \<Longrightarrow> sextet (symbol n) = n" by (simp add: list_all_iff)
qed

lemma symbol_in: "n < 64 \<Longrightarrow> symbol n \<in> set url_alphabet"
  unfolding symbol_def by (rule nth_mem) (simp add: url_alphabet_length)

lemma ord_of_byte: "ord_of c < 256"
  by (rule nat_of_char_less_256)

lemma digits_join:
  fixes x m k :: nat
  assumes "x < m"
  shows "(k * m + x) div m = k" "(k * m + x) mod m = x"
  using assms by auto

lemma byte_parts: "ord_of c div 4 < 64" "ord_of c div 16 < 16" "ord_of c div 64 < (4 :: nat)"
  using ord_of_byte[of c] by (simp_all add: less_mult_imp_div_less)

text \<open>The numbers of the symbols are below 64, and the bytes come back from them.\<close>

lemma sextets_small:
  "ord_of a div 4 < 64" "ord_of a mod 4 * 16 + ord_of b div 16 < 64" "ord_of b mod 16 * 4 + ord_of c div 64 < 64"
  "ord_of a mod 4 * 16 < 64" "ord_of b mod 16 * 4 < 64" "ord_of c mod 64 < (64 :: nat)"
proof -
  have "ord_of a mod 4 < 4" "ord_of b mod 16 < 16" by simp_all
  then show "ord_of a div 4 < 64" "ord_of a mod 4 * 16 + ord_of b div 16 < 64" "ord_of b mod 16 * 4 + ord_of c div 64 < 64"
    "ord_of a mod 4 * 16 < 64" "ord_of b mod 16 * 4 < 64" "ord_of c mod 64 < (64 :: nat)"
    using byte_parts(1)[of a] byte_parts(2)[of b] byte_parts(3)[of c] by linarith+
qed

lemma bytes_back:
  "char_of (ord_of a div 4 * 4 + (ord_of a mod 4 * 16 + ord_of b div 16) div 16) = a"
  "char_of ((ord_of a mod 4 * 16 + ord_of b div 16) mod 16 * 16 + (ord_of b mod 16 * 4 + ord_of c div 64) div 4) = b"
  "char_of ((ord_of b mod 16 * 4 + ord_of c div 64) mod 4 * 64 + ord_of c mod 64) = c"
  "char_of (ord_of a div 4 * 4 + ord_of a mod 4 * 16 div 16) = a"
  "char_of ((ord_of a mod 4 * 16 + ord_of b div 16) mod 16 * 16 + ord_of b mod 16 * 4 div 4) = b"
  using byte_parts
  by (simp_all only: digits_join div_mult_mod_eq char_of_char nonzero_mult_div_cancel_right)

lemma b64url_roundtrip: "b64url_decode (b64url s) = Some s"
proof (induction s rule: b64url.induct)
  case (2 a)
  then show ?case by (simp only: b64url.simps b64url_decode.simps sextet_symbol sextets_small bytes_back)
next
  case (3 a b)
  then show ?case by (simp only: b64url.simps b64url_decode.simps sextet_symbol sextets_small bytes_back)
next
  case (4 a b c s)
  then show ?case by (simp only: b64url.simps b64url_decode.simps sextet_symbol sextets_small bytes_back option.map)
qed simp

lemma b64url_symbols: "set (b64url s) \<subseteq> set url_alphabet"
  by (induction s rule: b64url.induct) (auto intro!: symbol_in sextets_small)

section \<open>The token\<close>

definition jwt_header :: json where
  "jwt_header = JObj [(''alg'', JStr ''RS256''), (''typ'', JStr ''JWT'')]"

definition jwt_claims :: "string \<Rightarrow> int \<Rightarrow> json" where
  "jwt_claims app_id now = JObj [(''iat'', JInt (now - 30)), (''exp'', JInt (now + 540)), (''iss'', JStr app_id)]"

text \<open>\<open>sign\<close> is the run of \<open>openssl\<close> with the private key; \<open>None\<close> is a failure to run it.\<close>

definition app_jwt :: "(pyfloat \<Rightarrow> string) \<Rightarrow> (string \<Rightarrow> string option) \<Rightarrow> string \<Rightarrow> rat \<Rightarrow> string result" where
  "app_jwt fr sign app_id clock =
     (let header = b64url (dumps_compact fr jwt_header);
          payload = b64url (dumps_compact fr (jwt_claims app_id \<lfloor>clock\<rfloor>));
          signed = header @ ''.'' @ payload in
      case sign signed of
        None \<Rightarrow> Inl (GitHubAppUnavailable ''failed to sign GitHub App JWT'')
      | Some signature \<Rightarrow> Inr (signed @ ''.'' @ b64url signature))"

text \<open>
  (C35) The token is one a reader takes apart again: three parts separated by points, the first two of which decode to
  the header and to the claims, issued half a minute ago and valid for nine minutes from now, and the third to the
  signature of the text before it; whatever the name of the app and the bytes of the signature are.
\<close>

theorem app_jwt_parts:
  assumes "app_jwt fr sign app_id clock = Inr token"
  shows "\<exists>header payload sig signature. split_char (CHR ''.'') token = [header, payload, sig] \<and>
    b64url_decode header = Some (dumps_compact fr jwt_header) \<and>
    b64url_decode payload = Some (dumps_compact fr
      (JObj [(''iat'', JInt (\<lfloor>clock\<rfloor> - 30)), (''exp'', JInt (\<lfloor>clock\<rfloor> + 540)), (''iss'', JStr app_id)])) \<and>
    sign (header @ ''.'' @ payload) = Some signature \<and> b64url_decode sig = Some signature"
proof -
  let ?h = "b64url (dumps_compact fr jwt_header)" and ?p = "b64url (dumps_compact fr (jwt_claims app_id \<lfloor>clock\<rfloor>))"
  obtain signature where sign: "sign (?h @ ''.'' @ ?p) = Some signature" and token: "token = (?h @ ''.'' @ ?p) @ ''.'' @ b64url signature"
    using assms by (auto simp: app_jwt_def Let_def split: option.splits)
  have "CHR ''.'' \<notin> set url_alphabet" by code_simp
  then have "CHR ''.'' \<notin> set (b64url s)" for s using b64url_symbols by blast
  then have "split_char (CHR ''.'') token = [?h, ?p, b64url signature]"
    unfolding token by (simp add: split_char_append split_char_no_sep)
  then show ?thesis using sign b64url_roundtrip by (auto simp: jwt_claims_def)
qed

lemma app_jwt_parts_witness:
  "\<exists>token header payload sig signature. app_jwt (\<lambda>_. []) (\<lambda>s. Some ''xyz'') ''12'' (7/2) = Inr token \<and>
    split_char (CHR ''.'') token = [header, payload, sig] \<and>
    b64url_decode payload = Some (dumps_compact (\<lambda>_. []) (JObj [(''iat'', JInt (- 27)), (''exp'', JInt 543), (''iss'', JStr ''12'')])) \<and>
    b64url_decode sig = Some signature"
proof -
  obtain token where token: "app_jwt (\<lambda>_. []) (\<lambda>s. Some ''xyz'') ''12'' (7/2) = Inr token" by (simp add: app_jwt_def Let_def)
  have "\<lfloor>7/2 :: rat\<rfloor> = 3" by (simp add: floor_eq_iff)
  with app_jwt_parts[OF token] token show ?thesis by auto
qed

end
