(* ===== verification/GatewaySetup.thy ===== *)
theory GatewaySetup
  imports Relay AppJwt
begin

text \<open>
  The gateway as it is configured: \<open>GitHubAppTokenBroker.from_environment\<close>, \<open>DynamicAuthorityProxy.from_environment\<close>
  with the bounds of its constructor, and the gateway built on them. Files, the parsing of a URL and of a float are
  parameters.
\<close>

record setup_env =
  se_environ :: "string \<rightharpoonup> string"
  se_is_file :: "string \<Rightarrow> bool"
  se_read :: "string \<Rightarrow> string option"
  se_float :: "string \<Rightarrow> pyfloat result"
  se_urlsplit :: "string \<Rightarrow> (string \<times> string option) result"

record proxy_setup =
  ps_proxy :: proxy
  ps_broker :: broker
  ps_ttl :: int
  ps_timeout :: pyfloat

definition env_or :: "setup_env \<Rightarrow> string \<Rightarrow> string \<Rightarrow> string" where
  "env_or se name fallback = (case se_environ se name of Some v \<Rightarrow> v | None \<Rightarrow> fallback)"

definition int_or_error :: "string \<Rightarrow> int result" where
  "int_or_error s = (case py_int s of Some i \<Rightarrow> Inr i | None \<Rightarrow> Inl (ValueError ''invalid literal for int() with base 10''))"

text \<open>The broker, and the time-out of its requests, which it takes as it is.\<close>

definition broker_from_environment :: "setup_env \<Rightarrow> (broker \<times> pyfloat) result" where
  "broker_from_environment se =
     result_bind (se_float se (env_or se ''CAPABILITY_PROVIDER_TIMEOUT_SECONDS'' ''10'')) (\<lambda>timeout.
     result_bind (int_or_error (env_or se ''CAPABILITY_PROVIDER_TOKEN_CACHE_SECONDS'' ''300'')) (\<lambda>cache.
     result_bind (broker_init (py_strip (env_or se ''GITHUB_APP_ID'' [])) (py_strip (env_or se ''GITHUB_APP_INSTALLATION_ID'' []))
       (se_is_file se (env_or se ''GITHUB_APP_PRIVATE_KEY_PATH'' ''/run/secrets/github-app-private-key.pem''))
       (env_or se ''GITHUB_API_BASE_URL'' ''https://api.github.com'') cache) (\<lambda>b. Inr (b, timeout))))"

text \<open>\<open>min\<close> and \<open>max\<close> keep their first argument unless the second is smaller, or larger: a NaN is kept or dropped by its place.\<close>

definition py_min_float :: "pyfloat \<Rightarrow> pyfloat \<Rightarrow> pyfloat" where
  "py_min_float x y = (if f_lt y x then y else x)"

definition py_max_float :: "pyfloat \<Rightarrow> pyfloat \<Rightarrow> pyfloat" where
  "py_max_float x y = (if f_lt x y then y else x)"

definition clamp_upstream_timeout :: "pyfloat \<Rightarrow> pyfloat" where
  "clamp_upstream_timeout t = py_max_float (Fin 5) (py_min_float t (Fin 600))"

definition proxy_from_environment :: "setup_env \<Rightarrow> risk_category \<Rightarrow> proxy_setup result" where
  "proxy_from_environment se max_auto =
     result_bind (broker_from_environment se) (\<lambda>(broker, _).
     result_bind (load_protected_patterns (se_read se
       (env_or se ''HERMETEAM_PROTECTED_PATHS_FILE'' ''/opt/hermeteam/policies/protected-paths.txt''))) (\<lambda>patterns.
     result_bind (int_or_error (env_or se ''CAPABILITY_EXECUTION_GRANT_TTL_SECONDS'' ''60'')) (\<lambda>ttl.
     result_bind (se_float se (env_or se ''CAPABILITY_UPSTREAM_TIMEOUT_SECONDS'' ''180'')) (\<lambda>timeout.
     result_bind (se_urlsplit se (py_strip (env_or se ''CAPABILITY_UPSTREAM_MCP_URL'' []))) (\<lambda>(scheme, host).
     let branch = py_strip (env_or se ''REPOSITORY_DEFAULT_BRANCH'' ''main'') in
     result_bind (proxy_init max_auto scheme host (py_strip (env_or se ''BUILDER_CAPABILITY_GATEWAY_KEY'' []))
       (py_strip (env_or se ''GITHUB_REPOSITORY_FULL_NAME'' [])) (if branch = [] then ''main'' else branch) patterns) (\<lambda>px.
     Inr \<lparr>ps_proxy = px, ps_broker = broker, ps_ttl = clamp_ttl ttl, ps_timeout = clamp_upstream_timeout timeout\<rparr>))))))"

definition gateway_from_environment :: "setup_env \<Rightarrow> gateway result" where
  "gateway_from_environment se =
     gateway_init (se_environ se) (\<lambda>max_auto. result_bind (proxy_from_environment se max_auto) (\<lambda>ps. Inr (ps_proxy ps)))"

section \<open>What a gateway that starts has\<close>

lemma clamp_upstream_range: "\<exists>q. clamp_upstream_timeout t = Fin q \<and> 5 \<le> q \<and> q \<le> 600"
  by (cases t) (auto simp: clamp_upstream_timeout_def py_max_float_def py_min_float_def)

lemma proxy_init_sound: "proxy_init m scheme host key repository branch patterns = Inr px \<Longrightarrow>
    px_max_auto px = m \<and> 24 \<le> length (px_builder_key px) \<and> CHR ''/'' \<in> set (px_repository px) \<and>
    px_default_branch px = branch \<and> px_patterns px = patterns \<and>
    (\<exists>h. host = Some h \<and> h \<noteq> [] \<and> (scheme = ''https'' \<or> scheme = ''http'' \<and> h \<in> {''127.0.0.1'', ''localhost'', ''::1''}))"
  by (auto simp: proxy_init_def Let_def split: if_splits option.splits)

lemma broker_sound: "broker_from_environment se = Inr (b, t) \<Longrightarrow> bk_app_id b \<noteq> [] \<and> bk_installation_id b \<noteq> [] \<and>
    0 \<le> bk_cache_seconds b \<and> bk_cache_seconds b \<le> 900"
  by (auto simp: broker_from_environment_def broker_init_def split: if_splits)

lemma clamp_ttl_range: "10 \<le> clamp_ttl t \<and> clamp_ttl t \<le> 900"
  by (simp add: clamp_ttl_def)

definition setup_ok :: "setup_env \<Rightarrow> proxy_setup \<Rightarrow> bool" where
  "setup_ok se ps \<longleftrightarrow>
     24 \<le> length (px_builder_key (ps_proxy ps)) \<and> CHR ''/'' \<in> set (px_repository (ps_proxy ps)) \<and>
     px_default_branch (ps_proxy ps) \<noteq> [] \<and> list_all (\<lambda>p. p \<noteq> [] \<and> \<not> starts_with ''#'' p) (px_patterns (ps_proxy ps)) \<and>
     bk_app_id (ps_broker ps) \<noteq> [] \<and> bk_installation_id (ps_broker ps) \<noteq> [] \<and>
     0 \<le> bk_cache_seconds (ps_broker ps) \<and> bk_cache_seconds (ps_broker ps) \<le> 900 \<and>
     10 \<le> ps_ttl ps \<and> ps_ttl ps \<le> 900 \<and> (\<exists>q. ps_timeout ps = Fin q \<and> 5 \<le> q \<and> q \<le> 600) \<and>
     (\<exists>scheme h. se_urlsplit se (py_strip (env_or se ''CAPABILITY_UPSTREAM_MCP_URL'' [])) = Inr (scheme, Some h) \<and> h \<noteq> [] \<and>
        (scheme = ''https'' \<or> scheme = ''http'' \<and> h \<in> {''127.0.0.1'', ''localhost'', ''::1''}))"

lemma proxy_setup_sound:
  assumes "proxy_from_environment se m = Inr ps"
  shows "setup_ok se ps \<and> px_max_auto (ps_proxy ps) = m \<and>
    (\<exists>ttl. int_or_error (env_or se ''CAPABILITY_EXECUTION_GRANT_TTL_SECONDS'' ''60'') = Inr ttl \<and> ps_ttl ps = clamp_ttl ttl)"
proof -
  obtain b bt patterns ttl t scheme host px where
    b: "broker_from_environment se = Inr (b, bt)"
    and patterns: "load_protected_patterns (se_read se
       (env_or se ''HERMETEAM_PROTECTED_PATHS_FILE'' ''/opt/hermeteam/policies/protected-paths.txt'')) = Inr patterns"
    and ttl: "int_or_error (env_or se ''CAPABILITY_EXECUTION_GRANT_TTL_SECONDS'' ''60'') = Inr ttl"
    and url: "se_urlsplit se (py_strip (env_or se ''CAPABILITY_UPSTREAM_MCP_URL'' [])) = Inr (scheme, host)"
    and px: "proxy_init m scheme host (py_strip (env_or se ''BUILDER_CAPABILITY_GATEWAY_KEY'' []))
       (py_strip (env_or se ''GITHUB_REPOSITORY_FULL_NAME'' []))
       (if py_strip (env_or se ''REPOSITORY_DEFAULT_BRANCH'' ''main'') = [] then ''main''
        else py_strip (env_or se ''REPOSITORY_DEFAULT_BRANCH'' ''main'')) patterns = Inr px"
    and ps: "ps = \<lparr>ps_proxy = px, ps_broker = b, ps_ttl = clamp_ttl ttl, ps_timeout = clamp_upstream_timeout t\<rparr>"
    using assms unfolding proxy_from_environment_def Let_def by auto
  have "list_all (\<lambda>p. p \<noteq> [] \<and> \<not> starts_with ''#'' p) patterns"
    using patterns by (auto simp: load_protected_patterns_def list_all_iff split: option.splits)
  moreover have "px_default_branch px \<noteq> []" using proxy_init_sound[OF px] by auto
  ultimately show ?thesis
    using proxy_init_sound[OF px] broker_sound[OF b] clamp_ttl_range[of ttl] clamp_upstream_range[of t] url ttl
    unfolding setup_ok_def ps by auto
qed

text \<open>
  (C36) A gateway that starts is configured within its bounds: the operator's key has 24 characters, the lifetime of a grant
  is between 10 and 900 seconds, and in the dynamic mode there is a proxy, with the same ceiling and the same
  lifetime, a builder's key of 24 characters, a broker, a time-out between 5 and 600 seconds even if the setting is not
  a number, an upstream server that is reached over TLS or on the same host, and a default branch; in the
  other mode there is none.
\<close>

theorem gateway_config_sound:
  assumes "gateway_from_environment se = Inr gw"
  shows "24 \<le> length (gw_admin_key gw) \<and> 10 \<le> gw_ttl gw \<and> gw_ttl gw \<le> 900 \<and>
    (gw_mode gw = ''dynamic'' \<and> (\<exists>ps. proxy_from_environment se (gw_max_auto gw) = Inr ps \<and> setup_ok se ps \<and>
       gw_proxy gw = Some (ps_proxy ps) \<and> px_max_auto (ps_proxy ps) = gw_max_auto gw \<and> ps_ttl ps = gw_ttl gw) \<or>
     gw_mode gw = ''resolver'' \<and> gw_proxy gw = None)"
proof -
  obtain ttl px where gw: "24 \<le> length (gw_admin_key gw)" "gw_ttl gw = clamp_ttl ttl" "gw_mode gw \<in> {''resolver'', ''dynamic''}"
    and ttl: "int_or_error (env_or se ''CAPABILITY_EXECUTION_GRANT_TTL_SECONDS'' ''60'') = Inr ttl" and px: "gw_proxy gw = px"
    and made: "(if gw_mode gw = ''dynamic'' then result_bind (result_bind (proxy_from_environment se (gw_max_auto gw)) (\<lambda>ps. Inr (ps_proxy ps)))
        (\<lambda>px. Inr (Some px)) else Inr None) = Inr px"
    using assms unfolding gateway_from_environment_def gateway_init_def Let_def int_or_error_def env_or_def
    by (cases "py_int (case se_environ se ''CAPABILITY_EXECUTION_GRANT_TTL_SECONDS'' of Some v \<Rightarrow> v | None \<Rightarrow> ''60'')")
      (auto split: if_split_asm)
  show ?thesis
  proof (cases "gw_mode gw = ''dynamic''")
    case True
    then obtain ps where ps: "proxy_from_environment se (gw_max_auto gw) = Inr ps" "px = Some (ps_proxy ps)" using made by auto
    have "ps_ttl ps = gw_ttl gw" using proxy_setup_sound[OF ps(1)] ttl gw(2) by auto
    then show ?thesis using True gw clamp_ttl_range[of ttl] px ps proxy_setup_sound[OF ps(1)] by simp
  next
    case False
    then show ?thesis using made gw clamp_ttl_range[of ttl] px by simp
  qed
qed

text \<open>A configuration that starts: a time-out that is not a number becomes the smallest.\<close>

definition setup_demo :: setup_env where
  "setup_demo = \<lparr>se_environ = [''CAPABILITY_ADMIN_KEY'' \<mapsto> ''012345678901234567890123'', ''CAPABILITY_EXECUTION_MODE'' \<mapsto> ''dynamic'',
       ''BUILDER_CAPABILITY_GATEWAY_KEY'' \<mapsto> ''abcdefghijklmnopqrstuvwx'', ''GITHUB_REPOSITORY_FULL_NAME'' \<mapsto> ''o/r'',
       ''GITHUB_APP_ID'' \<mapsto> ''1'', ''GITHUB_APP_INSTALLATION_ID'' \<mapsto> ''2'', ''CAPABILITY_UPSTREAM_MCP_URL'' \<mapsto> ''https://h/mcp'',
       ''CAPABILITY_JUDGE_BASE_URL'' \<mapsto> ''https://j'', ''CAPABILITY_JUDGE_API_KEY'' \<mapsto> ''k'', ''CAPABILITY_JUDGE_MODEL'' \<mapsto> ''m''],
     se_is_file = (\<lambda>_. True), se_read = (\<lambda>_. Some ''.github/**''), se_float = (\<lambda>_. Inr NaN),
     se_urlsplit = (\<lambda>_. Inr (''https'', Some ''h''))\<rparr>"

lemma setup_demo_timeout: "map_sum (\<lambda>_. ()) ps_timeout (proxy_from_environment setup_demo MEDIUM) = Inr (Fin 5)"
  by code_simp

lemma gateway_config_sound_witness:
  "\<exists>gw. gateway_from_environment setup_demo = Inr gw \<and> gw_mode gw = ''dynamic'' \<and> 10 \<le> gw_ttl gw \<and> gw_ttl gw \<le> 900"
proof -
  have run: "case gateway_from_environment setup_demo of Inr gw \<Rightarrow> gw_mode gw = ''dynamic'' | Inl e \<Rightarrow> False" by code_simp
  then obtain gw where gw: "gateway_from_environment setup_demo = Inr gw" "gw_mode gw = ''dynamic''" by (auto split: sum.splits)
  with gateway_config_sound[OF gw(1)] show ?thesis by auto
qed

end
