(* ===== verification/Commands.thy ===== *)
theory Commands
  imports Tick
begin

text \<open>
  The commands of \<open>cli.py\<close> as the operator sees them: what each prints, with which exit code. The parsed command line is a
  \<open>command\<close>; the configuration is read before anything else.
\<close>

datatype command = RunOnce | ReconcileOnly | StatusReport | Requeue "string option" "string list" "int option" bool

section \<open>What is printed\<close>

definition summary_json :: "recon_summary \<Rightarrow> json" where
  "summary_json s = JObj (map (\<lambda>(k, n). (k, JInt (int n)))
     [(''active'', rs_active s), (''completed'', rs_completed s), (''failed'', rs_failed s), (''cancelled'', rs_cancelled s),
      (''timeout'', rs_timeout s), (''invalid_output'', rs_invalid_output s), (''lost'', rs_lost s), (''requeued'', rs_requeued s),
      (''blocked_config'', rs_blocked_config s), (''failed_final'', rs_failed_final s),
      (''repaired_output'', rs_repaired_output s), (''repair_failed'', rs_repair_failed s),
      (''model_repair_attempted'', rs_model_repair_attempted s)])"

definition counts_json :: "(string \<times> nat) list \<Rightarrow> json" where
  "counts_json cs = JObj (map (\<lambda>(k, n). (k, JInt (int n))) cs)"

fun tick_json :: "config \<Rightarrow> tick_result \<Rightarrow> pydict" where
  "tick_json cf (NoOp reason) = [(''status'', JStr ''NO_OP''), (''reason'', JStr reason), (''role'', JStr (cf_role cf))]"
| "tick_json cf (Ticked r) =
     [(''status'', JStr ''OK''), (''role'', JStr (cf_role cf)), (''provider'', JStr (cf_provider cf)),
      (''fetched'', JInt (int (tk_fetched r))), (''matched'', JInt (int (tk_matched r))),
      (''created_assignments'', JInt (int (tk_created r))), (''started_runs'', JInt (int (length (tk_started r)))),
      (''reconciliation'', summary_json (tk_summary r))]"

definition status_json :: "status_report \<Rightarrow> pydict" where
  "status_json r = (case sp_queue r of (ready, delayed, active) \<Rightarrow>
     [(''status'', JStr ''OK''), (''role'', JStr (sp_role r)), (''enabled'', JBool (sp_enabled r)),
      (''apply_transitions'', JBool (sp_apply_transitions r)), (''transition_comment_only'', JBool (sp_transition_comment_only r)),
      (''counts'', counts_json (sp_counts r)), (''assignment_statuses'', counts_json (sp_assignment_statuses r)),
      (''run_statuses'', counts_json (sp_run_statuses r)),
      (''queue'', counts_json [(''pending_due'', ready), (''pending_delayed'', delayed), (''active'', active)])])"

definition nullable_json :: "string option \<Rightarrow> json" where
  "nullable_json v = (case v of Some s \<Rightarrow> JStr s | None \<Rightarrow> JNull)"

definition assignment_json :: "assignment_row \<Rightarrow> json" where
  "assignment_json a = JObj [(''assignment_key'', JStr (sg_key a)), (''role'', JStr (sg_role a)), (''status'', JStr (sg_status a)),
     (''attempt_count'', JInt (int (sg_attempt_count a))), (''blocked_reason'', nullable_json (sg_blocked_reason a)),
     (''last_error_code'', nullable_json (sg_last_error_code a))]"

fun requeue_json :: "nat \<Rightarrow> assignment_row list + nat \<Rightarrow> pydict" where
  "requeue_json matched (Inl rows) = [(''status'', JStr ''OK''), (''matched'', JInt (int matched)), (''requeued'', JInt 0),
     (''dry_run'', JBool True), (''assignments'', JArr (map assignment_json rows))]"
| "requeue_json matched (Inr requeued) = [(''status'', JStr ''OK''), (''matched'', JInt (int matched)),
     (''requeued'', JInt (int requeued)), (''dry_run'', JBool False)]"

section \<open>Running a command\<close>

fun execute :: "tick_env \<Rightarrow> config \<Rightarrow> bool \<Rightarrow> db_schema \<Rightarrow> command \<Rightarrow> orch_db \<Rightarrow> (pydict \<times> orch_db) result" where
  "execute env cf lock_acquired sch RunOnce db =
     result_bind (run_once env cf lock_acquired sch db) (\<lambda>(r, db'). Inr (tick_json cf r, db'))"
| "execute env cf lock_acquired sch ReconcileOnly db =
     result_bind (reconcile_only env cf sch db) (\<lambda>(s, effects, db').
       Inr ([(''status'', JStr ''OK''), (''reconciliation'', summary_json s)], db'))"
| "execute env cf lock_acquired sch StatusReport db =
     result_bind (status_command (tv_now env) cf sch db) (\<lambda>(r, db'). Inr (status_json r, db'))"
| "execute env cf lock_acquired sch (Requeue key statuses limit dry_run) db =
     result_bind (requeue_command (tv_now env) cf key statuses limit dry_run sch db) (\<lambda>(matched, out, db').
       Inr (requeue_json matched out, db'))"

definition error_output :: "exn \<Rightarrow> pydict" where
  "error_output e = [(''status'', JStr ''ERROR''), (''error'', JStr (exn_text e))]"

fun config_failure :: "exn \<Rightarrow> bool" where
  "config_failure (ConfigError m) = True"
| "config_failure e = False"

text \<open>\<open>main\<close>: the object printed, the exit code and the database left; a transaction that raises leaves none of its changes.\<close>

definition cli_main :: "tick_env \<Rightarrow> config result \<Rightarrow> bool \<Rightarrow> db_schema \<Rightarrow> command \<Rightarrow> orch_db \<Rightarrow> pydict \<times> int \<times> orch_db" where
  "cli_main env configured lock_acquired sch cmd db =
     (case result_bind configured (\<lambda>cf. execute env cf lock_acquired sch cmd db) of
        Inr (d, db') \<Rightarrow> (d, 0, db')
      | Inl e \<Rightarrow> (error_output e, if config_failure e then 2 else 1, db))"

definition printed :: "(pyfloat \<Rightarrow> string) \<Rightarrow> pydict \<Rightarrow> string" where
  "printed fr d = dumps_spaced fr (JObj d)"

section \<open>Exit codes\<close>

lemma status_of_outputs:
  "dict_get (tick_json cf r) ''status'' \<in> {JStr ''OK'', JStr ''NO_OP''}" "dict_get (status_json rep) ''status'' = JStr ''OK''"
  "dict_get (requeue_json n out) ''status'' = JStr ''OK''"
proof -
  show "dict_get (tick_json cf r) ''status'' \<in> {JStr ''OK'', JStr ''NO_OP''}" by (cases r) simp_all
  show "dict_get (status_json rep) ''status'' = JStr ''OK''" by (cases "sp_queue rep") (simp add: status_json_def)
  show "dict_get (requeue_json n out) ''status'' = JStr ''OK''" by (cases out) simp_all
qed

lemma execute_status: "execute env cf lock sch cmd db = Inr (d, db') \<Longrightarrow> dict_get d ''status'' \<in> {JStr ''OK'', JStr ''NO_OP''}"
  using status_of_outputs by (cases cmd) (auto split: prod.splits)

text \<open>
  The exit code tells what the output tells: 0 with the status \<open>OK\<close> or \<open>NO_OP\<close>, and otherwise the status
  \<open>ERROR\<close>, nothing changed in the database, and 2 exactly for an error of the configuration.
\<close>

theorem exit_codes:
  "case cli_main env configured lock_acquired sch cmd db of (d, code, db') \<Rightarrow>
     code \<in> {0, 1, 2} \<and> (code = 0 \<longleftrightarrow> dict_get d ''status'' \<in> {JStr ''OK'', JStr ''NO_OP''}) \<and>
     (code = 0 \<or> dict_get d ''status'' = JStr ''ERROR'' \<and> db' = db) \<and>
     (code = 2 \<longleftrightarrow> (\<exists>m. result_bind configured (\<lambda>cf. execute env cf lock_acquired sch cmd db) = Inl (ConfigError m)))"
proof (cases "result_bind configured (\<lambda>cf. execute env cf lock_acquired sch cmd db)")
  case (Inl e)
  then show ?thesis by (cases e) (simp_all add: cli_main_def error_output_def)
next
  case (Inr x)
  then obtain d db' cf where "x = (d, db')" "execute env cf lock_acquired sch cmd db = Inr (d, db')" by (cases x) auto
  then show ?thesis using execute_status[of env cf lock_acquired sch cmd db d db'] unfolding cli_main_def Inr by simp
qed

section \<open>Requeueing\<close>

definition requeued_row :: "int \<Rightarrow> assignment_row \<Rightarrow> assignment_row" where
  "requeued_row now a = a\<lparr>sg_status := ''PENDING'', sg_next_retry_at := None, sg_blocked_reason := None,
     sg_last_error_code := None, sg_updated_at := now\<rparr>"

lemma requeued_row_key [simp]: "sg_key (requeued_row now a) = sg_key a" "requeued_row now (requeued_row now a) = requeued_row now a"
  by (simp_all add: requeued_row_def)

lemma requeue_rows:
  "od_assignments (fold (\<lambda>row. update_assignment (sg_key row) (requeued_row now)) rows db) =
     map (\<lambda>a. if sg_key a \<in> sg_key ` set rows then requeued_row now a else a) (od_assignments db)"
proof (induction rows arbitrary: db)
  case (Cons row rows)
  show ?case unfolding fold_Cons comp_def Cons.IH by (simp add: update_assignment_def update_where_def)
qed simp

lemma requeue_others:
  "(fold (\<lambda>row. update_assignment (sg_key row) f) rows db)\<lparr>od_assignments := xs\<rparr> = db\<lparr>od_assignments := xs\<rparr>"
  by (induction rows arbitrary: db) (simp_all add: update_assignment_def)

lemma matching_in: "set (matching_requeue_assignments role sts key limit db) \<subseteq> set (od_assignments db)"
  by (auto simp: matching_requeue_assignments_def limit_rows_def dest: in_set_takeD split: option.splits if_splits)


definition failed_row :: assignment_row where
  "failed_row = \<lparr>sg_key = ''k'', sg_work_item_id = 1, sg_role = ''planner'', sg_status = ''LOST'', sg_attempt_count = 2,
     sg_next_retry_at = Some 9, sg_blocked_reason = Some ''r'', sg_last_error_code = Some ''e'', sg_created_at = 1, sg_updated_at = 3\<rparr>"

definition failed_db :: orch_db where
  "failed_db = empty_orch_db\<lparr>od_assignments := [failed_row, failed_row\<lparr>sg_key := ''l'', sg_status := ''COMPLETED''\<rparr>]\<rparr>"


end
