(* ===== verification/StatusWire.thy ===== *)
theory StatusWire
  imports StatusServer HttpOut
begin

text \<open>
  The status server on the wire: \<open>_send_json\<close> and \<open>_send_status_snapshot\<close> of \<open>status_server.py\<close> with everything they
  write, also when the client fails, and the life of the server.
\<close>

section \<open>Answers\<close>

text \<open>\<open>date\<close> is the text of the date; \<open>send_response\<close> of the handler leaves out the server's banner.\<close>

definition fixed_headers :: "(string \<times> string) list" where
  "fixed_headers = [(''Cache-Control'', ''no-store''), (''Pragma'', ''no-cache''), (''X-Content-Type-Options'', ''nosniff''),
     (''X-Frame-Options'', ''DENY''), (''Referrer-Policy'', ''no-referrer''),
     (''Content-Security-Policy'', ''default-src '' @ [CHR 0x27] @ ''none'' @ [CHR 0x27] @ ''; base-uri '' @ [CHR 0x27] @ ''none'' @
        [CHR 0x27] @ ''; frame-ancestors '' @ [CHR 0x27] @ ''none'' @ [CHR 0x27]),
     (''Connection'', ''close'')]"

definition optional_header :: "string \<Rightarrow> string option \<Rightarrow> sent list" where
  "optional_header name v = (case v of Some t \<Rightarrow> [Header name t] | None \<Rightarrow> [])"

definition status_headers :: "string \<Rightarrow> status_answer \<Rightarrow> sent list" where
  "status_headers date r =
     map (\<lambda>(n, v). Header n v)
       ([(''Date'', date), (''Content-Type'', ''application/json; charset=utf-8''),
         (''Content-Length'', str_of_int (utf8_size (st_body r)))] @ fixed_headers) @
     optional_header ''Allow'' (st_allow r) @
     optional_header ''Retry-After'' (map_option str_of_int (st_retry_after r))"

definition utf8_encode :: "string \<Rightarrow> string" where
  "utf8_encode s = concat (map (\<lambda>c. map char_of (utf8_bytes c)) s)"

definition send_answer :: "(sent list \<Rightarrow> exn option) \<Rightarrow> string \<Rightarrow> status_answer \<Rightarrow> (sent list, unit) act" where
  "send_answer client date r =
     act_then (buffer (Status (st_status r)))
     (act_then (act_each buffer (status_headers date r))
     (act_then (write_client client EndHeaders)
     (act_then (write_client client (Body (utf8_encode (st_body r)))) (buffer CloseConnection))))"

text \<open>Every exception is caught, one of the client too, after which another answer is tried.\<close>

definition snapshot_failure :: "(pyfloat \<Rightarrow> string) \<Rightarrow> exn \<Rightarrow> status_answer" where
  "snapshot_failure fr e = send_status_snapshot fr (Inl e)"

definition send_snapshot_answer :: "(sent list \<Rightarrow> exn option) \<Rightarrow> string \<Rightarrow> (pyfloat \<Rightarrow> string) \<Rightarrow> pydict result \<Rightarrow> (sent list, unit) act" where
  "send_snapshot_answer client date fr snapshot =
     act_catch (act_bind (act_result snapshot) (\<lambda>payload. send_answer client date (send_json fr 200 (JObj payload) None None)))
       (\<lambda>e. send_answer client date (snapshot_failure fr e))"

definition handle_status :: "(sent list \<Rightarrow> exn option) \<Rightarrow> string \<Rightarrow> (pyfloat \<Rightarrow> string) \<Rightarrow> snapshot_env \<Rightarrow> config \<Rightarrow> string \<Rightarrow> string
    \<Rightarrow> int \<times> orch_db \<Rightarrow> int \<times> orch_db \<Rightarrow> (sent list, unit) act" where
  "handle_status client date fr se cf command path at_counters at_items =
     (if command = ''GET'' \<and> path = ''/status''
      then send_snapshot_answer client date fr (read_role_status_snapshot se cf max_queue_items at_counters at_items)
      else send_answer client date (status_reply fr se cf command path at_counters at_items))"

section \<open>The life of the server\<close>

datatype server_event = Opened string int | Closed

text \<open>\<open>listen\<close> opens the socket and \<open>run\<close> is the outcome of \<open>serve_forever\<close>; \<open>finally\<close> closes what was opened.\<close>

definition serve_status :: "(string \<Rightarrow> bool) \<Rightarrow> (string \<Rightarrow> int \<Rightarrow> unit result) \<Rightarrow> unit result \<Rightarrow> config \<Rightarrow> status_server_config
    \<Rightarrow> (server_event list, unit) act" where
  "serve_status is_ip listen run cf network = (\<lambda>s.
     case result_bind (validate_startup is_ip cf network) (\<lambda>_. listen (ss_bind network) (ss_port network)) of
       Inl e \<Rightarrow> (Inl e, s)
     | Inr _ \<Rightarrow> (run, s @ [Opened (ss_bind network) (ss_port network), Closed]))"

definition status_process :: "(string \<Rightarrow> bool) \<Rightarrow> (string \<Rightarrow> int \<Rightarrow> unit result) \<Rightarrow> unit result \<Rightarrow> config result
    \<Rightarrow> status_server_config result \<Rightarrow> (server_event list, int) act" where
  "status_process is_ip listen run cf network =
     act_catch
       (act_bind (act_result cf) (\<lambda>c. act_bind (act_result network) (\<lambda>n.
         act_then (serve_status is_ip listen run c n) (act_return 0))))
       (\<lambda>e. case e of ConfigError m \<Rightarrow> act_return 2 | _ \<Rightarrow> act_raise e)"

section \<open>Facts\<close>

lemma utf8_encode_length: "int (length (utf8_encode s)) = utf8_size s"
  by (induction s) (simp_all add: utf8_encode_def utf8_size_def)

lemma status_headers_headers: "list_all is_header (status_headers date r)"
  by (auto simp: status_headers_def optional_header_def list_all_iff split: option.split)

lemma send_answer_step:
  "send_answer (\<lambda>_. None) date r s =
     (Inr (), s @ Status (st_status r) # status_headers date r @ [EndHeaders, Body (utf8_encode (st_body r)), CloseConnection])"
  by (simp add: send_answer_def act_then_step act_each_buffer)

lemma send_snapshot_answer_step:
  "send_snapshot_answer (\<lambda>_. None) date fr snapshot s = send_answer (\<lambda>_. None) date (send_status_snapshot fr snapshot) s"
proof (cases snapshot)
  case (Inl e)
  then show ?thesis by (simp add: send_snapshot_answer_def act_catch_def act_bind_def snapshot_failure_def)
next
  case (Inr payload)
  then show ?thesis
    by (simp add: send_snapshot_answer_def act_catch_def act_bind_def send_answer_step send_snapshot)
qed

text \<open>
  The wire refines the reply: a client that can be written to gets, for every request, one status line, the headers with
  the size of the body as their length, and the bytes of the body, which are those of the reply and at most
  128 KiB; then the connection is closed.
\<close>

theorem wire_refines_reply:
  "let r = status_reply fr se cf command path at_counters at_items;
       sent = Status (st_status r) # status_headers date r @ [EndHeaders, Body (utf8_encode (st_body r)), CloseConnection] in
   handle_status (\<lambda>_. None) date fr se cf command path at_counters at_items s = (Inr (), s @ sent) \<and>
   one_answer sent \<and> Header ''Content-Length'' (str_of_int (body_bytes sent)) \<in> set sent \<and> body_bytes sent \<le> max_response_bytes"
proof -
  define r where "r = status_reply fr se cf command path at_counters at_items"
  define tr where "tr = Status (st_status r) # status_headers date r @ [EndHeaders, Body (utf8_encode (st_body r)), CloseConnection]"
  have "handle_status (\<lambda>_. None) date fr se cf command path at_counters at_items s = send_answer (\<lambda>_. None) date r s"
    by (auto simp: handle_status_def send_snapshot_answer_step r_def status_reply_def)
  moreover have "body_bytes tr = utf8_size (st_body r)"
    by (simp add: tr_def headers_no_body status_headers_headers utf8_encode_length)
  moreover have "utf8_size (st_body r) \<le> max_response_bytes" unfolding r_def by (rule status_reply_bounded)
  moreover have "one_answer tr" unfolding tr_def by (rule one_answer_intro) (simp_all add: status_headers_headers)
  moreover have "Header ''Content-Length'' (str_of_int (utf8_size (st_body r))) \<in> set tr" by (simp add: tr_def status_headers_def)
  ultimately show ?thesis unfolding Let_def r_def[symmetric] tr_def[symmetric] send_answer_step by simp
qed

text \<open>The headers are constants: nothing of the request, of the database or of an exception can be in them.\<close>

definition known_header :: "string \<Rightarrow> string \<Rightarrow> string \<Rightarrow> bool" where
  "known_header date n v \<longleftrightarrow>
     (n, v) \<in> set fixed_headers \<or>
     (n, v) \<in> {(''Date'', date), (''Content-Type'', ''application/json; charset=utf-8''), (''Allow'', ''GET''),
       (''Retry-After'', str_of_int sqlite_busy_retry), (''Retry-After'', str_of_int unavailable_retry)} \<or>
     n = ''Content-Length'' \<and> (\<exists>k. v = str_of_int k)"

definition only_known :: "string \<Rightarrow> sent list \<Rightarrow> bool" where
  "only_known date tr \<longleftrightarrow> (\<forall>n v. Header n v \<in> set tr \<longrightarrow> known_header date n v)"

interpretation known: trace_property "only_known date" for date
  by unfold_locales (auto simp: only_known_def)

definition answer_known :: "status_answer \<Rightarrow> bool" where
  "answer_known r \<longleftrightarrow> st_allow r \<in> {None, Some ''GET''} \<and> st_retry_after r \<in> {None, Some sqlite_busy_retry, Some unavailable_retry}"

lemma send_json_known:
  "a \<in> {None, Some ''GET''} \<Longrightarrow> t \<in> {None, Some sqlite_busy_retry, Some unavailable_retry} \<Longrightarrow> answer_known (send_json fr n v a t)"
  by (cases "encode_json fr v") (simp_all add: send_json_def answer_known_def)

lemma send_status_snapshot_known: "answer_known (send_status_snapshot fr snapshot)"
proof (cases snapshot)
  case (Inl e)
  then show ?thesis by (cases e) (auto simp: send_status_snapshot_def snapshot_error_response_def intro!: send_json_known)
qed (simp add: send_status_snapshot_def send_json_known)

lemma status_reply_known: "answer_known (status_reply fr se cf command path c i)"
  by (simp add: status_reply_def send_json_known send_status_snapshot_known)

lemma in_optional: "Header n v \<in> set (optional_header name t) \<longleftrightarrow> n = name \<and> t = Some v"
  by (cases t) (auto simp: optional_header_def)

lemma in_fixed: "Header n v \<in> set (map (\<lambda>(n, v). Header n v) hs) \<longleftrightarrow> (n, v) \<in> set hs"
  by force

lemma status_headers_known:
  assumes "answer_known r" "Header n v \<in> set (status_headers date r)"
  shows "known_header date n v"
proof -
  from assms(2) consider (length) "n = ''Content-Length''" "\<exists>k. v = str_of_int k"
    | (date) "(n, v) = (''Date'', date)" | (type) "(n, v) = (''Content-Type'', ''application/json; charset=utf-8'')"
    | (fixed) "(n, v) \<in> set fixed_headers" | (allow) "n = ''Allow''" "st_allow r = Some v"
    | (retry) "n = ''Retry-After''" "map_option str_of_int (st_retry_after r) = Some v"
    unfolding status_headers_def set_append Un_iff in_optional in_fixed list.set insert_iff empty_iff prod.inject by metis
  then show ?thesis
  proof cases
    case allow
    then have "(n, v) = (''Allow'', ''GET'')" using assms(1) by (simp add: answer_known_def)
    then show ?thesis unfolding known_header_def insert_iff by metis
  next
    case retry
    then have "(n, v) = (''Retry-After'', str_of_int sqlite_busy_retry) \<or> (n, v) = (''Retry-After'', str_of_int unavailable_retry)"
      using assms(1) by (auto simp: answer_known_def)
    then show ?thesis unfolding known_header_def insert_iff by metis
  qed (unfold known_header_def insert_iff, metis+)
qed

lemma send_answer_known: "answer_known r \<Longrightarrow> adds (only_known date) (send_answer client date r)"
  unfolding send_answer_def
  by (intro known.then_adds known.each_adds known.write_adds adds_simple(1))
    (auto simp: only_known_def dest: status_headers_known elim: is_header.elims)

theorem headers_are_known:
  "\<exists>new. snd (handle_status client date fr se cf command path at_counters at_items s) = s @ new \<and>
     (\<forall>n v. Header n v \<in> set new \<longrightarrow> known_header date n v) \<and> (\<forall>v. Header ''Server'' v \<notin> set new)"
proof -
  let ?snapshot = "read_role_status_snapshot se cf max_queue_items at_counters at_items"
  have "adds (only_known date) (send_snapshot_answer client date fr ?snapshot)"
    unfolding send_snapshot_answer_def snapshot_failure_def
  proof (rule known.catch_adds, rule known.bind_adds)
    show "adds (only_known date) (act_result ?snapshot)" by (rule known.quiet_adds)
    show "adds (only_known date) (send_answer client date (send_json fr 200 (JObj payload) None None))" for payload
      by (rule send_answer_known, rule send_json_known) simp_all
    show "adds (only_known date) (send_answer client date (send_status_snapshot fr (Inl e)))" for e
      by (rule send_answer_known, rule send_status_snapshot_known)
  qed
  then have "adds (only_known date) (handle_status client date fr se cf command path at_counters at_items)"
    unfolding handle_status_def by (simp add: send_answer_known status_reply_known)
  then obtain new where "snd (handle_status client date fr se cf command path at_counters at_items s) = s @ new" "only_known date new"
    unfolding adds_def by blast
  moreover have "\<not> known_header date ''Server'' v" for v by (simp add: known_header_def fixed_headers_def)
  ultimately show ?thesis unfolding only_known_def by blast
qed

text \<open>A server that was opened is closed, however serving ends, and a configuration that is refused opens none.\<close>

lemma serve_status_closes:
  "snd (serve_status is_ip listen run cf network s) = s \<or>
   snd (serve_status is_ip listen run cf network s) = s @ [Opened (ss_bind network) (ss_port network), Closed] \<and>
     validate_startup is_ip cf network = Inr ()"
  by (auto simp: serve_status_def split: sum.split)

lemma status_process_exit:
  assumes "\<And>h p. listen h p = Inr ()"
  shows "fst (status_process is_ip listen (Inr ()) cf network s) = status_main is_ip cf network"
proof (cases "result_bind cf (\<lambda>c. result_bind network (validate_startup is_ip c))")
  case (Inl e)
  then have "fst (act_bind (act_result cf) (\<lambda>c. act_bind (act_result network) (\<lambda>n.
         act_then (serve_status is_ip listen (Inr ()) c n) (act_return (0 :: int)))) s) = Inl e"
    by (cases cf; cases network) (auto simp: act_bind_def act_then_def serve_status_def)
  then show ?thesis using Inl
    by (cases e) (auto simp: status_process_def status_main_def act_catch_def split: prod.split sum.split)
next
  case (Inr u)
  then show ?thesis using assms
    by (cases cf; cases network) (auto simp: status_process_def status_main_def act_catch_def act_bind_def act_then_def serve_status_def)
qed

end
