(* ===== verification/GateLog.thy ===== *)
theory GateLog
  imports IntentGate AppendFile JsonLines "HOL-Library.Sublist"
begin

text \<open>
  What \<open>emit\<close> of the intent action gate does with an event: one line on the standard output and one line in the log file,
  whose failures are logged and otherwise ignored.
\<close>

text \<open>The environment, the current directory, the links the system follows, and the text of a float.\<close>

record log_env =
  lg_environ :: "string \<rightharpoonup> string"
  lg_cwd :: path
  lg_links :: nat
  lg_float_repr :: "pyfloat \<Rightarrow> string"

record gate_log =
  gl_files :: fs
  gl_printed :: "string list"

definition default_log :: string where
  "default_log = ''/opt/data/hermeteam/intent-action-events.jsonl''"

text \<open>\<open>Path(path)\<close>: empty components and single points are left out.\<close>

definition log_place :: "log_env \<Rightarrow> path option" where
  "log_place le = (let path = read_env (lg_environ le) ''HERMETEAM_GATE_LOG_PATH'' default_log in
     if path = [] then None
     else Some (start_dir path (lg_cwd le) @ filter (\<lambda>c. c \<noteq> [] \<and> c \<noteq> ''.'') (path_parts path)))"

definition event_line :: "log_env \<Rightarrow> json \<Rightarrow> string" where
  "event_line le e = dumps (lg_float_repr le) e"

definition log_event :: "log_env \<Rightarrow> json \<Rightarrow> gate_log \<Rightarrow> gate_log" where
  "log_event le e gl =
     gl\<lparr>gl_printed := gl_printed gl @ [''HERMETEAM_EVENT '' @ event_line le e],
        gl_files := (case log_place le of
          None \<Rightarrow> gl_files gl
        | Some p \<Rightarrow> snd (append_below (lg_links le) p (event_line le e @ [newline]) (gl_files gl)))\<rparr>"

text \<open>The events of a hook are written in the order in which it emits them.\<close>

definition log_new :: "log_env \<Rightarrow> gate_state \<Rightarrow> gate_state \<Rightarrow> gate_log \<Rightarrow> gate_log" where
  "log_new le before after gl = fold (log_event le) (drop (length (gs_events before)) (gs_events after)) gl"

section \<open>The log only grows\<close>

definition lines_of :: "log_env \<Rightarrow> json list \<Rightarrow> string" where
  "lines_of le es = concat (map (\<lambda>e. event_line le e @ [newline]) es)"

lemma lines_of_simps [simp]: "lines_of le [] = []" "lines_of le (e # es) = event_line le e @ newline # lines_of le es"
  by (simp_all add: lines_of_def)

text \<open>What the log needs of its place: no link on the way to it, and components that are names.\<close>

definition log_ready :: "log_env \<Rightarrow> path \<Rightarrow> string \<Rightarrow> fs \<Rightarrow> bool" where
  "log_ready le dir name fs \<longleftrightarrow>
     log_place le = Some (dir @ [name]) \<and> list_all proper (dir @ [name]) \<and> link_free fs (dir @ [name])"

lemma log_event_files:
  assumes "log_ready le dir name (gl_files gl)"
  shows "\<exists>res. append_below (lg_links le) (dir @ [name]) (event_line le e @ [newline]) (gl_files gl) =
    (res, gl_files (log_event le e gl))"
  using assms unfolding log_event_def log_ready_def
  by (cases "append_below (lg_links le) (dir @ [name]) (event_line le e @ [newline]) (gl_files gl)") simp

text \<open>Every path keeps its node, but for the log and directories made on the way to it, and the log stays where it is.\<close>

definition log_frame :: "path \<Rightarrow> string \<Rightarrow> fs \<Rightarrow> fs \<Rightarrow> bool" where
  "log_frame dir name fs fs' \<longleftrightarrow>
     (\<forall>q. node_at fs' q \<noteq> node_at fs q \<longrightarrow>
        q = dir @ [name] \<and> is_regular (node_at fs' q) \<or> below q dir \<and> node_at fs' q = Some Directory)"

lemma log_frame_refl: "log_frame dir name fs fs"
  by (simp add: log_frame_def)

lemma log_frame_trans:
  assumes "log_frame dir name fs fs1" "log_frame dir name fs1 fs2"
  shows "log_frame dir name fs fs2"
  unfolding log_frame_def
proof (intro allI impI)
  fix q
  assume "node_at fs2 q \<noteq> node_at fs q"
  then show "q = dir @ [name] \<and> is_regular (node_at fs2 q) \<or> below q dir \<and> node_at fs2 q = Some Directory"
    using assms unfolding log_frame_def by (cases "node_at fs2 q = node_at fs1 q") (metis, blast)
qed

lemma log_frame_ready:
  assumes "log_ready le dir name fs" "log_frame dir name fs fs'"
  shows "log_ready le dir name fs'"
proof -
  have "\<not> is_link_node (node_at fs' q)" if "\<not> is_link_node (node_at fs q)" for q
    using assms(2) that unfolding log_frame_def
    by (cases "node_at fs' q = node_at fs q") (auto elim!: is_regular.elims)
  then show ?thesis using assms(1) by (simp add: log_ready_def link_free_def)
qed

lemma log_event_step:
  assumes "log_ready le dir name (gl_files gl)"
  shows "log_frame dir name (gl_files gl) (gl_files (log_event le e gl)) \<and>
    (file_text (gl_files (log_event le e gl)) (dir @ [name]) = file_text (gl_files gl) (dir @ [name]) \<or>
     file_text (gl_files (log_event le e gl)) (dir @ [name]) = file_text (gl_files gl) (dir @ [name]) @ event_line le e @ [newline])"
proof -
  obtain res where run: "append_below (lg_links le) (dir @ [name]) (event_line le e @ [newline]) (gl_files gl) =
      (res, gl_files (log_event le e gl))" using log_event_files[OF assms] by blast
  have "link_free (gl_files gl) (dir @ [name])" "list_all proper (dir @ [name])" using assms by (simp_all add: log_ready_def)
  from append_below_frame[OF this run] show ?thesis
    by (cases "isl res") (auto simp: log_frame_def file_text_def)
qed

lemma log_events_grow:
  assumes "log_ready le dir name (gl_files gl)"
  shows "log_frame dir name (gl_files gl) (gl_files (fold (log_event le) es gl)) \<and>
    (\<exists>written. subseq written es \<and> file_text (gl_files (fold (log_event le) es gl)) (dir @ [name]) =
       file_text (gl_files gl) (dir @ [name]) @ lines_of le written)"
  using assms
proof (induction es arbitrary: gl)
  case (Cons e es)
  let ?gl = "log_event le e gl"
  have step: "log_frame dir name (gl_files gl) (gl_files ?gl)"
    "file_text (gl_files ?gl) (dir @ [name]) = file_text (gl_files gl) (dir @ [name]) \<or>
     file_text (gl_files ?gl) (dir @ [name]) = file_text (gl_files gl) (dir @ [name]) @ event_line le e @ [newline]"
    using log_event_step[OF Cons.prems] by blast+
  obtain written where rest: "log_frame dir name (gl_files ?gl) (gl_files (fold (log_event le) es ?gl))" "subseq written es"
    "file_text (gl_files (fold (log_event le) es ?gl)) (dir @ [name]) = file_text (gl_files ?gl) (dir @ [name]) @ lines_of le written"
    using Cons.IH[OF log_frame_ready[OF Cons.prems step(1)]] by blast
  have frame: "log_frame dir name (gl_files gl) (gl_files (fold (log_event le) (e # es) gl))"
    using log_frame_trans[OF step(1) rest(1)] by simp
  from step(2) show ?case
  proof
    assume "file_text (gl_files ?gl) (dir @ [name]) = file_text (gl_files gl) (dir @ [name])"
    then show ?thesis using frame rest(2,3) by (intro conjI exI[of _ written]) auto
  next
    assume "file_text (gl_files ?gl) (dir @ [name]) = file_text (gl_files gl) (dir @ [name]) @ event_line le e @ [newline]"
    then show ?thesis using frame rest(2,3) by (intro conjI exI[of _ "e # written"]) auto
  qed
qed (auto simp: log_frame_refl)

lemma event_line_one: "(\<And>f. one_line (lg_float_repr le f)) \<Longrightarrow> one_line (event_line le e)"
  unfolding event_line_def by (rule dumps_one_line)

lemma log_events_printed:
  "gl_printed (fold (log_event le) es gl) = gl_printed gl @ map (\<lambda>e. ''HERMETEAM_EVENT '' @ event_line le e) es"
  by (induction es arbitrary: gl) (simp_all add: log_event_def)

section \<open>Sessions\<close>

text \<open>The hooks that \<open>register\<close> names, and one call of a hook by its host.\<close>

datatype gate_hook = PreApiRequest | PostApiRequest | PreToolCall | PostToolCall

definition registered_hooks :: "(string \<times> gate_hook) list" where
  "registered_hooks = [(''pre_api_request'', PreApiRequest), (''post_api_request'', PostApiRequest),
     (''pre_tool_call'', PreToolCall), (''post_tool_call'', PostToolCall)]"

fun run_hook :: "gate_env \<Rightarrow> (string \<rightharpoonup> string) \<Rightarrow> string \<Rightarrow> gate_hook \<Rightarrow> pydict \<Rightarrow> gate_state
    \<Rightarrow> pydict option result \<times> gate_state" where
  "run_hook ge environ now PreApiRequest kwargs st = (Inr None, on_pre_api_request ge environ now kwargs st)"
| "run_hook ge environ now PostApiRequest kwargs st =
     (case on_post_api_request ge environ now kwargs st of (r, st') \<Rightarrow> (map_sum id (\<lambda>_. None) r, st'))"
| "run_hook ge environ now PreToolCall kwargs st =
     (case on_pre_tool_call ge environ now kwargs st of (answer, st') \<Rightarrow> (Inr answer, st'))"
| "run_hook ge environ now PostToolCall kwargs st = (Inr None, on_post_tool_call ge environ now kwargs st)"

text \<open>The calls of a session, by the name of the hook; a name that is not registered is not called.\<close>

definition logged_call :: "log_env \<Rightarrow> gate_env \<Rightarrow> string \<times> string \<times> pydict \<Rightarrow> gate_state \<times> gate_log \<Rightarrow> gate_state \<times> gate_log" where
  "logged_call le ge call state = (case call of (now, name, kwargs) \<Rightarrow> (case state of (st, gl) \<Rightarrow>
     (case map_of registered_hooks name of
        None \<Rightarrow> (st, gl)
      | Some h \<Rightarrow> (let st' = snd (run_hook ge (lg_environ le) now h kwargs st) in (st', log_new le st st' gl)))))"

definition gate_session :: "log_env \<Rightarrow> gate_env \<Rightarrow> (string \<times> string \<times> pydict) list \<Rightarrow> gate_state \<times> gate_log \<Rightarrow> gate_state \<times> gate_log" where
  "gate_session le ge calls state = fold (logged_call le ge) calls state"

lemma propose_events:
  "\<exists>new. gs_events (foldl (\<lambda>st c. propose ge environ now kwargs s c st) st cs) = gs_events st @ new"
proof (induction cs arbitrary: st)
  case (Cons c cs)
  have "\<exists>e. gs_events (propose ge environ now kwargs s c st) = gs_events st @ [e]"
    by (simp add: propose_def Let_def emit_def remember_def)
  then obtain e where e: "gs_events (propose ge environ now kwargs s c st) = gs_events st @ [e]" by blast
  obtain new where "gs_events (foldl (\<lambda>st c. propose ge environ now kwargs s c st) (propose ge environ now kwargs s c st) cs) =
      gs_events (propose ge environ now kwargs s c st) @ new" using Cons.IH by blast
  with e show ?case by simp
qed simp

lemma hook_appends: "\<exists>new. gs_events (snd (run_hook ge environ now h kwargs st)) = gs_events st @ new"
proof (cases h)
  case PreApiRequest
  then show ?thesis by (simp add: on_pre_api_request_def emit_def)
next
  case PostApiRequest
  obtain new where "gs_events (foldl (\<lambda>st c. propose ge environ now kwargs (str_field (ge_str ge) kwargs [''session_id'']) c st)
      (emit (response_event ge environ now kwargs) st) cs) = gs_events (emit (response_event ge environ now kwargs) st) @ new cs" for cs
    using propose_events by metis
  then show ?thesis using PostApiRequest
    by (auto simp: on_post_api_request_def Let_def emit_def split: prod.split sum.splits)
next
  case PreToolCall
  obtain answer st' where run: "on_pre_tool_call ge environ now kwargs st = (answer, st')" by (metis prod.collapse)
  then show ?thesis using PreToolCall by (auto simp: on_pre_tool_call_def Let_def emit_def)
next
  case PostToolCall
  then show ?thesis by (simp add: on_post_tool_call_def emit_def)
qed

lemma session_events:
  "gate_session le ge calls (st, gl) = (st', gl') \<Longrightarrow>
     \<exists>new. gs_events st' = gs_events st @ new \<and> gl' = fold (log_event le) new gl"
proof (induction calls arbitrary: st gl)
  case Nil
  then show ?case by (simp add: gate_session_def)
next
  case (Cons call calls)
  obtain now name kwargs where call: "call = (now, name, kwargs)" by (metis prod_cases3)
  show ?case
  proof (cases "map_of registered_hooks name")
    case None
    then show ?thesis using Cons by (simp add: gate_session_def logged_call_def call)
  next
    case (Some h)
    define st1 where "st1 = snd (run_hook ge (lg_environ le) now h kwargs st)"
    obtain first where first: "gs_events st1 = gs_events st @ first" unfolding st1_def using hook_appends by blast
    have "gate_session le ge calls (st1, fold (log_event le) first gl) = (st', gl')"
      using Cons.prems Some first by (simp add: gate_session_def logged_call_def call st1_def[symmetric] Let_def log_new_def)
    from Cons.IH[OF this] first show ?thesis by auto
  qed
qed


text \<open>
  A verdict is on record: in an existing directory the line of the call's own event is written, and its decision says
  whether the call was blocked.
\<close>

lemma pre_tool_event:
  assumes "on_pre_tool_call ge environ now kwargs st = (answer, st')"
  shows "\<exists>e. gs_events st' = gs_events st @ [JObj e] \<and> (answer \<noteq> None \<longleftrightarrow> dict_get e ''decision'' = JStr ''DENY'')"
  using assms by (auto simp: on_pre_tool_call_def Let_def emit_def gate_event_def text_fields_def mode_field_def)

theorem verdict_on_record:
  assumes "log_ready le dir name (gl_files gl)" "real_dir (gl_files gl) dir" "node_at (gl_files gl) (dir @ [name]) \<noteq> Some Directory"
    and "on_pre_tool_call ge environ now kwargs st = (answer, st')"
  shows "\<exists>e. gs_events st' = gs_events st @ [JObj e] \<and> (answer \<noteq> None \<longleftrightarrow> dict_get e ''decision'' = JStr ''DENY'') \<and>
    file_text (gl_files (log_new le st st' gl)) (dir @ [name]) =
      file_text (gl_files gl) (dir @ [name]) @ event_line le (JObj e) @ [newline]"
proof -
  obtain e where e: "gs_events st' = gs_events st @ [JObj e]" "answer \<noteq> None \<longleftrightarrow> dict_get e ''decision'' = JStr ''DENY''"
    using pre_tool_event[OF assms(4)] by blast
  let ?line = "event_line le (JObj e) @ [newline]"
  have new: "log_new le st st' gl = log_event le (JObj e) gl" by (simp add: log_new_def e(1))
  have free: "link_free (gl_files gl) (dir @ [name])" "list_all proper (dir @ [name])" using assms(1) by (simp_all add: log_ready_def)
  obtain res where run: "append_below (lg_links le) (dir @ [name]) ?line (gl_files gl) = (res, gl_files (log_event le (JObj e) gl))"
    using log_event_files[OF assms(1)] by blast
  moreover obtain fs' where "append_below (lg_links le) (dir @ [name]) ?line (gl_files gl) = (Inr (), fs')"
    using append_below_real[OF assms(2) free(2) _ assms(3)] free(1) by (auto simp: link_free_snoc)
  ultimately have "\<not> isl res" by auto
  then show ?thesis using append_below_frame[OF free run] e new by (auto simp: file_text_def)
qed

section \<open>Examples\<close>

definition log_demo :: log_env where
  "log_demo = \<lparr>lg_environ = [''HERMETEAM_GATE_LOG_PATH'' \<mapsto> ''/log//./events''], lg_cwd = [''app''], lg_links = 4,
     lg_float_repr = (\<lambda>_. [])\<rparr>"

definition log_files :: gate_log where
  "log_files = \<lparr>gl_files = [([''log''], Directory), ([''log'', ''events''], Regular ''old'')], gl_printed = []\<rparr>"

lemma log_demo_ready: "log_ready log_demo [''log''] ''events'' (gl_files log_files)"
proof -
  have "log_place log_demo = Some ([''log''] @ [''events''])" by code_simp
  moreover have "list_all proper ([''log''] @ [''events''])" by code_simp
  moreover have "link_free (gl_files log_files) [''log'', ''events'']"
    using link_free_snoc[of "gl_files log_files" "[''log'']" "''events''"] link_free_snoc[of "gl_files log_files" "[]" "''log''"]
    by (simp add: log_files_def node_at_def)
  ultimately show ?thesis by (simp add: log_ready_def)
qed


end
