(* ===== verification/RunnerMain.thy ===== *)
theory RunnerMain
  imports RunnerFacts
begin

text \<open>
  \<open>main\<close> of \<open>openhands_runner/server.py\<close>: the socket is placed in the file system, and connections are handled one after
  the other, until one of them fails outside \<open>run_task\<close>. A socket is an entry like an empty file here.
\<close>

section \<open>The socket\<close>

definition unlink :: "nat \<Rightarrow> path \<Rightarrow> fs \<Rightarrow> fs result" where
  "unlink n p fs = result_bind (entry_place n fs p) (\<lambda>q. case node_at fs q of
     None \<Rightarrow> Inl (FileNotFoundError ''No such file or directory'')
   | Some Directory \<Rightarrow> Inl (OSError ''Is a directory'')
   | Some _ \<Rightarrow> Inr (filter (\<lambda>(r, _). r \<noteq> q) fs))"

definition open_socket :: "nat \<Rightarrow> path \<Rightarrow> (fs, unit) act" where
  "open_socket n p =
     act_then (make_dirs n (butlast p))
     (act_then (\<lambda>fs. if path_exists n fs p then act_put (unlink n p) fs else (Inr (), fs))
     (act_put (add_entry n p (Regular []))))"

section \<open>Connections\<close>

text \<open>What successive reads return, and how sending the reply fails, if it does.\<close>

record connection =
  cn_chunks :: "string result list"
  cn_send :: "exn option"

fun receive :: "int \<Rightarrow> string \<Rightarrow> string result list \<Rightarrow> string result" where
  "receive bound sofar [] = Inr sofar"
| "receive bound sofar (c # cs) =
     (if bound < int (length sofar) then Inr sofar
      else (case c of
          Inl e \<Rightarrow> Inl e
        | Inr chunk \<Rightarrow>
            if chunk = [] then Inr sofar
            else if newline \<in> set chunk then Inr (sofar @ chunk)
            else receive bound (sofar @ chunk) cs))"

text \<open>Reading and sending are outside the \<open>try\<close>.\<close>

definition handle_conn :: "runner_env \<Rightarrow> connection \<Rightarrow> (fs, string) act" where
  "handle_conn xr c =
     act_bind (act_result (receive max_request_bytes [] (cn_chunks c))) (\<lambda>payload fs.
       case handle_connection xr [payload] fs of (reply, fs') \<Rightarrow>
         ((case cn_send c of Some e \<Rightarrow> Inl e | None \<Rightarrow> Inr reply), fs'))"

fun serve_all :: "runner_env \<Rightarrow> connection list \<Rightarrow> (fs \<times> string list, unit) act" where
  "serve_all xr [] st = (Inr (), st)"
| "serve_all xr (c # cs) (fs, replies) =
     (case handle_conn xr c fs of
        (Inl e, fs') \<Rightarrow> (Inl e, (fs', replies))
      | (Inr reply, fs') \<Rightarrow> serve_all xr cs (fs', replies @ [reply]))"

definition runner_main :: "runner_env \<Rightarrow> path \<Rightarrow> connection list \<Rightarrow> fs \<Rightarrow> unit result \<times> fs \<times> string list" where
  "runner_main xr socket cs fs =
     (case open_socket (rr_links xr) socket fs of
        (Inl e, fs') \<Rightarrow> (Inl e, (fs', []))
      | (Inr _, fs') \<Rightarrow> serve_all xr cs (fs', []))"

section \<open>One reply for each connection, and how the server ends\<close>

lemma receive_read: "receive bound sofar (map Inr chunks) = Inr (read_payload bound sofar chunks)"
  by (induction bound sofar chunks rule: read_payload.induct) auto

lemma receive_healthy: "list_all (\<lambda>c. \<not> isl c) cs \<Longrightarrow> \<exists>payload. receive bound sofar cs = Inr payload"
proof -
  assume "list_all (\<lambda>c. \<not> isl c) cs"
  then have "cs = map Inr (map projr cs)" by (induction cs) auto
  then show ?thesis using receive_read by metis
qed

definition is_line :: "string \<Rightarrow> bool" where
  "is_line r \<longleftrightarrow> r \<noteq> [] \<and> last r = newline \<and> one_line (butlast r)"

lemma handle_conn_line: "handle_conn xr c fs = (Inr reply, fs') \<Longrightarrow> is_line reply"
proof -
  assume run: "handle_conn xr c fs = (Inr reply, fs')"
  then obtain payload where "(case handle_connection xr [payload] fs of (reply, fs') \<Rightarrow>
      ((case cn_send c of Some e \<Rightarrow> Inl e | None \<Rightarrow> Inr reply), fs')) = (Inr reply, fs')"
    by (auto simp: handle_conn_def act_bind_Inr)
  then have "reply = fst (handle_connection xr [payload] fs)"
    by (cases "handle_connection xr [payload] fs"; cases "cn_send c") simp_all
  then show "is_line reply" using reply_is_one_line[of xr "[payload]" fs] by (auto simp: is_line_def)
qed

definition healthy :: "connection \<Rightarrow> bool" where
  "healthy c \<longleftrightarrow> cn_send c = None \<and> list_all (\<lambda>x. \<not> isl x) (cn_chunks c)"

lemma handle_conn_healthy: "healthy c \<Longrightarrow> \<exists>reply fs'. handle_conn xr c fs = (Inr reply, fs')"
  using receive_healthy[of "cn_chunks c" max_request_bytes "[]"]
  by (auto simp: healthy_def handle_conn_def act_bind_def split: prod.split)

text \<open>
  Replies are lines, one for each connection in order, as long as connections do not fail; and a server that ends has lost
  a connection while it was reading from it or sending to it.
\<close>

theorem serve_all_replies:
  "\<exists>new. snd (snd (serve_all xr cs (fs, replies))) = replies @ new \<and> list_all is_line new \<and> length new \<le> length cs \<and>
     (isl (fst (serve_all xr cs (fs, replies))) \<longleftrightarrow> length new < length cs) \<and>
     (isl (fst (serve_all xr cs (fs, replies))) \<longrightarrow> \<not> healthy (cs ! length new))"
proof (induction cs arbitrary: fs replies)
  case (Cons c cs)
  obtain res fs1 where run: "handle_conn xr c fs = (res, fs1)" by (cases "handle_conn xr c fs")
  show ?case
  proof (cases res)
    case (Inl e)
    then have "\<not> healthy c" using handle_conn_healthy[of c xr fs] run by auto
    then show ?thesis using run Inl by simp
  next
    case (Inr reply)
    obtain new where new: "snd (snd (serve_all xr cs (fs1, replies @ [reply]))) = (replies @ [reply]) @ new" "list_all is_line new"
      "length new \<le> length cs" "isl (fst (serve_all xr cs (fs1, replies @ [reply]))) \<longleftrightarrow> length new < length cs"
      "isl (fst (serve_all xr cs (fs1, replies @ [reply]))) \<longrightarrow> \<not> healthy (cs ! length new)"
      using Cons.IH[of fs1 "replies @ [reply]"] by blast
    have "is_line reply" using handle_conn_line run Inr by blast
    then show ?thesis using new run Inr by (intro exI[of _ "reply # new"]) simp
  qed
qed simp

text \<open>A client that is gone when its reply is sent ends the server: no later connection is accepted.\<close>

lemma gone_client_ends_server:
  assumes "receive max_request_bytes [] (cn_chunks c) = Inr payload" "cn_send c = Some e"
  shows "serve_all xr (c # cs) (fs, replies) = (Inl e, (snd (handle_connection xr [payload] fs), replies))"
  using assms by (simp add: handle_conn_def act_bind_def split: prod.split)

text \<open>A socket left by an earlier server is replaced.\<close>

theorem open_socket_replaces:
  assumes "fs_wf fs" "real_dir fs p" "name_ok c" "node_at fs (p @ [c]) = None \<or> node_at fs (p @ [c]) = Some (Regular t)"
  shows "open_socket n (p @ [c]) fs = (Inr (), filter (\<lambda>(r, _). r \<noteq> p @ [c]) fs @ [(p @ [c], Regular [])])"
proof -
  let ?p = "p @ [c]" and ?fs = "filter (\<lambda>(r, _). r \<noteq> p @ [c]) fs"
  have proper: "list_all proper p" "proper c" using assms real_dir_proper name_ok_proper by blast+
  have dirs: "make_dirs n p fs = (Inr (), fs)" using mkdir_all_real[of fs "[]" p n] assms by (simp add: make_dirs_def)
  have keep: "node_at ?fs q = node_at fs q" if "q \<noteq> ?p" for q by (rule node_at_filter) (use that in simp)
  have "take k p \<noteq> ?p" for k
    by (rule notI, drule arg_cong[where f=length]) simp
  then have real: "real_dir ?fs p" using assms(2) unfolding real_dir_def by (metis keep)
  have gone: "node_at ?fs ?p = None" by (auto simp: node_at_def map_of_eq_None_iff)
  have place: "entry_place n fs ?p = Inr ?p" by (rule real_dir_place) (use assms in simp_all)
  have place': "entry_place n ?fs ?p = Inr ?p"
    using walk_real[of ?fs "[]" p True n] real proper by (simp add: entry_place_def real_dir_node)
  have walk: "walk True fs n [] ?p = walk True fs n p [c]"
    using walk_real_append[of fs "[]" p True n "[c]"] assms proper by simp
  have last: "add_entry n ?p (Regular []) ?fs = Inr (?fs @ [(?p, Regular [])])" using place' gone by (simp add: add_entry_def)
  show ?thesis
  proof (cases "node_at fs ?p")
    case None
    then have "\<not> path_exists n fs ?p" using walk proper walk_missing[of c fs p True n "[]"] by (simp add: path_exists_def stat_def)
    moreover have "?fs = fs" using None by (auto simp: node_at_def map_of_eq_None_iff filter_id_conv image_iff)
    ultimately show ?thesis using last dirs by (simp add: open_socket_def act_then_def act_bind_def act_put_def)
  next
    case (Some x)
    then have x: "x = Regular t" using assms(4) by simp
    then have "path_exists n fs ?p" using walk proper Some walk_file[of c fs p t True n "[]"] by (simp add: path_exists_def stat_def)
    moreover have "unlink n ?p fs = Inr ?fs" using place Some x by (simp add: unlink_def)
    ultimately show ?thesis using last dirs by (simp add: open_socket_def act_then_def act_bind_def act_put_def)
  qed
qed

end
