(* ===== verification/BridgeTool.thy ===== *)
theory BridgeTool
  imports Bridge
begin

text \<open>
  \<open>register\<close> of the bridge: the tool as the agent's host sees it, with the schema of its arguments, and that the schema
  promises what \<open>delegate\<close> does.
\<close>

record tool_registration =
  tr_name :: string
  tr_toolset :: string
  tr_schema :: pydict
  tr_handler :: "bridge_env \<Rightarrow> pydict \<Rightarrow> (fs, string) act"
  tr_max_result :: int

definition task_schema :: json where
  "task_schema = JObj [(''type'', JStr ''string''), (''description'', JStr ''Concrete coding task for OpenHands.'')]"

definition workspace_schema :: json where
  "workspace_schema = JObj [(''type'', JStr ''string''),
     (''description'', JStr ''Relative path below /opt/data/workspace; defaults to the workspace root.''), (''default'', JStr ''.'')]"

definition timeout_schema :: json where
  "timeout_schema = JObj [(''type'', JStr ''integer''), (''minimum'', JInt 30), (''maximum'', JInt 1800), (''default'', JInt 900)]"

definition parameters_schema :: json where
  "parameters_schema = JObj [(''type'', JStr ''object''),
     (''properties'', JObj [(''task'', task_schema), (''workspace'', workspace_schema), (''timeout_seconds'', timeout_schema)]),
     (''required'', JArr [JStr ''task''])]"

definition delegate_schema :: pydict where
  "delegate_schema = [(''name'', JStr ''openhands_delegate''),
     (''description'', JStr (''Delegate a bounded coding/refactoring task to the isolated OpenHands runner using the builder scratch '' @
        ''workspace. The runner container has dedicated LLM credentials but no Git/provider/MCP credentials. '' @
        ''The runner exposes the shared skills_superset catalog read-only through OpenHands native user-skill discovery. '' @
        ''Provider writes must still be performed by Hermes through repository MCP/API after reviewing changes.'')),
     (''parameters'', parameters_schema)]"

definition bridge_tool :: tool_registration where
  "bridge_tool = \<lparr>tr_name = ''openhands_delegate'', tr_toolset = ''hermeteam-openhands'', tr_schema = delegate_schema,
     tr_handler = delegate, tr_max_result = 50000\<rparr>"

section \<open>The schema and the function\<close>

text \<open>What a schema admits, for the keywords it uses; the value a call has for a parameter is its own or the default.\<close>

fun member :: "json \<Rightarrow> string \<Rightarrow> json" where
  "member (JObj d) k = dict_get d k"
| "member _ k = JNull"

fun at_least :: "json \<Rightarrow> int \<Rightarrow> bool" where
  "at_least (JInt low) i = (low \<le> i)"
| "at_least _ i = True"

fun at_most :: "json \<Rightarrow> int \<Rightarrow> bool" where
  "at_most (JInt high) i = (i \<le> high)"
| "at_most _ i = True"

fun admits_value :: "json \<Rightarrow> json \<Rightarrow> bool" where
  "admits_value schema (JStr s) = (member schema ''type'' = JStr ''string'')"
| "admits_value schema (JInt i) = (member schema ''type'' = JStr ''integer'' \<and>
     at_least (member schema ''minimum'') i \<and> at_most (member schema ''maximum'') i)"
| "admits_value schema _ = False"

definition admits :: "json \<Rightarrow> pydict \<Rightarrow> bool" where
  "admits schema params \<longleftrightarrow>
     (case member schema ''required'' of JArr ks \<Rightarrow> list_all (\<lambda>k. case k of JStr s \<Rightarrow> dict_has params s | _ \<Rightarrow> True) ks | _ \<Rightarrow> True) \<and>
     (case member schema ''properties'' of
        JObj ps \<Rightarrow> list_all (\<lambda>(k, v). dict_has params k \<longrightarrow> admits_value v (dict_get params k)) ps
      | _ \<Rightarrow> True)"

definition effective_value :: "json \<Rightarrow> pydict \<Rightarrow> string \<Rightarrow> json" where
  "effective_value schema params k = (if dict_has params k then dict_get params k else member (member (member schema ''properties'') k) ''default'')"

lemma admits_parameters:
  "admits parameters_schema params \<longleftrightarrow>
     dict_has params ''task'' \<and> (\<exists>t. dict_get params ''task'' = JStr t) \<and>
     (dict_has params ''workspace'' \<longrightarrow> (\<exists>w. dict_get params ''workspace'' = JStr w)) \<and>
     (dict_has params ''timeout_seconds'' \<longrightarrow> (\<exists>i. dict_get params ''timeout_seconds'' = JInt i \<and> 30 \<le> i \<and> i \<le> 1800))"
proof -
  have words: "admits_value task_schema v \<longleftrightarrow> (\<exists>s. v = JStr s)" "admits_value workspace_schema v \<longleftrightarrow> (\<exists>s. v = JStr s)" for v
    by (cases v; simp add: task_schema_def workspace_schema_def)+
  have number: "admits_value timeout_schema v \<longleftrightarrow> (\<exists>i. v = JInt i \<and> 30 \<le> i \<and> i \<le> 1800)" for v
    by (cases v) (simp_all add: timeout_schema_def)
  show ?thesis by (auto simp: admits_def parameters_schema_def words number)
qed

text \<open>
  A call that the schema admits is handled as the schema says: its time is used as it is, without being cut to the bounds or
  replaced, its workspace unless it is empty, and the defaults of the function are those of the schema.
\<close>

theorem schema_kept:
  assumes "admits parameters_schema params"
  shows "(\<exists>t. delegate_timeout params = Inr t \<and> effective_value parameters_schema params ''timeout_seconds'' = JInt t) \<and>
    (\<exists>w. effective_value parameters_schema params ''workspace'' = JStr w \<and>
      wanted_workspace br params = (if w = [] then ''.'' else w))"
proof -
  have default: "effective_value parameters_schema params ''timeout_seconds'' =
      (if dict_has params ''timeout_seconds'' then dict_get params ''timeout_seconds'' else JInt 900)"
    "effective_value parameters_schema params ''workspace'' = (if dict_has params ''workspace'' then dict_get params ''workspace'' else JStr ''.'')"
    by (simp_all add: effective_value_def parameters_schema_def timeout_schema_def workspace_schema_def)
  have absent: "\<not> dict_has params k \<Longrightarrow> dict_get params k = JNull" for k by (simp add: dict_has_def dict_get_def map_of_eq_None_iff[THEN iffD2])
  have "\<exists>t. delegate_timeout params = Inr t \<and> effective_value parameters_schema params ''timeout_seconds'' = JInt t"
  proof (cases "dict_has params ''timeout_seconds''")
    case True
    then obtain i where "dict_get params ''timeout_seconds'' = JInt i" "30 \<le> i" "i \<le> 1800"
      using assms unfolding admits_parameters by blast
    then show ?thesis unfolding default using True by (simp add: delegate_timeout_def clamp_timeout_def)
  next
    case False
    then show ?thesis unfolding default by (simp add: delegate_timeout_def clamp_timeout_def absent)
  qed
  moreover have "\<exists>w. effective_value parameters_schema params ''workspace'' = JStr w \<and>
      wanted_workspace br params = (if w = [] then ''.'' else w)"
  proof (cases "dict_has params ''workspace''")
    case True
    then obtain w where "dict_get params ''workspace'' = JStr w" using assms unfolding admits_parameters by blast
    then show ?thesis unfolding default using True by (simp add: wanted_workspace_def)
  next
    case False
    then show ?thesis unfolding default by (simp add: wanted_workspace_def absent)
  qed
  ultimately show ?thesis by blast
qed

lemma schema_kept_witness:
  "\<exists>t. delegate_timeout [(''task'', JStr ''fix''), (''timeout_seconds'', JInt 60)] = Inr t \<and> t = 60"
proof -
  have admitted: "admits parameters_schema [(''task'', JStr ''fix''), (''timeout_seconds'', JInt 60)]" by code_simp
  have "effective_value parameters_schema [(''task'', JStr ''fix''), (''timeout_seconds'', JInt 60)] ''timeout_seconds'' = JInt 60"
    by code_simp
  with schema_kept[OF admitted] show ?thesis by auto
qed

end
