(* ===== verification/Spec2Isabelle.thy ===== *)
theory Spec2Isabelle
  imports Core Proxy WorkItems Repair OrchRuns ReconcileFacts Providers HermesClient Prompts Tick ServiceFacts IntentGate StatusServer Bridge Artifacts GatewaySetup Commands StatusWire GateLog RunnerMain BridgeTool
begin

text \<open>
  Verification development for the Hermes SDLC agents. The repository holds two Python programs that meet at
  the repository host: the capability gateway, which decides what an agent may do and with which token, and
  one orchestrator per role, which hands work items to agent runs and collects what they return.

  \<^bold>\<open>The capability gateway\<close> (\<open>src/capability_gateway\<close>).
  \<^item> \<open>Models\<close> is \<open>models.py\<close>: risk categories as an enumeration with a linear order, the data classes as records.
  \<^item> \<open>Core\<close> is \<open>core.py\<close>: the risk score, the dominance relation between tools and the resolution of an
    intent into one selected tool. Its lemmas show that scores respect their floors and grow with the flags, and that a
    selected tool is authorised and first in the order.
  \<^item> \<open>Judge\<close> is \<open>judge.py\<close>: the request to the classifying model and the validation of its answer.
  \<^item> \<open>Fnmatch\<close> is the part of \<open>fnmatch.fnmatch\<close> that \<open>authority.py\<close> uses; \<open>Authority\<close> is \<open>authority.py\<close>:
    the map of actions a builder may ask for, the canonical hash of the arguments, and the guards on
    repository, branch and paths.
  \<^item> \<open>Governance\<close> is \<open>governance.py\<close>: each table a list of rows, each method one operation on the record of all
    tables. \<open>GrantHistory\<close> reads sequences of operations as histories of events: no grant is spent twice, and each
    spending is preceded by its own approval.
  \<^item> \<open>GithubApp\<close> is \<open>github_app.py\<close>: the cache of narrowed tokens. \<open>Proxy\<close> is \<open>mcp_proxy.py\<close>: what a request
    needs to obtain a permit, composed of the authority map, the store and the token broker, and with which data it is refused.
    \<open>AppJwt\<close> is the signed token by which the broker introduces itself, with its base64 encoding.
  \<^item> \<open>Relay\<close> is the rest of \<open>mcp_proxy.py\<close> and \<open>_mcp\<close> of \<open>service.py\<close>: what is written to the agent, as a trace, when a
    request is refused or the answer of the upstream server is passed on, also when the server or the agent fails on the way. What
    passes is bounded in size and in its headers, a request is answered once, and the trace agrees with the decision of \<open>Service\<close>.
    The theorem at the end of this theory follows one call through all of them, from its refusal over the approval to the relay.
  \<^item> \<open>GatewaySetup\<close> is \<open>from_environment\<close> of the broker and of the proxy: what a gateway that starts is known to have.
  \<^item> \<open>Catalogs\<close> is \<open>catalogs.py\<close>; \<open>Service\<close> is \<open>service.py\<close>: the resolution of an intent, from the fields of
    the request through catalogs, judge and core to the store, and the handlers of every path. What other requests do to the store
    between two transactions is an argument. \<open>ServiceFacts\<close> shows on what ground a tool is handed out whatever they
    do, that an approval serves one resolution, and what a request can change without the operator's key.

  \<^bold>\<open>The orchestrator\<close> (\<open>src/orchestrator/sdlc_orchestrator\<close>).
  \<^item> \<open>Statuses\<close> is \<open>statuses.py\<close> and \<open>resolve_transition\<close>; \<open>WorkItems\<close> is \<open>provider_base.py\<close>, \<open>config.py\<close>,
    \<open>assignment.py\<close> and the issue normalisation of both providers.
  \<^item> \<open>FinalResponse\<close> is \<open>final_response.py\<close>, \<open>Repair\<close> is \<open>final_response_repair.py\<close>: the contract for what a run
    returns, and the deterministic repair of what misses it. Both round trips are proved: what \<open>to_json\<close>
    writes is read back, also when it is wrapped in prose.
  \<^item> \<open>OrchDb\<close> is \<open>db.py\<close>: the tables and every operation, migrations included. \<open>OrchRuns\<close> makes a step relation of
    the operations and proves the invariant \<open>orch_wf\<close> of every reachable database.
  \<^item> \<open>Transitions\<close> is the part of \<open>transitions.py\<close> that calls the provider and records its answer. \<open>Reconciler\<close> is
    \<open>reconciler.py\<close>, one definition per branch of the pass; \<open>ReconcileFacts\<close> proves that a pass is a sequence of
    database steps, that each changed row is explained by an outcome the code may give to its run
    (\<open>justified\<close>), that settled runs are always finished and that no forbidden reasoning key is stored.
  \<^item> \<open>Providers\<close> is the HTTP side of \<open>provider_github.py\<close> and \<open>provider_gitlab.py\<close>, \<open>HermesClient\<close> is
    \<open>hermes_client.py\<close>, \<open>Prompts\<close> is \<open>prompts.py\<close>.
  \<^item> \<open>Tick\<close> is \<open>cli.py\<close>: a tick is the composition of the pass, discovery and starting, over all parts above. The
    databases reachable by ticks are an inductive set, over which attempts are bounded. \<open>Commands\<close> is the same file as the
    operator sees it: the object each command prints, the exit codes, and that a dry run tells what requeueing does.
  \<^item> \<open>StatusSnapshot\<close> is \<open>status_snapshot.py\<close>: the two queries over the same database, the order by urgency, and the
    sanitising of every field that leaves it. \<open>StatusServer\<close> is \<open>status_server.py\<close>: routing, the bound of a response, the
    status code of every failure, and the start-up checks. \<open>StatusWire\<close> is what the server writes, all headers included, and
    the life of its socket.
  \<^item> \<open>Artifacts\<close> is \<open>workspace_artifacts.py\<close>: whether a response is recorded, the bounded record, and the line that
    is appended to a file below the data directory.

  \<^bold>\<open>The agent runtime\<close> (\<open>src/hermes-plugins\<close>, \<open>src/openhands_runner\<close>).
  \<^item> \<open>IntentGate\<close> is the plugin \<open>hermeteam-intent-action-gate\<close>: the hooks around a model's turn, the classifier of
    actions, the queue of proposals and the decision about a call. A call that passes was proposed or is reversible; the queue is
    the list of the last proposals; logs show no argument. \<open>GateLog\<close> writes the events: the log only grows, by complete
    lines, whatever fails, over every session of calls of the registered hooks; a verdict in a directory that exists is on
    record.
  \<^item> \<open>Runner\<close> is \<open>openhands_runner/server.py\<close>: one task run by an agent process, over the file system of
    \<open>FileSystem\<close>. \<open>RunnerFacts\<close> shows in which way alone the agent is started, that success is reported only for a
    run that was checked, and that the skills linked before a run pass the check after it unless they were changed.
    \<open>RunnerMain\<close> is the socket and the loop over connections: one reply a connection, until one of them fails.
  \<^item> \<open>Bridge\<close> is the plugin \<open>hermeteam-openhands-bridge\<close>: when the runner is contacted, and that both sides agree on the
    request and on the directory it names. \<open>BridgeTool\<close> is the tool as it is registered, with the schema of its arguments,
    and that a call the schema admits is used as it is.

  \<open>FileSystem\<close> holds directories, files and symbolic links as an association list from paths, the resolution of paths as
  \<open>pathlib\<close> has it (\<open>walk\<close>, strict or not), and the operations on entries; \<open>AppendFile\<close> the files that only grow.
  \<open>Actions\<close> is the monad of operations that may raise and keep what they changed before. \<open>HttpOut\<close> is the trace of what
  a handler writes to its client, and \<open>adds P m\<close>, which says of every run of \<open>m\<close>, failures included, what it adds to the
  trace. \<open>JsonLines\<close> shows that an encoded value has no line break inside, \<open>JsonPlain\<close> is the compact encoder in ASCII.

  \<open>Prelude\<close> holds the vocabulary: Python exceptions as the sum type \<open>result\<close>, string methods, updates of
  tables, stable sorting. \<open>PyJson\<close> holds the values of \<open>json.loads\<close>, dictionaries as association lists in insertion
  order, and \<open>json.dumps\<close>.

  \<^bold>\<open>Conventions.\<close> A \<open>str\<close> is a list of characters with code points below 256. Python integers are \<open>int\<close> or
  \<open>nat\<close>; a float is a rational number, an infinity or NaN, so that the comparisons of the code mean what they
  mean in Python, and no theorem depends on rounding. Stored times are whole seconds, clocks rational. An operation of a
  store is one transaction: \<open>Inl\<close> of an exception stands for its rollback.

  \<^bold>\<open>Parameters.\<close> Arguments of the definitions, never defined here: SHA-256, \<open>json.loads\<close> on text, the text of a float
  and of \<open>str()\<close> on a container, clocks and random tokens, the signature of the GitHub App token, URL and path parsing, the test for an IP
  literal, the programs git and agent of the runner, and the replies of every server: the judge, the repository host, the agent gateway. A server that is
  changed by requests is a function of the requests made so far.

  \<^bold>\<open>Loops.\<close> Every loop of the code is structural recursion over the data it runs through, but one: waiting for
  a repair run is a \<open>partial_function\<close> over \<open>option\<close>, and that it returns is a theorem, whose one
  hypothesis is that two seconds of sleep pass on the clock. The one bound is that of \<open>walk\<close>: the number of symbolic links a
  resolution follows, an argument as in the kernel, where too many are an error (\<open>ELOOP\<close>); the theorems hold for every
  bound, and where a link has to be followed they ask for one.

  \<^bold>\<open>Interfaces.\<close> \<open>one_shot\<close> is the contract of a store of grants that are spent once, interpreted by execution grants
  and by the older approvals; \<open>token_broker\<close> that of a cache of scoped tokens; \<open>trace_property\<close> that of a property kept by
  whatever is sent next, interpreted by the headers of the relay and by those of the status server; \<open>ranked_relation\<close> that of a relation
  that strictly lowers a rank, the dominance between candidates.

  \<^bold>\<open>Not modelled.\<close> Sockets and the accept loops of the HTTP servers, TLS, the banner and date that \<open>BaseHTTPRequestHandler\<close>
  puts beside a status line of the gateway, threads within one process, the SQLite journal, file locks, modes and owners of files are
  effects outside the definitions; whether the lock was acquired is an argument, and so is what others do to the store between two
  transactions. The command line is parsed by \<open>argparse\<close>; the model starts from the parsed command. A socket in the file
  system is an entry like an empty file. The dashboard, policies, manifests and shell scripts are in other languages.
\<close>

section \<open>The whole way of a call that needs approval\<close>

lemma answer_mcp_permit:
  "gw_proxy gw = Some px \<Longrightarrow> read_mcp_body (hi_read rq) command (hi_headers rq ''Content-Length'') = Inr body \<Longrightarrow>
   proxy_permit (xe_float_repr xe) (xe_sha xe) (xe_body xe) issue px sc (hi_headers rq) body g b = (outcome, g', b') \<Longrightarrow>
     answer_mcp re xe gw issue sc command incoming rq g b = (answer_permit re (xe_body xe) command incoming body outcome, g', b')"
  by (simp add: answer_mcp_def)

lemma answer_refused:
  "answer_permit re loads command incoming body (Inl (approval_required sha px sn c)) s =
     send_mcp_error re 200 ''approval_required'' ''explicit human authority is required for this exact invocation''
       (approval_data sha px sn c) (rpc_request_id loads body) s"
  by (simp add: answer_permit_def act_bind_def approval_required_def answer_failure_def)

lemma answer_forwarded:
  "fst (forward_upstream re (pt_token (pm_token p)) command incoming body []) = Inr () \<Longrightarrow>
     answer_permit re loads command incoming body (Inr p) [] = forward_upstream re (pt_token (pm_token p)) command incoming body []"
  by (cases "forward_upstream re (pt_token (pm_token p)) command incoming body []") (simp add: answer_permit_def act_bind_def)

text \<open>
  (C6) From the agent's request to the upstream server and back: a call above the ceiling without a grant is answered with
  the error \<open>approval_required\<close> under the id of the request, which names the approval and the hash of the arguments; if an
  operator approves what the error names, the same request, made again within ten seconds, is answered with what the
  upstream server returns for it under the token of the broker, if relaying does not fail.
\<close>

theorem approved_call_is_relayed:
  assumes "gov_wf g" "gw_proxy gw = Some px"
    and "read_mcp_body (hi_read rq) command (hi_headers rq ''Content-Length'') = Inr body"
    and "authenticate px (hi_headers rq) = Inr ()" "gov_snapshot g = Inr sn" "\<not> sn_emergency_stop sn"
    and "parse_rpc (xe_body xe) body = Inr (Some rpc)" "dict_get rpc ''method'' = JStr ''tools/call''"
    and "call_context (xe_float_repr xe) (xe_sha xe) px (hi_headers rq) rpc = Inr (c, intent)"
    and "needs_human px sn c" "\<not> has_execution_grant t0 c g"
  shows "\<exists>refusal g1 details rid.
    answer_mcp re xe gw issue (idle t0 gid0) command incoming rq g b = (refusal, g1, b) \<and>
    refusal [] = send_mcp_error re 200 ''approval_required'' ''explicit human authority is required for this exact invocation''
      details (dict_get rpc ''id'') [] \<and>
    map_of details ''request_id'' = Some (Some rid) \<and> map_of details ''args_hash'' = Some (Some (ic_args_hash c)) \<and>
    (\<forall>t1 gid ttl res g2 t2 gid2 tok.
       grant_once t1 gid rid (ic_tool_id c) ttl g1 = Inr (res, g2) \<longrightarrow> t1 \<le> t2 \<longrightarrow> t2 < t1 + 10 \<longrightarrow>
       fst (issue (of_int t2) (ic_repository c) (ic_permissions c) b) = Inr tok \<longrightarrow>
       fst (forward_upstream re (pt_token tok) command incoming body []) = Inr () \<longrightarrow>
       (\<exists>answer g3 b3. answer_mcp re xe gw issue (idle t2 gid2) command incoming rq g2 b = (answer, g3, b3) \<and>
          answer [] = forward_upstream re (pt_token tok) command incoming body []))"
proof -
  let ?permit = "\<lambda>t gid. proxy_permit (xe_float_repr xe) (xe_sha xe) (xe_body xe) issue px (idle t gid) (hi_headers rq) body"
  let ?rid = "invocation_request_id (xe_sha xe) c"
  obtain g1 where first: "?permit t0 gid0 g b = (Inl (approval_required (xe_sha xe) px sn c), g1, b)"
    and again: "\<forall>t1 gid ttl res g2 t2 gid2 tok. grant_once t1 gid ?rid (ic_tool_id c) ttl g1 = Inr (res, g2) \<longrightarrow>
       t1 \<le> t2 \<longrightarrow> t2 < t1 + 10 \<longrightarrow> fst (issue (of_int t2) (ic_repository c) (ic_permissions c) b) = Inr tok \<longrightarrow>
       (\<exists>p g3 b3. ?permit t2 gid2 g2 b = (Inr p, g3, b3) \<and> pm_source p = ''HUMAN'' \<and> pm_context p = Some c \<and> pm_token p = tok)"
    using approve_and_retry[OF assms(1,4-11), of issue gid0 b] by (elim exE conjE)
  have "rpc_request_id (xe_body xe) body = dict_get rpc ''id''" using assms(7) by (simp add: rpc_request_id_def)
  then have refusal: "answer_permit re (xe_body xe) command incoming body (Inl (approval_required (xe_sha xe) px sn c)) [] =
      send_mcp_error re 200 ''approval_required'' ''explicit human authority is required for this exact invocation''
        (approval_data (xe_sha xe) px sn c) (dict_get rpc ''id'') []" by (simp add: answer_refused)
  have relayed: "\<exists>answer g3 b3. answer_mcp re xe gw issue (idle t2 gid2) command incoming rq g2 b = (answer, g3, b3) \<and>
          answer [] = forward_upstream re (pt_token tok) command incoming body []"
    if step: "grant_once t1 gid ?rid (ic_tool_id c) ttl g1 = Inr (res, g2)" "t1 \<le> t2" "t2 < t1 + 10"
      "fst (issue (of_int t2) (ic_repository c) (ic_permissions c) b) = Inr tok"
      "fst (forward_upstream re (pt_token tok) command incoming body []) = Inr ()" for t1 gid ttl res g2 t2 gid2 tok
  proof -
    obtain p g3 b3 where p: "?permit t2 gid2 g2 b = (Inr p, g3, b3)" "pm_token p = tok"
      using again[rule_format, OF step(1-4), of gid2] by (elim exE conjE)
    have "answer_mcp re xe gw issue (idle t2 gid2) command incoming rq g2 b =
        (answer_permit re (xe_body xe) command incoming body (Inr p), g3, b3)" by (rule answer_mcp_permit[OF assms(2,3) p(1)])
    moreover have "answer_permit re (xe_body xe) command incoming body (Inr p) [] = forward_upstream re (pt_token tok) command incoming body []"
      using answer_forwarded[of re p] step(5) p(2) by simp
    ultimately show ?thesis by (intro exI conjI)
  qed
  show ?thesis
    by (intro exI conjI, rule answer_mcp_permit[OF assms(2,3) first], rule refusal)
      (use relayed in \<open>auto simp: approval_data_def\<close>)
qed

text \<open>The request of the examples of \<open>Proxy\<close>, at a gateway whose upstream server answers at once.\<close>

definition flow_request :: http_in where
  "flow_request = \<lparr>hi_path = ''/mcp'', hi_headers = demo_headers(''Content-Length'' \<mapsto> ''1''), hi_read = (\<lambda>_. ''x'')\<rparr>"

definition flow_gateway :: gateway where
  "flow_gateway = (demo_gateway LOW)\<lparr>gw_mode := ''dynamic'', gw_proxy := Some demo_proxy\<rparr>"

definition flow_env :: gateway_env where
  "flow_env = demo_xe\<lparr>xe_float_repr := (\<lambda>_. []), xe_body := (\<lambda>_. Some (JObj demo_rpc))\<rparr>"

lemma approved_call_is_relayed_witness:
  "\<exists>refusal g1 details. answer_mcp (relay_demo reply_demo) flow_env flow_gateway (\<lambda>_ _ _ n. (Inr demo_token, n :: nat)) (idle 0 ''g'')
      ''POST'' [] flow_request demo_store 0 = (refusal, g1, 0) \<and>
    refusal [] = send_mcp_error (relay_demo reply_demo) 200 ''approval_required''
      ''explicit human authority is required for this exact invocation'' details JNull []"
proof -
  let ?sn = "\<lparr>sn_emergency_stop = False, sn_exceptions = [], sn_overrides = [], sn_pending = []\<rparr>"
  have gw: "gw_proxy flow_gateway = Some demo_proxy" by (simp add: flow_gateway_def)
  have read: "read_mcp_body (hi_read flow_request) ''POST'' (hi_headers flow_request ''Content-Length'') = Inr (Some ''x'')" by code_simp
  have auth: "authenticate demo_proxy (hi_headers flow_request) = Inr ()" by code_simp
  have rpc: "parse_rpc (xe_body flow_env) (Some ''x'') = Inr (Some demo_rpc)" by code_simp
  have called: "call_context (xe_float_repr flow_env) (xe_sha flow_env) demo_proxy (hi_headers flow_request) demo_rpc =
      Inr (demo_call, None)" by code_simp
  have human: "needs_human demo_proxy ?sn demo_call" "\<not> has_execution_grant 0 demo_call demo_store" by code_simp+
  have off: "\<not> sn_emergency_stop ?sn" by simp
  have id: "dict_get demo_rpc ''id'' = JNull" by code_simp
  show ?thesis
    using approved_call_is_relayed[OF empty_gov_wf gw read auth demo_snapshot off rpc demo_request_facts(3) called human,
      of "relay_demo reply_demo" "\<lambda>_ _ _ n. (Inr demo_token, n)" "''g''" "[]" 0] id by auto
qed

end
